(* ===== verification/Prelude.thy ===== *)
theory Prelude
  imports Main "HOL-Library.Word" "HOL-Library.AList" "HOL-Library.List_Lexorder"
    "HOL-Library.Char_ord"
begin

text \<open>
  The part of the Rust language and of its standard library that the modelled code uses: UTF-8
  strings and their characters, saturating and checked machine arithmetic, hash maps that are
  iterated, and results. Nothing here models code of the repository.

  \<^item> A Rust \<open>String\<close>/\<open>&str\<close> is a \<open>string\<close>, the list of its UTF-8 bytes, so that \<open>len()\<close> is
    \<open>length\<close>, \<open>starts_with\<close> is \<open>prefix\<close>-like and byte offsets are list positions. \<open>chars()\<close> is
    \<open>str_chars\<close>, which decodes the bytes; \<open>str_of_chars\<close> encodes them again.
  \<^item> \<open>u32\<close>, \<open>u64\<close> and the address types are words; \<open>usize\<close> values that count bytes or elements in
    memory are \<open>nat\<close>, with the saturation at \<open>usize::MAX\<close> written out.
  \<^item> A \<open>HashMap\<close> that is only looked up and updated is a map; one that is iterated is an association
    list with distinct keys, the iteration order being the list order.
  \<^item> A \<open>BTreeMap\<close> is an association list sorted by key; strings are ordered bytewise, as in Rust.
  \<^item> \<open>Result<T, E>\<close> is \<open>'e + 'a\<close> with \<open>Inl\<close> for \<open>Err\<close>.
\<close>

named_theorems rust_simps \<open>facts about the modelled standard library\<close>
named_theorems inv_intros \<open>preservation of component invariants\<close>
named_theorems frame_simps \<open>what an operation leaves unchanged\<close>
named_theorems session_intros \<open>operations that stay within one session\<close>

type_synonym u16 = "16 word"
type_synonym u32 = "32 word"
type_synonym u64 = "64 word"
type_synonym timestamp = int

subsection \<open>Machine arithmetic\<close>

definition sat_add :: "'a::len word \<Rightarrow> 'a word \<Rightarrow> 'a word" where
  "sat_add a b = (if a + b < a then - 1 else a + b)"

definition sat_sub :: "'a::len word \<Rightarrow> 'a word \<Rightarrow> 'a word" where
  "sat_sub a b = (if a < b then 0 else a - b)"

definition checked_add :: "'a::len word \<Rightarrow> 'a word \<Rightarrow> 'a word option" where
  "checked_add a b = (if a + b < a then None else Some (a + b))"

abbreviation (input) usize_max :: nat where
  "usize_max \<equiv> 18446744073709551615"

definition usize_sat_add :: "nat \<Rightarrow> nat \<Rightarrow> nat" where
  "usize_sat_add a b = min (a + b) usize_max"

definition usize_checked_add :: "nat \<Rightarrow> nat \<Rightarrow> nat option" where
  "usize_checked_add a b = (if a + b \<le> usize_max then Some (a + b) else None)"

subsection \<open>UTF-8\<close>

text \<open>\<open>char::len_utf8\<close> and \<open>char::encode_utf8\<close> on a Unicode scalar value.\<close>

definition scalar :: "nat \<Rightarrow> bool" where
  "scalar c \<longleftrightarrow> c < 0xD800 \<or> (0xE000 \<le> c \<and> c < 0x110000)"

definition len_utf8 :: "nat \<Rightarrow> nat" where
  "len_utf8 c = (if c < 0x80 then 1 else if c < 0x800 then 2 else if c < 0x10000 then 3 else 4)"

definition cont_byte :: "nat \<Rightarrow> char" where
  "cont_byte n = char_of (0x80 + n mod 64)"

definition encode_char :: "nat \<Rightarrow> string" where
  "encode_char c =
     (if c < 0x80 then [char_of c]
      else if c < 0x800 then [char_of (0xC0 + c div 64), cont_byte c]
      else if c < 0x10000 then
        [char_of (0xE0 + c div 4096), cont_byte (c div 64), cont_byte c]
      else [char_of (0xF0 + c div 262144), cont_byte (c div 4096), cont_byte (c div 64),
            cont_byte c])"

definition str_of_chars :: "nat list \<Rightarrow> string" where
  "str_of_chars cs = concat (map encode_char cs)"

text \<open>The first character of a string and the bytes after it; the bytes are valid UTF-8 in every
  Rust string, so the truncated cases do not arise there.\<close>

definition low_bits :: "char \<Rightarrow> nat" where
  "low_bits b = of_char b mod 64"

fun decode_char :: "string \<Rightarrow> (nat \<times> string) option" where
  "decode_char [] = None"
| "decode_char (b # bs) =
     (let x = of_char b :: nat in
      if x < 0x80 then Some (x, bs)
      else if x < 0xE0 then
        (case bs of b1 # r \<Rightarrow> Some ((x mod 32) * 64 + low_bits b1, r) | _ \<Rightarrow> Some (x, bs))
      else if x < 0xF0 then
        (case bs of
           b1 # b2 # r \<Rightarrow> Some ((x mod 16) * 4096 + low_bits b1 * 64 + low_bits b2, r)
         | _ \<Rightarrow> Some (x, bs))
      else
        (case bs of
           b1 # b2 # b3 # r \<Rightarrow>
             Some ((x mod 8) * 262144 + low_bits b1 * 4096 + low_bits b2 * 64 + low_bits b3, r)
         | _ \<Rightarrow> Some (x, bs)))"

lemma decode_char_shorter: "decode_char s = Some (c, r) \<Longrightarrow> length r < length s"
  by (cases s) (auto simp: Let_def split: if_splits list.splits)

function str_chars :: "string \<Rightarrow> nat list" where
  "str_chars s = (case decode_char s of None \<Rightarrow> [] | Some (c, r) \<Rightarrow> c # str_chars r)"
  by pat_completeness auto
termination
  by (relation "measure length") (auto dest: decode_char_shorter)

declare str_chars.simps [simp del]

definition valid_utf8 :: "string \<Rightarrow> bool" where
  "valid_utf8 s \<longleftrightarrow> (\<exists>cs. list_all scalar cs \<and> s = str_of_chars cs)"

text \<open>\<open>str::is_char_boundary\<close>: the index is the end or does not sit on a continuation byte.\<close>

definition is_char_boundary :: "string \<Rightarrow> nat \<Rightarrow> bool" where
  "is_char_boundary s i \<longleftrightarrow>
     i = 0 \<or> i = length s \<or> (i < length s \<and> \<not> (0x80 \<le> (of_char (s ! i) :: nat) \<and> (of_char (s ! i) :: nat) < 0xC0))"


subsection \<open>Characters\<close>

text \<open>The ASCII tests of \<open>char\<close> and \<open>u8\<close>. The Unicode tests compare ASCII first and look other
  characters up in tables of the Unicode character database; the tables are the parameter
  \<open>unicode_tables\<close>, the white space one is short enough to be written out.\<close>

record unicode_tables =
  uni_alphabetic :: "nat \<Rightarrow> bool"
  uni_numeric :: "nat \<Rightarrow> bool"
  uni_uppercase :: "nat \<Rightarrow> bool"
  uni_to_upper :: "nat \<Rightarrow> nat list"

definition is_ascii_uppercase :: "nat \<Rightarrow> bool" where
  "is_ascii_uppercase c \<longleftrightarrow> 65 \<le> c \<and> c \<le> 90"

definition is_ascii_lowercase :: "nat \<Rightarrow> bool" where
  "is_ascii_lowercase c \<longleftrightarrow> 97 \<le> c \<and> c \<le> 122"

definition is_ascii_digit :: "nat \<Rightarrow> bool" where
  "is_ascii_digit c \<longleftrightarrow> 48 \<le> c \<and> c \<le> 57"

definition is_ascii_alphabetic :: "nat \<Rightarrow> bool" where
  "is_ascii_alphabetic c \<longleftrightarrow> is_ascii_uppercase c \<or> is_ascii_lowercase c"

definition is_ascii_alphanumeric :: "nat \<Rightarrow> bool" where
  "is_ascii_alphanumeric c \<longleftrightarrow> is_ascii_alphabetic c \<or> is_ascii_digit c"

definition is_alphabetic :: "unicode_tables \<Rightarrow> nat \<Rightarrow> bool" where
  "is_alphabetic u c \<longleftrightarrow> is_ascii_alphabetic c \<or> (0x7F < c \<and> uni_alphabetic u c)"

definition is_numeric :: "unicode_tables \<Rightarrow> nat \<Rightarrow> bool" where
  "is_numeric u c \<longleftrightarrow> is_ascii_digit c \<or> (0x7F < c \<and> uni_numeric u c)"

definition is_alphanumeric :: "unicode_tables \<Rightarrow> nat \<Rightarrow> bool" where
  "is_alphanumeric u c \<longleftrightarrow> is_alphabetic u c \<or> is_numeric u c"

definition is_uppercase :: "unicode_tables \<Rightarrow> nat \<Rightarrow> bool" where
  "is_uppercase u c \<longleftrightarrow> is_ascii_uppercase c \<or> (0x7F < c \<and> uni_uppercase u c)"

definition to_uppercase :: "unicode_tables \<Rightarrow> nat \<Rightarrow> nat list" where
  "to_uppercase u c =
     (if c \<le> 0x7F then [if is_ascii_lowercase c then c - 32 else c] else uni_to_upper u c)"

definition is_whitespace :: "nat \<Rightarrow> bool" where
  "is_whitespace c \<longleftrightarrow>
     c = 32 \<or> (9 \<le> c \<and> c \<le> 13) \<or> c \<in> {0x85, 0xA0, 0x1680, 0x2028, 0x2029, 0x202F, 0x205F, 0x3000}
     \<or> (0x2000 \<le> c \<and> c \<le> 0x200A)"

lemmas ascii_defs =
  is_ascii_uppercase_def is_ascii_lowercase_def is_ascii_digit_def is_ascii_alphabetic_def
  is_ascii_alphanumeric_def

lemmas unicode_defs =
  is_alphabetic_def is_numeric_def is_alphanumeric_def is_uppercase_def to_uppercase_def ascii_defs

subsection \<open>Strings\<close>

abbreviation byte :: "char \<Rightarrow> nat" where
  "byte b \<equiv> of_char b"

definition starts_with :: "string \<Rightarrow> string \<Rightarrow> bool" where
  "starts_with s p \<longleftrightarrow> take (length p) s = p"

definition ends_with :: "string \<Rightarrow> string \<Rightarrow> bool" where
  "ends_with s p \<longleftrightarrow> length p \<le> length s \<and> drop (length s - length p) s = p"

definition strip_prefix :: "string \<Rightarrow> string \<Rightarrow> string option" where
  "strip_prefix s p = (if starts_with s p then Some (drop (length p) s) else None)"

definition strip_suffix :: "string \<Rightarrow> string \<Rightarrow> string option" where
  "strip_suffix s p = (if ends_with s p then Some (take (length s - length p) s) else None)"

fun str_contains :: "string \<Rightarrow> string \<Rightarrow> bool" where
  "str_contains [] p \<longleftrightarrow> p = []"
| "str_contains (b # bs) p \<longleftrightarrow> starts_with (b # bs) p \<or> str_contains bs p"

text \<open>\<open>str::split\<close> on a one-byte separator; the result is never empty.\<close>

fun str_split :: "char \<Rightarrow> string \<Rightarrow> string list" where
  "str_split sep [] = [[]]"
| "str_split sep (b # bs) =
     (if b = sep then [] # str_split sep bs
      else (case str_split sep bs of [] \<Rightarrow> [[b]] | w # ws \<Rightarrow> (b # w) # ws))"

fun split_once :: "char \<Rightarrow> string \<Rightarrow> (string \<times> string) option" where
  "split_once sep [] = None"
| "split_once sep (b # bs) =
     (if b = sep then Some ([], bs)
      else map_option (\<lambda>(l, r). (b # l, r)) (split_once sep bs))"

definition ascii_lower :: "char \<Rightarrow> char" where
  "ascii_lower b = (if is_ascii_uppercase (byte b) then char_of (byte b + 32) else b)"

definition ascii_upper :: "char \<Rightarrow> char" where
  "ascii_upper b = (if is_ascii_lowercase (byte b) then char_of (byte b - 32) else b)"

definition to_ascii_lowercase :: "string \<Rightarrow> string" where
  "to_ascii_lowercase s = map ascii_lower s"

definition to_ascii_uppercase :: "string \<Rightarrow> string" where
  "to_ascii_uppercase s = map ascii_upper s"

text \<open>\<open>slice::join\<close> and the decimal \<open>Display\<close> of unsigned integers.\<close>

fun str_join :: "string \<Rightarrow> string list \<Rightarrow> string" where
  "str_join sep [] = []"
| "str_join sep [x] = x"
| "str_join sep (x # y # ys) = x @ sep @ str_join sep (y # ys)"

fun show_nat :: "nat \<Rightarrow> string" where
  "show_nat n = (if n < 10 then [char_of (48 + n)] else show_nat (n div 10) @ [char_of (48 + n mod 10)])"

declare show_nat.simps [simp del]

text \<open>\<open>str::trim\<close> removes the white space characters at both ends.\<close>

definition str_trim :: "string \<Rightarrow> string" where
  "str_trim s = str_of_chars (rev (dropWhile is_whitespace (rev (dropWhile is_whitespace (str_chars s)))))"

text \<open>\<open>str::lines\<close>: a final line break opens no further line, and a carriage return before a line
  break belongs to it.\<close>

abbreviation LF :: char where "LF \<equiv> CHR 0x0A"
abbreviation CR :: char where "CR \<equiv> CHR 0x0D"

definition strip_cr :: "string \<Rightarrow> string" where
  "strip_cr l = (case strip_suffix l [CR] of None \<Rightarrow> l | Some l' \<Rightarrow> l')"

definition str_lines :: "string \<Rightarrow> string list" where
  "str_lines s =
     (let ps = str_split LF s
      in map strip_cr (butlast ps) @ (if last ps = [] then [] else [last ps]))"

subsection \<open>Ordered maps\<close>

fun bt_insert :: "'k::linorder \<Rightarrow> 'v \<Rightarrow> ('k \<times> 'v) list \<Rightarrow> ('k \<times> 'v) list" where
  "bt_insert k v [] = [(k, v)]"
| "bt_insert k v ((k', v') # m) =
     (if k < k' then (k, v) # (k', v') # m
      else if k = k' then (k, v) # m
      else (k', v') # bt_insert k v m)"

definition bt_wf :: "('k::linorder \<times> 'v) list \<Rightarrow> bool" where
  "bt_wf m \<longleftrightarrow> sorted_wrt (<) (map fst m)"

subsection \<open>JSON values\<close>

text \<open>The documented shape of \<open>serde_json::Value\<close>; an object lists its members in map order.\<close>

datatype json_number = PosInt nat | NegInt int | Float string

datatype json =
    JNull
  | JBool bool
  | JNumber json_number
  | JString string
  | JArray "json list"
  | JObject "(string \<times> json) list"

fun json_as_str :: "json \<Rightarrow> string option" where
  "json_as_str (JString s) = Some s"
| "json_as_str _ = None"

fun json_as_array :: "json \<Rightarrow> json list option" where
  "json_as_array (JArray xs) = Some xs"
| "json_as_array _ = None"

fun json_as_object :: "json \<Rightarrow> (string \<times> json) list option" where
  "json_as_object (JObject m) = Some m"
| "json_as_object _ = None"

fun json_as_u64 :: "json \<Rightarrow> nat option" where
  "json_as_u64 (JNumber (PosInt n)) = Some n"
| "json_as_u64 _ = None"

fun json_get :: "json \<Rightarrow> string \<Rightarrow> json option" where
  "json_get (JObject m) k = map_of m k"
| "json_get _ k = None"

subsection \<open>Laws of the arithmetic\<close>

lemma unat_bound: "unat (a :: 'a::len word) < 2 ^ LENGTH('a)"
  by (rule unsigned_less)

lemma add_wraps_iff:
  fixes a b :: "'a::len word"
  shows "a + b < a \<longleftrightarrow> 2 ^ LENGTH('a) \<le> unat a + unat b"
proof (cases "unat a + unat b < 2 ^ LENGTH('a)")
  case True
  then show ?thesis by (simp add: word_less_nat_alt unat_plus_if')
next
  case False
  then have eq: "unat (a + b) = unat a + unat b - 2 ^ LENGTH('a)"
    by (simp add: unat_plus_if')
  show ?thesis
    unfolding word_less_nat_alt eq using False unat_bound [of b] by linarith
qed

lemma unat_sat_add [rust_simps]:
  fixes a b :: "'a::len word"
  shows "unat (sat_add a b) = min (unat a + unat b) (2 ^ LENGTH('a) - 1)"
proof (cases "unat a + unat b < 2 ^ LENGTH('a)")
  case True
  then show ?thesis
    by (auto simp: sat_add_def add_wraps_iff unat_plus_if')
next
  case False
  then show ?thesis
    by (simp add: sat_add_def add_wraps_iff unsigned_minus_1_eq_mask mask_eq_exp_minus_1)
qed

lemma unat_sat_sub [rust_simps]: "unat (sat_sub a b) = unat a - unat b"
  by (auto simp: sat_sub_def word_less_nat_alt unat_sub_if')

lemma sat_add_zero [simp]: "sat_add a 0 = a" "sat_add 0 a = a"
  by (auto simp: sat_add_def)

lemma sat_sub_zero [simp]: "sat_sub a 0 = a" "sat_sub a a = 0"
  by (auto simp: sat_sub_def)

lemma checked_add_Some:
  fixes a b :: "'a::len word"
  shows "checked_add a b = Some c \<longleftrightarrow> unat a + unat b < 2 ^ LENGTH('a) \<and> c = a + b"
  by (auto simp: checked_add_def add_wraps_iff)

subsection \<open>Laws of the encoding\<close>

lemma of_char_char_of [simp]: "n < 256 \<Longrightarrow> (of_char (char_of n :: char) :: nat) = n"
  by (simp add: of_char_of)

lemma low_bits_cont_byte [simp]: "low_bits (cont_byte n) = n mod 64"
proof -
  have "0x80 + n mod 64 < (256::nat)" by (simp add: less_imp_le_nat trans_less_add2)
  then have "low_bits (cont_byte n) = (0x80 + n mod 64) mod 64"
    by (simp add: low_bits_def cont_byte_def)
  also have "\<dots> = n mod 64"
    by (subst mod_add_left_eq [symmetric]) simp
  finally show ?thesis .
qed

lemma length_encode_char [simp]: "length (encode_char c) = len_utf8 c"
  by (simp add: encode_char_def len_utf8_def)

lemma encode_char_neq_Nil [simp]: "encode_char c \<noteq> []"
  by (simp add: encode_char_def)

lemma split64: "n = n div 64 * 64 + n mod (64::nat)"
  by simp

lemma div64: "n div 64 div 64 = n div (4096::nat)" "n div 4096 div 64 = n div (262144::nat)"
  by (simp_all add: div_mult2_eq [symmetric])

lemma join64: "q = a * 64 + b \<Longrightarrow> c = q * 64 + d \<Longrightarrow> a * 4096 + b * 64 + d = (c::nat)"
  by simp

lemma join64':
  "q = a * 4096 + b * 64 + d \<Longrightarrow> c = q * 64 + e \<Longrightarrow> a * 262144 + b * 4096 + d * 64 + e = (c::nat)"
  by simp

lemma decode_encode_char:
  assumes "scalar c"
  shows "decode_char (encode_char c @ r) = Some (c, r)"
proof -
  have c: "c < 0x110000" using assms by (auto simp: scalar_def)
  consider "c < 0x80" | "0x80 \<le> c" "c < 0x800" | "0x800 \<le> c" "c < 0x10000" | "0x10000 \<le> c"
    by linarith
  then show ?thesis
  proof cases
    case 1
    then show ?thesis by (simp add: encode_char_def Let_def)
  next
    case 2
    then have b: "c div 64 < 32" "2 \<le> c div 64" by auto
    then have "(0xC0 + c div 64) mod 32 = c div 64" by (simp add: mod_if)
    with b 2 show ?thesis
      by (simp add: encode_char_def Let_def div_mult_mod_eq [of c 64, simplified])
  next
    case 3
    then have b: "c div 4096 < 16" by auto
    then have "(0xE0 + c div 4096) mod 16 = c div 4096"
      by (subst mod_add_left_eq [symmetric]) simp
    moreover have "c div 4096 * 4096 + c div 64 mod 64 * 64 + c mod 64 = c"
      using split64 [of "c div 64", unfolded div64] split64 [of c] by (rule join64)
    ultimately show ?thesis using b 3 by (simp add: encode_char_def Let_def)
  next
    case 4
    then have b: "c div 262144 < 8" using c by auto
    then have "(0xF0 + c div 262144) mod 8 = c div 262144"
      by (subst mod_add_left_eq [symmetric]) simp
    moreover have
      "c div 262144 * 262144 + c div 4096 mod 64 * 4096 + c div 64 mod 64 * 64 + c mod 64 = c"
      using join64 [OF split64 [of "c div 4096", unfolded div64] split64 [of "c div 64", unfolded div64]]
        split64 [of c] by (rule join64' [OF sym])
    ultimately show ?thesis using b 4 by (simp add: encode_char_def Let_def)
  qed
qed

lemma str_chars_Nil [simp]: "str_chars [] = []"
  by (simp add: str_chars.simps)

lemma str_of_chars_Nil [simp]: "str_of_chars [] = []"
  by (simp add: str_of_chars_def)

lemma str_of_chars_Cons [simp]: "str_of_chars (c # cs) = encode_char c @ str_of_chars cs"
  by (simp add: str_of_chars_def)

lemma str_of_chars_append [simp]: "str_of_chars (cs @ ds) = str_of_chars cs @ str_of_chars ds"
  by (simp add: str_of_chars_def)

lemma str_chars_of_chars [rust_simps]: "list_all scalar cs \<Longrightarrow> str_chars (str_of_chars cs) = cs"
  by (induction cs) (simp_all add: str_chars.simps [of "encode_char _ @ _"] decode_encode_char)

lemma str_chars_append:
  assumes "valid_utf8 s"
  shows "str_chars (s @ t) = str_chars s @ str_chars t"
proof -
  obtain cs where cs: "list_all scalar cs" and s: "s = str_of_chars cs"
    using assms by (auto simp: valid_utf8_def)
  from cs have "str_chars (str_of_chars cs @ t) = cs @ str_chars t"
    by (induction cs) (simp_all add: str_chars.simps [of "encode_char _ @ _"] decode_encode_char)
  with cs show ?thesis by (simp add: s str_chars_of_chars)
qed

lemma valid_utf8_append: "valid_utf8 s \<Longrightarrow> valid_utf8 t \<Longrightarrow> valid_utf8 (s @ t)"
  unfolding valid_utf8_def by (metis list_all_append str_of_chars_append)

text \<open>An ASCII byte is a character of its own.\<close>

lemma str_chars_ascii:
  "list_all (\<lambda>b. (of_char b :: nat) < 128) s \<Longrightarrow> str_chars s = map of_char s"
  by (induction s) (simp_all add: str_chars.simps [of "_ # _"] Let_def)

lemma str_of_chars_ascii:
  "list_all (\<lambda>b. (of_char b :: nat) < 128) s \<Longrightarrow> str_of_chars (map of_char s) = s"
  by (induction s) (simp_all add: encode_char_def)

lemma valid_utf8_ascii: "list_all (\<lambda>b. (of_char b :: nat) < 128) s \<Longrightarrow> valid_utf8 s"
proof -
  assume a: "list_all (\<lambda>b. (of_char b :: nat) < 128) s"
  then have "list_all scalar (map of_char s)"
    by (auto simp: list_all_iff scalar_def)
  with str_of_chars_ascii [OF a] show ?thesis
    unfolding valid_utf8_def by metis
qed

text \<open>Bytes outside ASCII never encode part of an ASCII character, so a test that only ASCII
  characters pass may look at the bytes.\<close>

lemma encode_char_high: "128 \<le> c \<Longrightarrow> scalar c \<Longrightarrow> b \<in> set (encode_char c) \<Longrightarrow> 128 \<le> (of_char b :: nat)"
  by (auto simp: encode_char_def cont_byte_def scalar_def split: if_splits)

lemma any_ascii_bytes:
  assumes P: "\<And>c. P c \<Longrightarrow> c < 128" and s: "valid_utf8 s"
  shows "list_ex P (str_chars s) = list_ex (\<lambda>b. P (of_char b)) s"
proof -
  obtain cs where cs: "list_all scalar cs" and [simp]: "s = str_of_chars cs"
    using s by (auto simp: valid_utf8_def)
  have one: "scalar c \<Longrightarrow> list_ex (\<lambda>b. P (of_char b)) (encode_char c) = P c" for c
  proof (cases "c < 128")
    case True
    then show ?thesis by (simp add: encode_char_def)
  next
    case False
    moreover assume "scalar c"
    ultimately have "\<forall>b \<in> set (encode_char c). \<not> P (of_char b)"
      using P encode_char_high [of c] by fastforce
    with False P show ?thesis by (auto simp: list_ex_iff)
  qed
  from cs have "list_ex P cs = list_ex (\<lambda>b. P (of_char b)) (str_of_chars cs)"
    by (induction cs) (simp_all add: one)
  with cs show ?thesis by (simp add: str_chars_of_chars)
qed

subsection \<open>Laws of strings\<close>

lemma starts_with_iff: "starts_with s p \<longleftrightarrow> (\<exists>r. s = p @ r)"
  unfolding starts_with_def by (metis append_eq_conv_conj append_take_drop_id)

lemma ends_with_iff: "ends_with s p \<longleftrightarrow> (\<exists>r. s = r @ p)"
proof
  assume "ends_with s p"
  then have "s = take (length s - length p) s @ p"
    unfolding ends_with_def by (metis append_take_drop_id)
  then show "\<exists>r. s = r @ p" ..
qed (auto simp: ends_with_def)

lemma strip_suffix_Some: "strip_suffix s p = Some r \<longleftrightarrow> s = r @ p"
  by (auto simp: strip_suffix_def ends_with_iff)

lemma strip_prefix_Some: "strip_prefix s p = Some r \<longleftrightarrow> s = p @ r"
  by (auto simp: strip_prefix_def starts_with_iff)

lemma starts_with_refl [simp]: "starts_with s s"
  by (simp add: starts_with_def)

lemma starts_with_Nil [simp]: "starts_with s []"
  by (simp add: starts_with_def)

lemma str_split_neq_Nil [simp]: "str_split sep s \<noteq> []"
  by (induction s) (auto split: list.splits)

lemma str_join_split: "str_join [sep] (str_split sep s) = s"
proof (induction s)
  case (Cons b bs)
  show ?case
  proof (cases "str_split sep bs")
    case Nil
    then show ?thesis by simp
  next
    case (Cons w ws)
    with Cons.IH show ?thesis by (cases ws) auto
  qed
qed simp

lemma show_nat_digits: "list_all (\<lambda>b. is_ascii_digit (byte b)) (show_nat n)"
proof (induction n rule: show_nat.induct)
  case (1 n)
  have "n mod 10 < 10" by simp
  then have "48 + n mod 10 < 256" by linarith
  with 1 show ?case
    by (subst show_nat.simps) (auto simp: is_ascii_digit_def)
qed

definition digits_value :: "string \<Rightarrow> nat" where
  "digits_value s = foldl (\<lambda>acc b. acc * 10 + (byte b - 48)) 0 s"

lemma digits_value_show_nat: "digits_value (show_nat n) = n"
proof (induction n rule: show_nat.induct)
  case (1 n)
  have "n mod 10 < 10" by simp
  then have "48 + n mod 10 < 256" by linarith
  with 1 show ?case
    by (subst show_nat.simps) (auto simp: digits_value_def)
qed

lemma show_nat_inj: "show_nat m = show_nat n \<longleftrightarrow> m = n"
  by (metis digits_value_show_nat)

lemma show_nat_neq_Nil [simp]: "show_nat n \<noteq> []"
  by (subst show_nat.simps) simp

text \<open>A prefix that ends at a character boundary is a string again.\<close>

lemma cont_byte_cont: "0x80 \<le> byte (cont_byte n) \<and> byte (cont_byte n) < 0xC0"
proof -
  have "n mod 64 < 64" by simp
  then have "0x80 + n mod 64 < 256" by linarith
  then show ?thesis using \<open>n mod 64 < 64\<close> by (simp add: cont_byte_def)
qed

lemma encode_char_inner:
  "0 < i \<Longrightarrow> i < len_utf8 c \<Longrightarrow> 0x80 \<le> byte (encode_char c ! i) \<and> byte (encode_char c ! i) < 0xC0"
proof -
  assume i: "0 < i" "i < len_utf8 c"
  then have "i < 4" by (simp add: len_utf8_def split: if_splits)
  with i consider "i = 1" | "i = 2" | "i = 3" by linarith
  then show ?thesis
    using i cont_byte_cont by cases (auto simp: encode_char_def len_utf8_def split: if_splits)
qed

lemma valid_utf8_take:
  assumes "valid_utf8 s" "is_char_boundary s i"
  shows "valid_utf8 (take i s)"
proof -
  have "list_all scalar cs \<Longrightarrow> is_char_boundary (str_of_chars cs) i \<Longrightarrow>
      valid_utf8 (take i (str_of_chars cs))" for cs
  proof (induction cs arbitrary: i)
    case Nil
    then show ?case by (auto simp: valid_utf8_def intro: exI [of _ "[]"])
  next
    case (Cons c cs)
    consider "i = 0" | "0 < i" "i < len_utf8 c" | "len_utf8 c \<le> i" by linarith
    then show ?case
    proof cases
      case 1
      then show ?thesis by (auto simp: valid_utf8_def intro: exI [of _ "[]"])
    next
      case 2
      then have "str_of_chars (c # cs) ! i = encode_char c ! i" by (simp add: nth_append)
      with 2 Cons.prems(2) encode_char_inner [OF 2] show ?thesis
        by (auto simp: is_char_boundary_def)
    next
      case 3
      have "is_char_boundary (str_of_chars cs) (i - len_utf8 c)"
        using Cons.prems(2) 3 by (auto simp: is_char_boundary_def nth_append)
      with Cons have "valid_utf8 (take (i - len_utf8 c) (str_of_chars cs))" by simp
      moreover have "valid_utf8 (encode_char c)"
        using Cons.prems(1) by (auto simp: valid_utf8_def intro: exI [of _ "[c]"])
      ultimately show ?thesis using 3 by (simp add: valid_utf8_append)
    qed
  qed
  with assms show ?thesis by (auto simp: valid_utf8_def)
qed

subsection \<open>Dictionaries\<close>

text \<open>The contract the components rely on when they keep a map of the standard library: what a
  lookup returns after an insertion, and that an insertion keeps the representation.\<close>

locale dictionary =
  fixes put :: "'k \<Rightarrow> 'v \<Rightarrow> 'm \<Rightarrow> 'm"
    and get :: "'m \<Rightarrow> 'k \<Rightarrow> 'v option"
    and wf :: "'m \<Rightarrow> bool"
  assumes get_put: "wf m \<Longrightarrow> get (put k v m) = (get m)(k \<mapsto> v)"
    and wf_put: "wf m \<Longrightarrow> wf (put k v m)"
begin

lemma get_put_same: "wf m \<Longrightarrow> get (put k v m) k = Some v"
  by (simp add: get_put)

lemma get_put_other: "wf m \<Longrightarrow> k' \<noteq> k \<Longrightarrow> get (put k v m) k' = get m k'"
  by (simp add: get_put)

lemma wf_put_all: "wf m \<Longrightarrow> wf (fold (\<lambda>(k, v). put k v) kvs m)"
  by (induction kvs arbitrary: m) (auto simp: wf_put)

lemma get_put_all:
  "wf m \<Longrightarrow> get (fold (\<lambda>(k, v). put k v) kvs m) = get m ++ map_of (rev kvs)"
proof (induction kvs arbitrary: m)
  case (Cons kv kvs)
  then show ?case
    by (cases kv) (auto simp: wf_put get_put map_add_def fun_eq_iff split: option.splits)
qed simp

lemma dom_put_all: "wf m \<Longrightarrow> dom (get (fold (\<lambda>(k, v). put k v) kvs m)) = dom (get m) \<union> fst ` set kvs"
  by (auto simp: get_put_all dom_map_of_conv_image_fst)

end

lemma set_fst_bt_insert: "fst ` set (bt_insert k v m) = insert k (fst ` set m)"
  by (induction k v m rule: bt_insert.induct) (simp_all add: insert_commute)

lemma bt_wf_Cons: "bt_wf ((k, v) # m) \<longleftrightarrow> (\<forall>k' \<in> fst ` set m. k < k') \<and> bt_wf m"
  by (simp add: bt_wf_def)

lemma bt_wf_insert: "bt_wf m \<Longrightarrow> bt_wf (bt_insert k v m)"
proof (induction m)
  case Nil
  then show ?case by (simp add: bt_wf_def)
next
  case (Cons a m)
  obtain k' v' where a: "a = (k', v')" by (cases a)
  from Cons have m: "\<forall>x \<in> fst ` set m. k' < x" "bt_wf m" by (simp_all add: a bt_wf_Cons)
  from Cons.IH [OF m(2)] m show ?case
    unfolding a by (auto simp: bt_wf_Cons set_fst_bt_insert dest: less_trans)
qed

interpretation bt: dictionary bt_insert map_of "bt_wf :: ('k::linorder \<times> 'v) list \<Rightarrow> bool"
proof
  fix m :: "('k::linorder \<times> 'v) list" and k v
  assume "bt_wf m"
  then show "map_of (bt_insert k v m) = (map_of m)(k \<mapsto> v)"
  proof (induction m)
    case (Cons a m)
    obtain k' v' where a: "a = (k', v')" by (cases a)
    with Cons show ?case by (auto simp: bt_wf_Cons fun_eq_iff)
  qed simp
qed (rule bt_wf_insert)

lemma bt_wf_distinct: "bt_wf m \<Longrightarrow> distinct (map fst m)"
  unfolding bt_wf_def by (simp add: strict_sorted_iff)

abbreviation al_wf :: "('k \<times> 'v) list \<Rightarrow> bool" where
  "al_wf m \<equiv> distinct (map fst m)"

interpretation al: dictionary AList.update map_of al_wf
  by unfold_locales (simp_all add: update_conv' distinct_update)

lemma update_fresh: "map_of al k = None \<Longrightarrow> AList.update k v al = al @ [(k, v)]"
  by (induction al) (auto split: if_splits)

lemma update_present:
  "map_of al k = Some r \<Longrightarrow> \<exists>xs ys. al = xs @ (k, r) # ys \<and> AList.update k v al = xs @ (k, v) # ys"
proof (induction al)
  case (Cons p al)
  show ?case
  proof (cases "fst p = k")
    case True
    then show ?thesis using Cons.prems by (cases p) (auto intro: exI [of _ "[]"])
  next
    case False
    then obtain xs ys where "al = xs @ (k, r) # ys" "AList.update k v al = xs @ (k, v) # ys"
      using Cons by (cases p) auto
    then show ?thesis using False by (cases p) (auto intro: exI [of _ "p # xs"])
  qed
qed simp

subsection \<open>Transition systems\<close>

text \<open>The states a component can reach from an initial one, and the principle that an invariant every
  step keeps holds in all of them. Components interpret the locale with their own steps.\<close>

inductive reachable :: "('s \<Rightarrow> bool) \<Rightarrow> ('s \<Rightarrow> 's \<Rightarrow> bool) \<Rightarrow> 's \<Rightarrow> bool" for init step where
  reachable_init: "init s \<Longrightarrow> reachable init step s"
| reachable_step: "reachable init step s \<Longrightarrow> step s t \<Longrightarrow> reachable init step t"

locale invariant_system =
  fixes init :: "'s \<Rightarrow> bool" and step :: "'s \<Rightarrow> 's \<Rightarrow> bool" and inv :: "'s \<Rightarrow> bool"
  assumes init_inv: "init s \<Longrightarrow> inv s"
    and step_inv: "inv s \<Longrightarrow> step s t \<Longrightarrow> inv t"
begin

lemma reachable_inv: "reachable init step s \<Longrightarrow> inv s"
  by (induction rule: reachable.induct) (auto intro: init_inv step_inv)

lemma steps_inv: "step\<^sup>*\<^sup>* s t \<Longrightarrow> inv s \<Longrightarrow> inv t"
  by (induction rule: rtranclp_induct) (auto intro: step_inv)

end

end
