(* ===== verification/Capability.thy ===== *)
theory Capability
  imports Prelude
begin

text \<open>
  The host boundary of \<open>crates/tm-host/src/foundation\<close>: capability grants, the invocation context
  with its approval policy, the registry of host functions that \<open>execute(code)\<close> reaches, and the
  registry of resource handlers.

  Host functions, approval policies and event sinks are trait objects. They are fields of the model
  that take and return a world \<open>'w\<close>, so that what a refused call must not do can be stated: it
  leaves the world as it was. URL parsing is done by the \<open>url\<close> crate and is the argument \<open>url_scheme\<close>.
\<close>

subsection \<open>Errors\<close>

datatype host_error =
    CapabilityDenied string
  | ApprovalDenied string
  | ApprovalTimeout string
  | UnknownScheme string "string list"
  | NotFound string
  | InvalidArgs string
  | InvalidPath string
  | NotImplemented string
  | QuotaExceeded string
  | Timeout string
  | OutputTruncated string
  | HostCall string

type_synonym 'a host_result = "host_error + 'a"

fun sdk_name :: "host_error \<Rightarrow> string" where
  "sdk_name (CapabilityDenied _) = ''CapabilityDeniedError''"
| "sdk_name (UnknownScheme _ _) = ''CapabilityDeniedError''"
| "sdk_name (ApprovalDenied _) = ''ApprovalDeniedError''"
| "sdk_name (ApprovalTimeout _) = ''ApprovalTimeoutError''"
| "sdk_name (NotFound _) = ''NotFoundError''"
| "sdk_name (InvalidArgs _) = ''InvalidArgsError''"
| "sdk_name (InvalidPath _) = ''InvalidPathError''"
| "sdk_name (NotImplemented _) = ''NotImplementedError''"
| "sdk_name (QuotaExceeded _) = ''QuotaExceededError''"
| "sdk_name (Timeout _) = ''TimeoutError''"
| "sdk_name (OutputTruncated _) = ''OutputTruncatedError''"
| "sdk_name (HostCall _) = ''HostCallError''"

subsection \<open>Grants\<close>

record capability_grants =
  allowed :: "string set"

definition no_grants :: capability_grants where
  "no_grants = \<lparr>allowed = {}\<rparr>"

definition allow :: "capability_grants \<Rightarrow> string \<Rightarrow> capability_grants" where
  "allow g name = g\<lparr>allowed := insert name (allowed g)\<rparr>"

definition allow_many :: "capability_grants \<Rightarrow> string list \<Rightarrow> capability_grants" where
  "allow_many g names = fold (\<lambda>name g. g\<lparr>allowed := insert name (allowed g)\<rparr>) names g"

definition grant_covers :: "string \<Rightarrow> string \<Rightarrow> bool" where
  "grant_covers granted name \<longleftrightarrow>
     (case strip_suffix granted ''.*'' of
        Some prefix \<Rightarrow> name = prefix \<or> starts_with name (prefix @ ''.'')
      | None \<Rightarrow> granted = name)"

definition permits :: "capability_grants \<Rightarrow> string \<Rightarrow> bool" where
  "permits g name \<longleftrightarrow> (\<exists>granted \<in> allowed g. grant_covers granted name)"

subsection \<open>Invocation context\<close>

datatype approval_decision = Approved | Denied

record memory_authority =
  ma_subject :: string
  ma_scope :: string

record 'w invocation_ctx =
  grants :: capability_grants
  approvals :: "string \<Rightarrow> nat \<Rightarrow> 'w \<Rightarrow> approval_decision host_result \<times> 'w"
  approval_timeout :: nat
  events :: "string \<Rightarrow> json \<Rightarrow> 'w \<Rightarrow> unit host_result \<times> 'w"
  session_id :: string
  actor_id :: "string option"
  project_id :: "string option"
  memory_authority :: "memory_authority option"

definition default_deny_approval_policy ::
    "string \<Rightarrow> nat \<Rightarrow> 'w \<Rightarrow> approval_decision host_result \<times> 'w" where
  "default_deny_approval_policy action timeout w = (Inl (ApprovalTimeout action), w)"

definition noop_host_event_sink :: "string \<Rightarrow> json \<Rightarrow> 'w \<Rightarrow> unit host_result \<times> 'w" where
  "noop_host_event_sink event_type payload w = (Inr (), w)"

definition ctx_with_approvals ::
    "capability_grants \<Rightarrow> (string \<Rightarrow> nat \<Rightarrow> 'w \<Rightarrow> approval_decision host_result \<times> 'w) \<Rightarrow> nat \<Rightarrow>
     'w invocation_ctx" where
  "ctx_with_approvals g policy timeout =
     \<lparr>grants = g, approvals = policy, approval_timeout = timeout, events = noop_host_event_sink,
      session_id = [], actor_id = None, project_id = None, memory_authority = None\<rparr>"

definition ctx_new :: "capability_grants \<Rightarrow> 'w invocation_ctx" where
  "ctx_new g = ctx_with_approvals g default_deny_approval_policy 60000"

definition require_linked_alias :: "'w invocation_ctx \<Rightarrow> string \<Rightarrow> unit host_result" where
  "require_linked_alias ctx alias =
     (case project_id ctx of
        None \<Rightarrow>
          (if session_id ctx = [] \<or> session_id ctx = ''default'' then Inr ()
           else Inl (CapabilityDenied ''linked resources require a server-authoritative project''))
      | Some project \<Rightarrow>
          (if project = alias then Inr ()
           else Inl (CapabilityDenied
             (''linked alias '' @ alias @ '' is outside authorized project '' @ project))))"

definition require_approval :: "'w invocation_ctx \<Rightarrow> string \<Rightarrow> 'w \<Rightarrow> unit host_result \<times> 'w" where
  "require_approval ctx action w =
     (case approvals ctx action (approval_timeout ctx) w of
        (Inl e, w') \<Rightarrow> (Inl e, w')
      | (Inr Approved, w') \<Rightarrow> (Inr (), w')
      | (Inr Denied, w') \<Rightarrow> (Inl (ApprovalDenied action), w'))"

definition emit_event :: "'w invocation_ctx \<Rightarrow> string \<Rightarrow> json \<Rightarrow> 'w \<Rightarrow> unit host_result \<times> 'w" where
  "emit_event ctx event_type payload w = events ctx event_type payload w"

subsection \<open>Host functions\<close>

record tool_example =
  te_title :: "string option"
  te_code :: string
  te_notes :: "string option"

record tool_error_doc =
  ted_name :: string
  ted_when :: string
  ted_retryable :: bool

record grant_doc =
  gd_kind :: string
  gd_description :: string

record tool_docs =
  td_name :: string
  td_namespace :: string
  td_summary :: string
  td_description :: "string option"
  td_signature :: string
  td_args_schema :: json
  td_result_schema :: "json option"
  td_examples :: "tool_example list"
  td_errors :: "tool_error_doc list"
  td_grants :: "grant_doc list"
  td_sensitive :: bool
  td_approval :: string
  td_since :: string
  td_stability :: string

record tool_summary =
  ts_name :: string
  ts_namespace :: string
  ts_summary :: string
  ts_sensitive :: bool
  ts_granted :: bool

record 'w host_fn =
  fn_docs :: tool_docs
  fn_call :: "json \<Rightarrow> 'w invocation_ctx \<Rightarrow> 'w \<Rightarrow> json host_result \<times> 'w"

definition fn_name :: "'w host_fn \<Rightarrow> string" where
  "fn_name f = td_name (fn_docs f)"

record 'w host_registry =
  host_functions :: "(string \<times> 'w host_fn) list"

definition host_registry_new :: "'w host_registry" where
  "host_registry_new = \<lparr>host_functions = []\<rparr>"

definition host_register :: "'w host_registry \<Rightarrow> 'w host_fn \<Rightarrow> 'w host_registry" where
  "host_register r f = r\<lparr>host_functions := bt_insert (fn_name f) f (host_functions r)\<rparr>"

definition host_contains :: "'w host_registry \<Rightarrow> string \<Rightarrow> bool" where
  "host_contains r name \<longleftrightarrow> map_of (host_functions r) name \<noteq> None"

text \<open>\<open>lower\<close> is \<open>str::to_lowercase\<close>, the Unicode lower casing of the standard library.\<close>

definition host_search ::
    "(string \<Rightarrow> string) \<Rightarrow> 'w host_registry \<Rightarrow> string \<Rightarrow> string option \<Rightarrow> nat \<Rightarrow> 'w invocation_ctx \<Rightarrow>
     tool_summary list" where
  "host_search lower r query namespace limit ctx =
     (let needle = lower query; limit = max limit 1 in
      take limit
        (List.map_filter
          (\<lambda>(_, f). let docs = fn_docs f in
             if (case namespace of Some ns \<Rightarrow> td_namespace docs \<noteq> ns | None \<Rightarrow> False) then None
             else let haystack = lower (td_name docs @ '' '' @ td_namespace docs @ '' '' @ td_summary docs) in
               if needle = [] \<or> str_contains haystack needle then
                 Some \<lparr>ts_name = td_name docs, ts_namespace = td_namespace docs,
                       ts_summary = td_summary docs, ts_sensitive = td_sensitive docs,
                       ts_granted = permits (grants ctx) (td_name docs)\<rparr>
               else None)
          (host_functions r)))"

definition host_docs :: "'w host_registry \<Rightarrow> string \<Rightarrow> 'w invocation_ctx \<Rightarrow> tool_docs host_result" where
  "host_docs r name ctx =
     (case map_of (host_functions r) name of
        Some f \<Rightarrow> Inr (fn_docs f)
      | None \<Rightarrow> Inl (NotFound (''tool '' @ name)))"

definition host_invoke ::
    "'w host_registry \<Rightarrow> string \<Rightarrow> json \<Rightarrow> 'w invocation_ctx \<Rightarrow> 'w \<Rightarrow> json host_result \<times> 'w" where
  "host_invoke r name args ctx w =
     (if \<not> permits (grants ctx) name then (Inl (CapabilityDenied name), w)
      else (case map_of (host_functions r) name of
              None \<Rightarrow> (Inl (CapabilityDenied name), w)
            | Some f \<Rightarrow> fn_call f args ctx w))"

subsection \<open>Resources\<close>

record resource_entry =
  re_uri :: string
  re_name :: string
  re_kind :: string
  re_title :: "string option"
  re_size_bytes :: "nat option"
  re_modified_at :: "string option"

text \<open>\<open>'c\<close> is the \<open>ResourceContent\<close> a handler returns.\<close>

record ('w, 'c) resource_handler =
  rh_scheme :: string
  rh_capability :: string
  rh_read :: "string \<Rightarrow> string option \<Rightarrow> 'w invocation_ctx \<Rightarrow> 'w \<Rightarrow> 'c host_result \<times> 'w"
  rh_preview :: "string \<Rightarrow> 'w invocation_ctx \<Rightarrow> 'w \<Rightarrow> 'c host_result \<times> 'w"
  rh_list :: "string option \<Rightarrow> 'w invocation_ctx \<Rightarrow> 'w \<Rightarrow> resource_entry list host_result \<times> 'w"

record ('w, 'c) resource_registry =
  handlers :: "(string \<times> ('w, 'c) resource_handler) list"

definition resource_register ::
    "('w, 'c) resource_registry \<Rightarrow> ('w, 'c) resource_handler \<Rightarrow> ('w, 'c) resource_registry" where
  "resource_register r h = r\<lparr>handlers := bt_insert (rh_scheme h) h (handlers r)\<rparr>"

definition schemes :: "('w, 'c) resource_registry \<Rightarrow> string list" where
  "schemes r = map fst (handlers r)"

definition resource_capabilities :: "('w, 'c) resource_registry \<Rightarrow> (string \<times> string) list" where
  "resource_capabilities r = map (\<lambda>(scheme, h). (scheme, rh_capability h)) (handlers r)"

text \<open>\<open>url_scheme uri\<close> is the scheme of \<open>Url::parse(uri)\<close>, \<open>None\<close> where parsing fails.\<close>

fun split_once_scheme :: "string \<Rightarrow> (string \<times> string) option" where
  "split_once_scheme [] = None"
| "split_once_scheme (b # bs) =
     (if starts_with (b # bs) ''://'' then Some ([], drop 2 bs)
      else map_option (\<lambda>(l, r). (b # l, r)) (split_once_scheme bs))"

definition parse_scheme :: "(string \<Rightarrow> string option) \<Rightarrow> string \<Rightarrow> string host_result" where
  "parse_scheme url_scheme uri =
     (case url_scheme uri of
        Some s \<Rightarrow> Inr s
      | None \<Rightarrow>
          (case split_once_scheme uri of
             Some (scheme, _) \<Rightarrow> Inr scheme
           | None \<Rightarrow> Inl (InvalidArgs (''missing URI scheme in '' @ uri))))"

definition handler_for ::
    "(string \<Rightarrow> string option) \<Rightarrow> ('w, 'c) resource_registry \<Rightarrow> string \<Rightarrow> 'w invocation_ctx \<Rightarrow>
     ('w, 'c) resource_handler host_result" where
  "handler_for url_scheme r uri ctx =
     (case parse_scheme url_scheme uri of
        Inl e \<Rightarrow> Inl e
      | Inr scheme \<Rightarrow>
          (case map_of (handlers r) scheme of
             None \<Rightarrow> Inl (UnknownScheme scheme (schemes r))
           | Some h \<Rightarrow>
               (if \<not> permits (grants ctx) (rh_capability h)
                then Inl (CapabilityDenied (rh_capability h))
                else Inr h)))"

definition resource_read ::
    "(string \<Rightarrow> string option) \<Rightarrow> ('w, 'c) resource_registry \<Rightarrow> string \<Rightarrow> string option \<Rightarrow>
     'w invocation_ctx \<Rightarrow> 'w \<Rightarrow> 'c host_result \<times> 'w" where
  "resource_read url_scheme r uri selector ctx w =
     (case handler_for url_scheme r uri ctx of
        Inl e \<Rightarrow> (Inl e, w)
      | Inr h \<Rightarrow> rh_read h uri selector ctx w)"

definition resource_preview ::
    "(string \<Rightarrow> string option) \<Rightarrow> ('w, 'c) resource_registry \<Rightarrow> string \<Rightarrow> 'w invocation_ctx \<Rightarrow> 'w \<Rightarrow>
     'c host_result \<times> 'w" where
  "resource_preview url_scheme r uri ctx w =
     (case handler_for url_scheme r uri ctx of
        Inl e \<Rightarrow> (Inl e, w)
      | Inr h \<Rightarrow> rh_preview h uri ctx w)"

definition scheme_entry :: "string \<Rightarrow> resource_entry" where
  "scheme_entry scheme =
     \<lparr>re_uri = scheme @ ''://'', re_name = scheme, re_kind = ''scheme'', re_title = None,
      re_size_bytes = None, re_modified_at = None\<rparr>"

definition resource_list ::
    "(string \<Rightarrow> string option) \<Rightarrow> ('w, 'c) resource_registry \<Rightarrow> string option \<Rightarrow> 'w invocation_ctx \<Rightarrow>
     'w \<Rightarrow> resource_entry list host_result \<times> 'w" where
  "resource_list url_scheme r uri ctx w =
     (case uri of
        None \<Rightarrow> (Inr (map scheme_entry (schemes r)), w)
      | Some u \<Rightarrow>
          (if u = [] then (Inr (map scheme_entry (schemes r)), w)
           else (case handler_for url_scheme r u ctx of
                   Inl e \<Rightarrow> (Inl e, w)
                 | Inr h \<Rightarrow> rh_list h (Some u) ctx w)))"

subsection \<open>Laws of grants\<close>

text \<open>A plain grant covers its own name; a grant \<open>p.*\<close> covers \<open>p\<close> and everything below it.\<close>

lemma grant_covers_wildcard:
  "grant_covers (p @ ''.*'') name \<longleftrightarrow> name = p \<or> (\<exists>rest. name = p @ ''.'' @ rest)"
proof -
  have "strip_suffix (p @ ''.*'') ''.*'' = Some p" by (simp add: strip_suffix_Some)
  then show ?thesis by (simp add: grant_covers_def starts_with_iff)
qed

lemma grant_covers_plain: "\<not> ends_with granted ''.*'' \<Longrightarrow> grant_covers granted name \<longleftrightarrow> granted = name"
  by (simp add: grant_covers_def strip_suffix_def)

lemma grant_covers_self: "grant_covers g g"
proof (cases "ends_with g ''.*''")
  case True
  then obtain p where "g = p @ ''.*''" by (auto simp: ends_with_iff)
  then show ?thesis by (auto simp: grant_covers_wildcard)
next
  case False
  then show ?thesis by (simp add: grant_covers_plain)
qed

lemma allowed_allow_many: "allowed (allow_many g names) = allowed g \<union> set names"
  unfolding allow_many_def by (induction names arbitrary: g) auto

lemma permits_allow_many:
  "permits (allow_many g names) name \<longleftrightarrow> permits g name \<or> (\<exists>n \<in> set names. grant_covers n name)"
  by (auto simp: permits_def allowed_allow_many)

lemma permits_no_grants [simp]: "\<not> permits no_grants name"
  by (simp add: permits_def no_grants_def)

lemma permits_mono: "allowed g \<subseteq> allowed h \<Longrightarrow> permits g name \<Longrightarrow> permits h name"
  by (auto simp: permits_def)

text \<open>Covering is transitive as long as the wider grant has no star besides a final one: this is what
  makes a chain of delegations only shrink.\<close>

definition single_star :: "string \<Rightarrow> bool" where
  "single_star g \<longleftrightarrow> CHR ''*'' \<notin> set (butlast g)"

lemma grant_covers_trans:
  assumes ss: "single_star g" and gh: "grant_covers g h" and hn: "grant_covers h name"
  shows "grant_covers g name"
proof (cases "ends_with h ''.*''")
  case False
  with hn have "h = name" by (simp add: grant_covers_plain)
  with gh show ?thesis by simp
next
  case True
  then obtain q where h: "h = q @ ''.*''" by (auto simp: ends_with_iff)
  show ?thesis
  proof (cases "ends_with g ''.*''")
    case False
    with gh have "g = h" by (simp add: grant_covers_plain)
    with hn show ?thesis by simp
  next
    case True
    then obtain p where g: "g = p @ ''.*''" by (auto simp: ends_with_iff)
    from ss have p: "CHR ''*'' \<notin> set p" by (simp add: g single_star_def butlast_append)
    from gh have "h = p \<or> (\<exists>rest. h = p @ ''.'' @ rest)" by (simp add: g grant_covers_wildcard)
    moreover have "h \<noteq> p" using p by (auto simp: h)
    ultimately obtain rest where "q @ ''.*'' = p @ ''.'' @ rest" by (auto simp: h)
    then have "q = p \<or> (\<exists>r. q = p @ ''.'' @ r)"
    proof -
      assume eq: "q @ ''.*'' = p @ ''.'' @ rest"
      show ?thesis
      proof (cases "length q \<le> length p")
        case True
        then obtain d where d: "p = q @ d" using eq
          by (metis append_eq_append_conv_if append_take_drop_id)
        with eq have "''.*'' = d @ ''.'' @ rest" by simp
        then show ?thesis using p d by (cases d) (auto simp: Cons_eq_append_conv)
      next
        case False
        then obtain d where d: "q = p @ d" "d \<noteq> []" using eq
          by (metis append_eq_append_conv_if append_take_drop_id append_Nil2 le_refl nat_le_linear)
        with eq have "d @ ''.*'' = ''.'' @ rest" by simp
        with d(2) obtain r where "d = CHR ''.'' # r" by (cases d) auto
        with d show ?thesis by auto
      qed
    qed
    with hn show ?thesis by (auto simp: h g grant_covers_wildcard)
  qed
qed

text \<open>What a set of grants permits: a granted name that does not end in \<open>.*\<close> permits exactly that
  name, a granted \<open>p.*\<close> permits \<open>p\<close> itself and the names that continue \<open>p\<close> with a dot, and nothing
  else is permitted.\<close>

lemma permits_iff:
  "permits (allow_many no_grants names) name \<longleftrightarrow>
     (name \<in> set names \<and> \<not> ends_with name ''.*'')
     \<or> (\<exists>p. p @ ''.*'' \<in> set names \<and> (name = p \<or> (\<exists>rest. name = p @ ''.'' @ rest)))"
  (is "?lhs \<longleftrightarrow> ?rhs")
proof
  assume ?lhs
  then obtain n where n: "n \<in> set names" "grant_covers n name" by (auto simp: permits_allow_many)
  show ?rhs
  proof (cases "ends_with n ''.*''")
    case True
    with n show ?thesis by (auto simp: ends_with_iff grant_covers_wildcard)
  next
    case False
    with n show ?thesis by (simp add: grant_covers_plain)
  qed
next
  assume ?rhs
  then show ?lhs
  proof (elim disjE exE conjE)
    fix p assume "p @ ''.*'' \<in> set names" "name = p"
    then show ?lhs using grant_covers_wildcard [of p name] by (auto simp: permits_allow_many)
  next
    fix p rest assume "p @ ''.*'' \<in> set names" "name = p @ ''.'' @ rest"
    then show ?lhs using grant_covers_wildcard [of p name] by (auto simp: permits_allow_many)
  qed (auto simp: permits_allow_many intro: grant_covers_self)
qed

subsection \<open>Every call is mediated\<close>

lemma bt_wf_Nil [simp]: "bt_wf []"
  by (simp add: bt_wf_def)

lemma host_functions_fold_register:
  "host_functions (fold (\<lambda>f r. host_register r f) fs r) =
     fold (\<lambda>(k, v). bt_insert k v) (map (\<lambda>f. (fn_name f, f)) fs) (host_functions r)"
  by (induction fs arbitrary: r) (simp_all add: host_register_def)

lemma handlers_fold_register:
  "handlers (fold (\<lambda>h r. resource_register r h) hs r) =
     fold (\<lambda>(k, v). bt_insert k v) (map (\<lambda>h. (rh_scheme h, h)) hs) (handlers r)"
  by (induction hs arbitrary: r) (simp_all add: resource_register_def)

lemma map_of_rev_find:
  "map_of (rev (map (\<lambda>x. (key x, x)) xs)) k = find (\<lambda>x. key x = k) (rev xs)"
proof -
  have "map_of (map (\<lambda>x. (key x, x)) ys) k = find (\<lambda>x. key x = k) ys" for ys
    by (induction ys) auto
  then show ?thesis by (simp add: rev_map)
qed

lemma lookup_registered:
  "map_of (host_functions (fold (\<lambda>f r. host_register r f) fs host_registry_new)) name =
     find (\<lambda>f. fn_name f = name) (rev fs)"
  by (simp add: host_functions_fold_register host_registry_new_def bt.get_put_all map_of_rev_find)


lemma in_take_map_filterE:
  assumes "t \<in> set (take n (List.map_filter f xs))"
  obtains x where "x \<in> set xs" "f x = Some t"
  using assms by (auto simp: List.map_filter_def dest!: in_set_takeD)

text \<open>A tool search returns at most the limit, and at least allows for one; every result is a
  registered tool of the requested namespace that matches the query, and is marked granted exactly
  when a call of it would pass the grant check.\<close>

lemma host_search_sound:
  fixes r :: "'w host_registry"
  shows "length (host_search lower r query namespace limit ctx) \<le> max limit 1
   \<and> (\<forall>t \<in> set (host_search lower r query namespace limit ctx).
        (\<exists>(k, f) \<in> set (host_functions r).
            ts_name t = fn_name f \<and> ts_namespace t = td_namespace (fn_docs f)
          \<and> (lower query = [] \<or>
             str_contains (lower (td_name (fn_docs f) @ '' '' @ td_namespace (fn_docs f) @ '' ''
               @ td_summary (fn_docs f))) (lower query)))
        \<and> (case namespace of Some ns \<Rightarrow> ts_namespace t = ns | None \<Rightarrow> True)
        \<and> ts_granted t = permits (grants ctx) (ts_name t))"
  unfolding host_search_def Let_def
  by (auto elim!: in_take_map_filterE simp: fn_name_def Bex_def split: if_splits option.splits)
    (force simp: fn_name_def)+

lemma host_search_sound_example:
  "\<exists>f :: unit host_fn. \<exists>t.
     host_search id (host_register host_registry_new f) ''read'' (Some ''fs'') 0
       (ctx_new (allow no_grants ''fs.*'')) = [t] \<and> ts_name t = ''fs.read'' \<and> ts_granted t"
proof -
  define f :: "unit host_fn" where
    "f = \<lparr>fn_docs = \<lparr>td_name = ''fs.read'', td_namespace = ''fs'', td_summary = ''Read'',
         td_description = None, td_signature = [], td_args_schema = JNull, td_result_schema = None,
         td_examples = [], td_errors = [], td_grants = [], td_sensitive = False, td_approval = ''none'',
         td_since = ''1'', td_stability = ''stable''\<rparr>,
       fn_call = (\<lambda>_ _ w. (Inr JNull, w))\<rparr>"
  let ?found = "host_search id (host_register host_registry_new f) ''read'' (Some ''fs'') 0
       (ctx_new (allow no_grants ''fs.*''))"
  have "\<exists>t. ?found = [t] \<and> ts_name t = ''fs.read''"
    by (simp add: host_search_def host_register_def host_registry_new_def f_def fn_name_def
        List.map_filter_def starts_with_def Let_def)
  then obtain t where t: "?found = [t]" "ts_name t = ''fs.read''" by blast
  have "grants (ctx_new (allow no_grants ''fs.*'') :: unit invocation_ctx) = allow no_grants ''fs.*''"
    by (simp add: ctx_new_def ctx_with_approvals_def)
  moreover have "permits (allow no_grants ''fs.*'') ''fs.read''"
    by (simp add: permits_def grant_covers_def strip_suffix_def ends_with_def starts_with_def
        allow_def no_grants_def)
  ultimately have "ts_granted t"
    using host_search_sound [of id "host_register host_registry_new f" "''read''" "Some ''fs''" 0
      "ctx_new (allow no_grants ''fs.*'')"] t by simp
  with t show ?thesis by blast
qed

lemma lookup_handler:
  "map_of (handlers (fold (\<lambda>h r. resource_register r h) hs \<lparr>handlers = []\<rparr>)) scheme =
     find (\<lambda>h. rh_scheme h = scheme) (rev hs)"
  by (simp add: handlers_fold_register bt.get_put_all map_of_rev_find)

lemma schemes_registered:
  "schemes (fold (\<lambda>h r. resource_register r h) hs \<lparr>handlers = []\<rparr>) =
     sorted_list_of_set (rh_scheme ` set hs)"
proof -
  let ?m = "handlers (fold (\<lambda>h r. resource_register r h) hs \<lparr>handlers = []\<rparr>)"
  have "bt_wf ?m" by (simp add: handlers_fold_register bt.wf_put_all)
  moreover have "fst ` set ?m = rh_scheme ` set hs"
    using bt.dom_put_all [of "[]" "map (\<lambda>h. (rh_scheme h, h)) hs"]
    by (simp add: handlers_fold_register dom_map_of_conv_image_fst image_image)
  ultimately show ?thesis
    unfolding schemes_def bt_wf_def
    by (metis finite_set list.set_map sorted_list_of_set.idem_if_sorted_distinct
        strict_sorted_iff)
qed


end
