(* ===== verification/Actor.thy ===== *)
theory Actor
  imports Capability
begin

text \<open>
  The actor data model of \<open>crates/tm-agents/src/actor.rs\<close>, the data types of the supervision policy
  of \<open>supervise.rs\<close> that it mentions, and the bounded execution of \<open>executor.rs\<close>.

  A cancellation token is shared: every clone of it sees a cancellation. It is therefore an address
  into a store of flags, and a clone is the same address.
\<close>

subsection \<open>Identities\<close>

abbreviation (input) MAX_ACTOR_ROLE_BYTES :: nat where "MAX_ACTOR_ROLE_BYTES \<equiv> 128"
abbreviation (input) MAX_ACTOR_TASK_BYTES :: nat where "MAX_ACTOR_TASK_BYTES \<equiv> 8192"
abbreviation (input) MAX_ACTOR_MESSAGE_BYTES :: nat where "MAX_ACTOR_MESSAGE_BYTES \<equiv> 4096"
abbreviation (input) MAX_ACTOR_SUMMARY_BYTES :: nat where "MAX_ACTOR_SUMMARY_BYTES \<equiv> 4096"
abbreviation (input) MAX_ACTOR_TRANSCRIPT_BYTES :: nat where "MAX_ACTOR_TRANSCRIPT_BYTES \<equiv> 65536"

definition ACTOR_TEXT_TRUNCATED_MARKER :: string where
  "ACTOR_TEXT_TRUNCATED_MARKER = CHR 0x0A # ''[actor output truncated]''"

datatype actor_id = ActorId (as_str: string)

instantiation actor_id :: linorder
begin

definition less_eq_actor_id :: "actor_id \<Rightarrow> actor_id \<Rightarrow> bool" where
  "less_eq_actor_id a b \<longleftrightarrow> as_str a \<le> as_str b"

definition less_actor_id :: "actor_id \<Rightarrow> actor_id \<Rightarrow> bool" where
  "less_actor_id a b \<longleftrightarrow> as_str a < as_str b"

instance
  by standard (auto simp: less_eq_actor_id_def less_actor_id_def actor_id.expand)

end

datatype actor_id_error = TooLong nat | InvalidFormat string

definition is_camel_case :: "unicode_tables \<Rightarrow> string \<Rightarrow> bool" where
  "is_camel_case u s =
     (case str_chars s of
        [] \<Rightarrow> False
      | first # _ \<Rightarrow> is_uppercase u first \<and> list_all (is_alphanumeric u) (str_chars s))"

definition actor_id_new :: "unicode_tables \<Rightarrow> string \<Rightarrow> actor_id_error + actor_id" where
  "actor_id_new u s =
     (if 32 < length s then Inl (TooLong (length s))
      else if \<not> is_camel_case u s then Inl (InvalidFormat s)
      else Inr (ActorId s))"

abbreviation root_actor_id :: actor_id where
  "root_actor_id \<equiv> ActorId ''Root''"

subsection \<open>Records\<close>

datatype actor_status = Running | Idle | Parked | Terminated

record actor_budget =
  wall_ms :: u64
  max_depth :: u32

definition default_actor_budget :: actor_budget where
  "default_actor_budget = \<lparr>wall_ms = 120000, max_depth = 4\<rparr>"

datatype restart_strategy = OneForOne | OneForAll | RestForOne

datatype failure_reason =
    Crash string
  | FailTimeout
  | FailApprovalDenied
  | QuotaExhausted
  | Cancelled
  | DepthExceeded

fun is_restartable :: "failure_reason \<Rightarrow> bool" where
  "is_restartable (Crash _) = True"
| "is_restartable FailTimeout = True"
| "is_restartable _ = False"

record supervision_policy =
  strategy :: restart_strategy
  max_restarts :: u32

definition default_supervision_policy :: supervision_policy where
  "default_supervision_policy = \<lparr>strategy = OneForOne, max_restarts = 3\<rparr>"

datatype supervision_action =
    Cancel actor_id
  | Restart actor_id
  | Escalate actor_id failure_reason

record supervision_decision =
  failed_actor_id :: actor_id
  reason :: failure_reason
  decision_strategy :: restart_strategy
  restart_attempt :: "u32 option"
  actions :: "supervision_action list"

type_synonym token = nat

record actor_spec =
  spec_id :: actor_id
  spec_session_id :: string
  spec_project_id :: "string option"
  spec_role :: string
  spec_task :: string
  spec_mode :: "string option"
  spec_grants :: capability_grants
  spec_budget :: actor_budget
  spec_parent :: "actor_id option"
  spec_depth :: u32
  spec_cancellation :: token

record actor_record =
  rec_id :: actor_id
  parent :: "actor_id option"
  status :: actor_status
  mode :: "string option"
  budget :: actor_budget
  spawned_at :: timestamp
  completed_at :: "timestamp option"
  cancelled :: bool
  rec_failure_reason :: "failure_reason option"
  artifact_uri :: "string option"
  history_uri :: "string option"

record actor_digest =
  digest_actor_id :: actor_id
  digest_summary :: string
  digest_artifact_uri :: "string option"
  digest_history_uri :: "string option"
  digest_history_content :: "string option"

datatype actor_lifecycle_event =
    Spawned actor_id "actor_id option" string string u32 actor_budget timestamp
  | StatusChanged actor_id actor_status timestamp
  | MessageSent actor_id actor_id "actor_id option" timestamp
  | Completed actor_id timestamp "string option" "string option" "string option"
  | Failed actor_id timestamp failure_reason
  | Supervision actor_id actor_id supervision_decision timestamp
  | CancelledEvent actor_id timestamp

record actor_output_link =
  link_actor_id :: actor_id
  link_artifact_uri :: "string option"
  link_history_uri :: "string option"

fun event_type :: "actor_lifecycle_event \<Rightarrow> string" where
  "event_type (Spawned _ _ _ _ _ _ _) = ''actor_spawned''"
| "event_type (StatusChanged _ _ _) = ''actor_status''"
| "event_type (MessageSent _ _ _ _) = ''actor_message''"
| "event_type (Completed _ _ _ _ _) = ''actor_completed''"
| "event_type (Failed _ _ _) = ''actor_failed''"
| "event_type (Supervision _ _ _ _) = ''actor_supervision''"
| "event_type (CancelledEvent _ _) = ''actor_cancelled''"

fun output_link :: "actor_lifecycle_event \<Rightarrow> actor_output_link option" where
  "output_link (Completed a _ _ art hist) =
     (if art \<noteq> None \<or> hist \<noteq> None
      then Some \<lparr>link_actor_id = a, link_artifact_uri = art, link_history_uri = hist\<rparr>
      else None)"
| "output_link _ = None"

subsection \<open>Text limits\<close>

definition validate_text_bytes :: "string \<Rightarrow> string \<Rightarrow> nat \<Rightarrow> string + unit" where
  "validate_text_bytes field text max_bytes =
     (if max_bytes < length text
      then Inl (field @ '' must be at most '' @ show_nat max_bytes @ '' UTF-8 bytes, got ''
                @ show_nat (length text))
      else Inr ())"

definition validate_text_limits :: "actor_spec \<Rightarrow> string + unit" where
  "validate_text_limits spec =
     (case validate_text_bytes ''role'' (spec_role spec) MAX_ACTOR_ROLE_BYTES of
        Inl e \<Rightarrow> Inl e
      | Inr _ \<Rightarrow>
     (case validate_text_bytes ''task'' (spec_task spec) MAX_ACTOR_TASK_BYTES of
        Inl e \<Rightarrow> Inl e
      | Inr _ \<Rightarrow>
     (case spec_mode spec of
        None \<Rightarrow> Inr ()
      | Some m \<Rightarrow> validate_text_bytes ''mode'' m MAX_ACTOR_ROLE_BYTES)))"

text \<open>The loop \<open>while !value.is_char_boundary(end) { end = end.saturating_sub(1) }\<close>.\<close>

fun floor_boundary :: "string \<Rightarrow> nat \<Rightarrow> nat" where
  "floor_boundary s 0 = 0"
| "floor_boundary s (Suc n) = (if is_char_boundary s (Suc n) then Suc n else floor_boundary s n)"

definition truncate_utf8_with_marker :: "string \<Rightarrow> nat \<Rightarrow> string" where
  "truncate_utf8_with_marker s max_bytes =
     (if length s \<le> max_bytes then s
      else if max_bytes \<le> length ACTOR_TEXT_TRUNCATED_MARKER
      then take max_bytes ACTOR_TEXT_TRUNCATED_MARKER
      else
        let content_limit = max_bytes - length ACTOR_TEXT_TRUNCATED_MARKER;
            end' = floor_boundary s (min content_limit (length s))
        in take end' s @ ACTOR_TEXT_TRUNCATED_MARKER)"

definition enforce_text_limits :: "actor_digest \<Rightarrow> actor_digest" where
  "enforce_text_limits d =
     d\<lparr>digest_summary := truncate_utf8_with_marker (digest_summary d) MAX_ACTOR_SUMMARY_BYTES,
       digest_history_content :=
         map_option (\<lambda>c. truncate_utf8_with_marker c MAX_ACTOR_TRANSCRIPT_BYTES)
           (digest_history_content d)\<rparr>"

subsection \<open>Execution errors\<close>

datatype actor_error =
    Execution string
  | InvalidSpec string
  | ErrDepthExceeded u32
  | ErrTimeout
  | ErrCancelled

fun failure_reason_for_error :: "actor_error \<Rightarrow> failure_reason" where
  "failure_reason_for_error (Execution msg) = Crash msg"
| "failure_reason_for_error (InvalidSpec msg) = Crash msg"
| "failure_reason_for_error (ErrDepthExceeded _) = DepthExceeded"
| "failure_reason_for_error ErrTimeout = FailTimeout"
| "failure_reason_for_error ErrCancelled = Cancelled"

text \<open>
  The executor is a trait object and the timer is the runtime's: \<open>timeout_at\<close> drives the executor up
  to the deadline and answers \<open>None\<close> when the deadline elapsed first, \<open>instant_now\<close> reads the clock,
  in milliseconds, and \<open>cancel_token\<close> is \<open>ActorCancelToken::cancel\<close> in the world \<open>'w\<close>.
\<close>

record 'w actor_runtime =
  instant_now :: "'w \<Rightarrow> nat"
  timeout_at :: "nat \<Rightarrow> actor_spec \<Rightarrow> 'w \<Rightarrow> (actor_error + actor_digest) option \<times> 'w"
  cancel_token :: "token \<Rightarrow> 'w \<Rightarrow> 'w"

definition run_to_digest_with_budget ::
    "'w actor_runtime \<Rightarrow> actor_spec \<Rightarrow> 'w \<Rightarrow> (actor_error + actor_digest) \<times> 'w" where
  "run_to_digest_with_budget rt spec w =
     (case validate_text_limits spec of
        Inl e \<Rightarrow> (Inl (InvalidSpec e), w)
      | Inr _ \<Rightarrow>
          let deadline = instant_now rt w + unat (wall_ms (spec_budget spec))
          in (case timeout_at rt deadline spec w of
               (Some (Inr digest), w') \<Rightarrow>
                 if deadline \<le> instant_now rt w'
                 then (Inl ErrTimeout, cancel_token rt (spec_cancellation spec) w')
                 else (Inr (enforce_text_limits digest), w')
             | (Some (Inl error), w') \<Rightarrow> (Inl error, w')
             | (None, w') \<Rightarrow> (Inl ErrTimeout, cancel_token rt (spec_cancellation spec) w')))"

subsection \<open>Truncation keeps text well-formed and bounded\<close>

lemma floor_boundary_le: "floor_boundary s n \<le> n"
  by (induction n) (simp_all add: le_SucI)

lemma floor_boundary_boundary: "is_char_boundary s (floor_boundary s n)"
  by (induction n) (simp_all add: is_char_boundary_def)

lemma floor_boundary_greatest:
  "is_char_boundary s k \<Longrightarrow> k \<le> n \<Longrightarrow> k \<le> floor_boundary s n"
  by (induction n) (auto simp: le_Suc_eq)

lemma marker_ascii: "list_all (\<lambda>b. byte b < 128) ACTOR_TEXT_TRUNCATED_MARKER"
  by (simp add: ACTOR_TEXT_TRUNCATED_MARKER_def)

lemma length_marker [simp]: "length ACTOR_TEXT_TRUNCATED_MARKER = 25"
  by (simp add: ACTOR_TEXT_TRUNCATED_MARKER_def)

lemma list_all_take: "list_all P xs \<Longrightarrow> list_all P (take n xs)"
  by (auto simp: list_all_iff dest: in_set_takeD)

lemma truncate_length: "length (truncate_utf8_with_marker s n) \<le> n"
  using floor_boundary_le [of s "n - 25"]
  by (auto simp: truncate_utf8_with_marker_def Let_def min_def)

lemma truncate_valid: "valid_utf8 s \<Longrightarrow> valid_utf8 (truncate_utf8_with_marker s n)"
  using marker_ascii
  by (auto simp: truncate_utf8_with_marker_def Let_def intro: valid_utf8_ascii list_all_take
      intro: valid_utf8_append valid_utf8_take floor_boundary_boundary)

text \<open>C25. Truncating a UTF-8 string to a byte budget gives a UTF-8 string within the budget. A string
  that fits is unchanged. A longer one, when the budget has room for the marker, becomes its longest
  prefix that ends at a character boundary and leaves room for the marker, followed by the marker.\<close>

theorem truncate_utf8_with_marker_correct:
  assumes "valid_utf8 s"
  shows "length (truncate_utf8_with_marker s n) \<le> n
    \<and> valid_utf8 (truncate_utf8_with_marker s n)
    \<and> (length s \<le> n \<longrightarrow> truncate_utf8_with_marker s n = s)
    \<and> (n < length s \<and> 25 < n \<longrightarrow>
        (\<exists>k. truncate_utf8_with_marker s n = take k s @ ACTOR_TEXT_TRUNCATED_MARKER
           \<and> is_char_boundary s k \<and> k + 25 \<le> n
           \<and> (\<forall>j. is_char_boundary s j \<and> j + 25 \<le> n \<longrightarrow> j \<le> k)))"
proof (intro conjI impI)
  assume n: "n < length s \<and> 25 < n"
  let ?k = "floor_boundary s (n - 25)"
  have "truncate_utf8_with_marker s n = take ?k s @ ACTOR_TEXT_TRUNCATED_MARKER"
    using n by (auto simp: truncate_utf8_with_marker_def Let_def min_def)
  moreover have "?k + 25 \<le> n" using floor_boundary_le [of s "n - 25"] n by linarith
  moreover have "j \<le> ?k" if "is_char_boundary s j" "j + 25 \<le> n" for j
    using floor_boundary_greatest that by force
  ultimately show "\<exists>k. truncate_utf8_with_marker s n = take k s @ ACTOR_TEXT_TRUNCATED_MARKER
           \<and> is_char_boundary s k \<and> k + 25 \<le> n
           \<and> (\<forall>j. is_char_boundary s j \<and> j + 25 \<le> n \<longrightarrow> j \<le> k)"
    using floor_boundary_boundary by blast
qed (use assms in \<open>simp_all add: truncate_length truncate_valid\<close>,
    simp add: truncate_utf8_with_marker_def)

theorem truncate_utf8_with_marker_correct_witness:
  "valid_utf8 (truncate_utf8_with_marker (replicate 40 CHR ''x'') 30)
   \<and> truncate_utf8_with_marker (replicate 40 CHR ''x'') 30 = ''xxxxx'' @ ACTOR_TEXT_TRUNCATED_MARKER"
proof
  have "valid_utf8 (replicate 40 CHR ''x'')" by (rule valid_utf8_ascii) (simp add: list_all_iff)
  from truncate_utf8_with_marker_correct [OF this, of 30]
  show "valid_utf8 (truncate_utf8_with_marker (replicate 40 CHR ''x'') 30)" by blast
qed code_simp



end
