(* ===== verification/Supervise.thy ===== *)
theory Supervise
  imports Actor
begin

text \<open>
  The supervisor of \<open>crates/tm-agents/src/supervise.rs\<close>: the children of one supervisor in spawn order,
  the restart attempts counted for each of them, and the decision taken when one fails.
\<close>

subsection \<open>Supervisors\<close>

record supervisor =
  policy :: supervision_policy
  children :: "actor_id list"
  attempts :: "actor_id \<rightharpoonup> u32"

definition supervisor_new :: "supervision_policy \<Rightarrow> supervisor" where
  "supervisor_new p = \<lparr>policy = p, children = [], attempts = Map.empty\<rparr>"

definition default_supervisor :: supervisor where
  "default_supervisor = supervisor_new default_supervision_policy"

definition track :: "supervisor \<Rightarrow> actor_id \<Rightarrow> supervisor" where
  "track s i = (if i \<in> set (children s) then s else s\<lparr>children := children s @ [i]\<rparr>)"

definition restart_attempts :: "supervisor \<Rightarrow> actor_id \<Rightarrow> u32" where
  "restart_attempts s i = (case attempts s i of Some n \<Rightarrow> n | None \<Rightarrow> 0)"

definition record_success :: "supervisor \<Rightarrow> actor_id \<Rightarrow> supervisor" where
  "record_success s i = s\<lparr>attempts := (attempts s)(i := None)\<rparr>"

fun position :: "'a \<Rightarrow> 'a list \<Rightarrow> nat option" where
  "position x [] = None"
| "position x (y # ys) = (if y = x then Some 0 else map_option Suc (position x ys))"

definition cancel_targets :: "supervisor \<Rightarrow> nat \<Rightarrow> actor_id list" where
  "cancel_targets s i =
     (case strategy (policy s) of
        OneForOne \<Rightarrow> []
      | OneForAll \<Rightarrow> map snd (filter (\<lambda>(j, _). j \<noteq> i) (enumerate 0 (children s)))
      | RestForOne \<Rightarrow> drop (i + 1) (children s))"

definition restart_targets :: "supervisor \<Rightarrow> nat \<Rightarrow> actor_id list" where
  "restart_targets s i =
     (case strategy (policy s) of
        OneForOne \<Rightarrow> [children s ! i]
      | OneForAll \<Rightarrow> children s
      | RestForOne \<Rightarrow> drop i (children s))"

definition record_failure ::
    "supervisor \<Rightarrow> actor_id \<Rightarrow> failure_reason \<Rightarrow> supervision_decision \<times> supervisor" where
  "record_failure s i why =
     (let d = \<lparr>failed_actor_id = i, reason = why, decision_strategy = strategy (policy s),
               restart_attempt = None, actions = []\<rparr>
      in (case position i (children s) of
           None \<Rightarrow> (d\<lparr>actions := [Escalate i why]\<rparr>, s)
         | Some k \<Rightarrow>
             if why = Cancelled then (d, s)
             else if \<not> is_restartable why then (d\<lparr>actions := [Escalate i why]\<rparr>, s)
             else if max_restarts (policy s) \<le> restart_attempts s i
             then (d\<lparr>actions := map Cancel (cancel_targets s k) @ [Escalate i why]\<rparr>, s)
             else
               let n = restart_attempts s i + 1; s' = s\<lparr>attempts := (attempts s)(i \<mapsto> n)\<rparr>
               in (d\<lparr>restart_attempt := Some n,
                     actions := map Cancel (cancel_targets s k) @ map Restart (restart_targets s' k)\<rparr>,
                   s')))"

subsection \<open>Which siblings a decision touches\<close>

lemma position_None [simp]: "position x xs = None \<longleftrightarrow> x \<notin> set xs"
  by (induction xs) auto

lemma position_append [simp]: "x \<notin> set xs \<Longrightarrow> position x (xs @ x # ys) = Some (length xs)"
  by (induction xs) auto

lemma position_Some_nth: "position x xs = Some k \<Longrightarrow> k < length xs \<and> xs ! k = x"
  by (induction xs arbitrary: k) (auto split: if_splits)

lemma filter_enumerate_True:
  "(\<forall>j. n \<le> j \<and> j < n + length xs \<longrightarrow> P j) \<Longrightarrow> map snd (filter (\<lambda>(j, _). P j) (enumerate n xs)) = xs"
  by (induction xs arbitrary: n) simp_all

lemma filter_enumerate_skip:
  "map snd (filter (\<lambda>(j, _). j \<noteq> length pre) (enumerate 0 (pre @ x # post))) = pre @ post"
  by (simp add: enumerate_append_eq filter_enumerate_True)

lemma one_le_of_less: "(a :: 'a::len word) < b \<Longrightarrow> unat (a + 1) = unat a + 1"
proof -
  assume "a < b"
  then have "unat a < unat b" by (simp add: word_less_nat_alt)
  with unat_bound [of b] have "unat a + 1 < 2 ^ LENGTH('a)" by linarith
  then show ?thesis by (simp add: unat_plus_if')
qed

lemma track_distinct [inv_intros]: "distinct (children s) \<Longrightarrow> distinct (children (track s i))"
  by (simp add: track_def)

lemma policy_frame [frame_simps]:
  "policy (supervisor_new p) = p" "policy (track s i) = policy s"
  "policy (record_success s i) = policy s"
  by (simp_all add: supervisor_new_def track_def record_success_def)

lemma record_failure_frame [frame_simps]:
  "children (snd (record_failure s i why)) = children s"
  "policy (snd (record_failure s i why)) = policy s"
  "j \<noteq> i \<Longrightarrow> attempts (snd (record_failure s i why)) j = attempts s j"
  by (simp_all add: record_failure_def Let_def split: option.splits)

text \<open>The Erlang strategies: for a restartable failure of a child that has restarts left, the
  attempt counter of that child alone grows by one, without wrapping, and the actions are: restart the
  child (one for one); cancel every sibling, then restart all children in spawn order (one for all);
  cancel the children spawned after it, then restart it and them in spawn order (rest for one).\<close>

lemma record_failure_restarts:
  assumes "children s = pre @ i # post" "i \<notin> set pre"
    and "is_restartable why" "restart_attempts s i < max_restarts (policy s)"
  shows "record_failure s i why =
    (\<lparr>failed_actor_id = i, reason = why, decision_strategy = strategy (policy s),
      restart_attempt = Some (restart_attempts s i + 1),
      actions = (case strategy (policy s) of
          OneForOne \<Rightarrow> [Restart i]
        | OneForAll \<Rightarrow> map Cancel (pre @ post) @ map Restart (pre @ i # post)
        | RestForOne \<Rightarrow> map Cancel post @ map Restart (i # post))\<rparr>,
     s\<lparr>attempts := (attempts s)(i \<mapsto> restart_attempts s i + 1)\<rparr>)
   \<and> unat (restart_attempts s i + 1) = unat (restart_attempts s i) + 1"
proof -
  have "why \<noteq> Cancelled" using assms(3) by auto
  moreover have "cancel_targets s (length pre) = (case strategy (policy s) of
      OneForOne \<Rightarrow> [] | OneForAll \<Rightarrow> pre @ post | RestForOne \<Rightarrow> post)"
    using assms(1) by (simp add: cancel_targets_def filter_enumerate_skip split: restart_strategy.split)
  moreover have "restart_targets (s\<lparr>attempts := m\<rparr>) (length pre) = (case strategy (policy s) of
      OneForOne \<Rightarrow> [i] | OneForAll \<Rightarrow> pre @ i # post | RestForOne \<Rightarrow> i # post)" for m
    using assms(1) by (simp add: restart_targets_def split: restart_strategy.split)
  ultimately show ?thesis
    using assms by (auto simp: record_failure_def Let_def one_le_of_less split: restart_strategy.split)
qed

lemma record_failure_restarts_example:
  "let s = fold (\<lambda>i s. track s i) [ActorId ''A'', ActorId ''B'', ActorId ''C'']
             (supervisor_new \<lparr>strategy = RestForOne, max_restarts = 1\<rparr>)
   in actions (fst (record_failure s (ActorId ''B'') FailTimeout)) =
        [Cancel (ActorId ''C''), Restart (ActorId ''B''), Restart (ActorId ''C'')]"
proof -
  define s where "s = fold (\<lambda>i s. track s i) [ActorId ''A'', ActorId ''B'', ActorId ''C'']
    (supervisor_new \<lparr>strategy = RestForOne, max_restarts = 1\<rparr>)"
  have "children s = [ActorId ''A''] @ ActorId ''B'' # [ActorId ''C'']"
    and "ActorId ''B'' \<notin> set [ActorId ''A'']" "is_restartable FailTimeout"
    and "restart_attempts s (ActorId ''B'') < max_restarts (policy s)" "strategy (policy s) = RestForOne"
    by (simp_all add: s_def track_def supervisor_new_def restart_attempts_def)
  from record_failure_restarts [OF this(1-4)] this(5) show ?thesis
    unfolding Let_def s_def [symmetric] by simp
qed

subsection \<open>Restarts are bounded\<close>

text \<open>The decisions taken for a sequence of failures of one child.\<close>

fun failures :: "supervisor \<Rightarrow> actor_id \<Rightarrow> failure_reason list \<Rightarrow> supervision_decision list" where
  "failures s i [] = []"
| "failures s i (why # whys) =
     (case record_failure s i why of (d, s') \<Rightarrow> d # failures s' i whys)"

fun is_escalate :: "supervision_action \<Rightarrow> bool" where
  "is_escalate (Escalate _ _) = True"
| "is_escalate _ = False"

definition escalates :: "supervision_decision \<Rightarrow> bool" where
  "escalates d = list_ex is_escalate (actions d)"

lemma no_escalate_map [simp]:
  "list_ex is_escalate (map Cancel xs) = False" "list_ex is_escalate (map Restart xs) = False"
  by (simp_all add: list_ex_iff)

definition outcome :: "supervision_decision \<Rightarrow> nat option \<times> bool" where
  "outcome d = (map_option unat (restart_attempt d), escalates d)"

lemma record_failure_outcome:
  assumes "i \<in> set (children s)" "is_restartable why"
  shows "outcome (fst (record_failure s i why)) =
      (if restart_attempts s i < max_restarts (policy s)
       then (Some (unat (restart_attempts s i) + 1), False) else (None, True))
    \<and> unat (restart_attempts (snd (record_failure s i why)) i) =
      (if restart_attempts s i < max_restarts (policy s)
       then unat (restart_attempts s i) + 1 else unat (restart_attempts s i))"
proof -
  obtain k where k: "position i (children s) = Some k"
    using assms(1) by (cases "position i (children s)") auto
  have *: "why \<noteq> Cancelled" using assms(2) by auto
  show ?thesis
  proof (cases "restart_attempts s i < max_restarts (policy s)")
    case True
    then have le: "\<not> max_restarts (policy s) \<le> restart_attempts s i" by simp
    define n where "n = restart_attempts s i + 1"
    have "restart_attempt (fst (record_failure s i why)) = Some n"
      and "attempts (snd (record_failure s i why)) i = Some n"
      and "\<not> escalates (fst (record_failure s i why))"
      using k * le assms(2) by (simp_all add: record_failure_def Let_def escalates_def n_def)
    moreover have "unat n = unat (restart_attempts s i) + 1"
      unfolding n_def by (rule one_le_of_less [OF True])
    ultimately show ?thesis using True by (simp add: outcome_def restart_attempts_def [of "snd _"])
  next
    case False
    with k * assms(2) show ?thesis
      by (simp add: record_failure_def Let_def outcome_def escalates_def not_less)
  qed
qed

lemma failures_from:
  assumes "i \<in> set (children s)" "list_all is_restartable whys"
  shows "map outcome (failures s i whys) =
    map (\<lambda>k. if unat (restart_attempts s i) + k < unat (max_restarts (policy s))
             then (Some (unat (restart_attempts s i) + k + 1), False) else (None, True))
      [0..<length whys]"
  using assms
proof (induction whys arbitrary: s)
  case (Cons why whys)
  let ?s' = "snd (record_failure s i why)"
  have "map outcome (failures ?s' i whys) =
    map (\<lambda>k. if unat (restart_attempts ?s' i) + k < unat (max_restarts (policy s))
             then (Some (unat (restart_attempts ?s' i) + k + 1), False) else (None, True))
      [0..<length whys]"
    using Cons.IH [of ?s'] Cons.prems by (simp add: frame_simps)
  then show ?case
    using record_failure_outcome [of i s why] Cons.prems
    by (auto simp: split_beta word_less_nat_alt upt_conv_Cons map_Suc_upt [symmetric]
        simp del: upt_Suc)
qed simp



subsection \<open>Reachable supervisors\<close>

inductive supervisor_step :: "supervisor \<Rightarrow> supervisor \<Rightarrow> bool" where
  step_track: "supervisor_step s (track s i)"
| step_success: "supervisor_step s (record_success s i)"
| step_failure: "supervisor_step s (snd (record_failure s i why))"

inductive_cases supervisor_stepE: "supervisor_step s t"

abbreviation supervisor_reachable :: "supervision_policy \<Rightarrow> supervisor \<Rightarrow> bool" where
  "supervisor_reachable p \<equiv> reachable (\<lambda>s. s = supervisor_new p) supervisor_step"

definition supervisor_inv :: "supervisor \<Rightarrow> bool" where
  "supervisor_inv s \<longleftrightarrow> distinct (children s)
     \<and> (\<forall>i n. attempts s i = Some n \<longrightarrow> i \<in> set (children s) \<and> 0 < n \<and> n \<le> max_restarts (policy s))"

lemma supervisor_inv_new [inv_intros]: "supervisor_inv (supervisor_new p)"
  by (simp add: supervisor_inv_def supervisor_new_def)

lemma supervisor_inv_track [inv_intros]: "supervisor_inv s \<Longrightarrow> supervisor_inv (track s i)"
  by (auto simp: supervisor_inv_def track_def)

lemma supervisor_inv_success [inv_intros]: "supervisor_inv s \<Longrightarrow> supervisor_inv (record_success s i)"
  by (auto simp: supervisor_inv_def record_success_def)

lemma supervisor_inv_failure [inv_intros]:
  assumes "supervisor_inv s"
  shows "supervisor_inv (snd (record_failure s i why))"
proof -
  have "0 < a + 1 \<and> a + 1 \<le> m" if "a < m" for a m :: u32
    using one_le_of_less [OF that] that unat_gt_0 [of "a + 1"]
    by (simp add: word_less_nat_alt word_le_nat_alt)
  then show ?thesis
    using assms position_Some_nth
    by (fastforce simp: supervisor_inv_def record_failure_def Let_def not_le split: option.splits)
qed

interpretation sup: invariant_system "\<lambda>s. s = supervisor_new p" supervisor_step
    "\<lambda>s. supervisor_inv s \<and> policy s = p" for p
  by unfold_locales (auto elim!: supervisor_stepE intro: inv_intros simp: frame_simps)

text \<open>Every supervisor that its operations can reach keeps each child once, in spawn order, and
  counts restarts for its own children only, between one and the policy's maximum.\<close>

lemma supervisor_reachable_wf:
  assumes "supervisor_reachable p s"
  shows "policy s = p \<and> distinct (children s)
    \<and> (\<forall>i n. attempts s i = Some n \<longrightarrow>
         i \<in> set (children s) \<and> 1 \<le> unat n \<and> unat n \<le> unat (max_restarts p))"
  using sup.reachable_inv [OF assms]
  by (auto simp: supervisor_inv_def word_less_nat_alt word_le_nat_alt Suc_le_eq)

lemma supervisor_reachable_wf_example:
  "let s = snd (record_failure (track (supervisor_new default_supervision_policy) (ActorId ''A''))
             (ActorId ''A'') FailTimeout)
   in supervisor_reachable default_supervision_policy s \<and> attempts s (ActorId ''A'') = Some 1
      \<and> distinct (children s)"
proof -
  define s where "s = snd (record_failure (track (supervisor_new default_supervision_policy)
    (ActorId ''A'')) (ActorId ''A'') FailTimeout)"
  have reach: "supervisor_reachable default_supervision_policy s"
    unfolding s_def by (blast intro: reachable.intros supervisor_step.intros)
  moreover have "attempts s (ActorId ''A'') = Some 1"
    by (simp add: s_def record_failure_def track_def supervisor_new_def default_supervision_policy_def
        restart_attempts_def Let_def)
  ultimately show ?thesis
    using supervisor_reachable_wf [OF reach] unfolding Let_def s_def [symmetric] by blast
qed

end
