(* ===== verification/Mailbox.thy ===== *)
theory Mailbox
  imports Actor
begin

text \<open>
  The message types, the per-actor inbox and the bounded message log of the mailbox:
  \<open>crates/tm-agents/src/mailbox/types.rs\<close>, \<open>mailbox/inbox.rs\<close> and the log part of
  \<open>mailbox/messages.rs\<close>.

  The channel of an inbox is the runtime's bounded channel. Its operations are the parameter
  \<open>channel_ops\<close>, and \<open>fifo_channel\<close> names what its documentation promises of them: messages come
  out in the order they went in, a send is refused when the channel holds its capacity.
\<close>

subsection \<open>Messages\<close>

record actor_message =
  msg_from :: actor_id
  msg_to :: actor_id
  msg_text :: string
  msg_reply_to :: "actor_id option"
  msg_sent_at :: timestamp

definition validate_message :: "actor_message \<Rightarrow> string + unit" where
  "validate_message m = validate_text_bytes ''message text'' (msg_text m) MAX_ACTOR_MESSAGE_BYTES"

definition message_bytes :: "actor_message \<Rightarrow> nat" where
  "message_bytes m =
     usize_sat_add
       (usize_sat_add (usize_sat_add (length (msg_text m)) (length (as_str (msg_from m))))
         (length (as_str (msg_to m))))
       (case msg_reply_to m of None \<Rightarrow> 0 | Some a \<Rightarrow> length (as_str a))"

datatype receipt = Delivered | Unreachable | Backpressured

definition is_delivered :: "receipt \<Rightarrow> bool" where
  "is_delivered r \<longleftrightarrow> r = Delivered"

definition is_failed :: "receipt \<Rightarrow> bool" where
  "is_failed r \<longleftrightarrow> \<not> is_delivered r"

fun receipt_failure_reason :: "receipt \<Rightarrow> string option" where
  "receipt_failure_reason Delivered = None"
| "receipt_failure_reason Unreachable = Some ''unreachable''"
| "receipt_failure_reason Backpressured = Some ''backpressured''"

subsection \<open>Channels\<close>

datatype send_outcome = Sent | ChannelFull | ChannelClosed

text \<open>\<open>chan_try_recv\<close> answers \<open>None\<close> for an empty and for a disconnected channel;
  \<open>chan_recv_timeout\<close> is \<open>timeout(remaining, receiver.recv())\<close> started at a time, with the time at
  which it returned, and answers \<open>None\<close> for an elapsed timer and for a closed channel.\<close>

record 'ch channel_ops =
  chan_new :: "nat \<Rightarrow> 'ch"
  chan_try_send :: "'ch \<Rightarrow> actor_message \<Rightarrow> send_outcome \<times> 'ch"
  chan_try_recv :: "'ch \<Rightarrow> actor_message option \<times> 'ch"
  chan_recv_timeout :: "nat \<Rightarrow> nat \<Rightarrow> 'ch \<Rightarrow> actor_message option \<times> nat \<times> 'ch"

definition fifo_channel ::
    "'ch channel_ops \<Rightarrow> ('ch \<Rightarrow> actor_message list) \<Rightarrow> ('ch \<Rightarrow> nat) \<Rightarrow> bool" where
  "fifo_channel ops queue cap \<longleftrightarrow>
     (\<forall>n. queue (chan_new ops n) = [] \<and> cap (chan_new ops n) = n)
   \<and> (\<forall>c m. if length (queue c) < cap c
            then \<exists>c'. chan_try_send ops c m = (Sent, c') \<and> queue c' = queue c @ [m] \<and> cap c' = cap c
            else chan_try_send ops c m = (ChannelFull, c))
   \<and> (\<forall>c. case queue c of
            [] \<Rightarrow> chan_try_recv ops c = (None, c)
          | m # ms \<Rightarrow> \<exists>c'. chan_try_recv ops c = (Some m, c') \<and> queue c' = ms \<and> cap c' = cap c)
   \<and> (\<forall>remaining now c. case queue c of
            [] \<Rightarrow> chan_recv_timeout ops remaining now c = (None, now + remaining, c)
          | m # ms \<Rightarrow> \<exists>c'. chan_recv_timeout ops remaining now c = (Some m, now, c')
                          \<and> queue c' = ms \<and> cap c' = cap c)"

subsection \<open>Inboxes\<close>

abbreviation (input) MAX_INBOX_MESSAGES :: nat where "MAX_INBOX_MESSAGES \<equiv> 64"
abbreviation (input) MAX_INBOX_BYTES :: nat where "MAX_INBOX_BYTES \<equiv> 65536"

record 'ch actor_inbox =
  channel :: 'ch
  backlog :: "actor_message list"
  unread :: u64
  retained_bytes :: u64
  last_activity :: "timestamp option"

definition inbox_new :: "'ch channel_ops \<Rightarrow> 'ch actor_inbox" where
  "inbox_new ops =
     \<lparr>channel = chan_new ops MAX_INBOX_MESSAGES, backlog = [], unread = 0, retained_bytes = 0,
      last_activity = None\<rparr>"

definition touch :: "timestamp \<Rightarrow> 'ch actor_inbox \<Rightarrow> 'ch actor_inbox" where
  "touch at i = i\<lparr>last_activity := Some at\<rparr>"

definition mark_delivered_to_inbox :: "'ch actor_inbox \<Rightarrow> 'ch actor_inbox" where
  "mark_delivered_to_inbox i = i\<lparr>unread := unread i + 1\<rparr>"

text \<open>\<open>None\<close> is the answer \<open>false\<close>, which leaves the inbox as it is.\<close>

definition try_reserve :: "nat \<Rightarrow> 'ch actor_inbox \<Rightarrow> 'ch actor_inbox option" where
  "try_reserve bytes i =
     (if 2 ^ 64 \<le> bytes then None
      else (case checked_add (retained_bytes i) (word_of_nat bytes) of
              None \<Rightarrow> None
            | Some next \<Rightarrow>
                if next \<le> word_of_nat MAX_INBOX_BYTES then Some (i\<lparr>retained_bytes := next\<rparr>) else None))"

definition release :: "nat \<Rightarrow> 'ch actor_inbox \<Rightarrow> 'ch actor_inbox" where
  "release bytes i =
     i\<lparr>retained_bytes :=
         sat_sub (retained_bytes i) (if bytes < 2 ^ 64 then word_of_nat bytes else - 1)\<rparr>"

definition mark_taken_by_actor :: "'ch actor_inbox \<Rightarrow> 'ch actor_inbox" where
  "mark_taken_by_actor i = i\<lparr>unread := sat_sub (unread i) 1\<rparr>"

definition mark_message_taken :: "actor_message \<Rightarrow> 'ch actor_inbox \<Rightarrow> 'ch actor_inbox" where
  "mark_message_taken m i = release (message_bytes m) (mark_taken_by_actor i)"

definition message_matches_from :: "actor_id option \<Rightarrow> actor_message \<Rightarrow> bool" where
  "message_matches_from from m = (case from of Some a \<Rightarrow> msg_from m = a | None \<Rightarrow> True)"

text \<open>The first loop of \<open>drain\<close>, over the messages popped off the backlog.\<close>

fun drain_backlog ::
    "actor_id option \<Rightarrow> actor_message list \<Rightarrow> 'ch actor_inbox \<Rightarrow>
     actor_message list \<times> actor_message list \<times> 'ch actor_inbox" where
  "drain_backlog from [] i = ([], [], i)"
| "drain_backlog from (m # ms) i =
     (if message_matches_from from m
      then let (drained, retained, i') = drain_backlog from ms (mark_message_taken m i)
           in (m # drained, retained, i')
      else let (drained, retained, i') = drain_backlog from ms i
           in (drained, m # retained, i'))"

text \<open>The second loop, which receives until the channel is empty. It ends only because the channel
  shrinks, so a loop that never ends is the value \<open>None\<close>.\<close>

partial_function (option) drain_channel ::
    "'ch channel_ops \<Rightarrow> actor_id option \<Rightarrow> actor_message list \<Rightarrow> 'ch actor_inbox \<Rightarrow>
     (actor_message list \<times> 'ch actor_inbox) option" where
  "drain_channel ops from drained i =
     (case chan_try_recv ops (channel i) of
        (None, c) \<Rightarrow> Some (drained, i\<lparr>channel := c\<rparr>)
      | (Some m, c) \<Rightarrow>
          if message_matches_from from m
          then drain_channel ops from (drained @ [m]) (mark_message_taken m (i\<lparr>channel := c\<rparr>))
          else drain_channel ops from drained (i\<lparr>channel := c, backlog := backlog i @ [m]\<rparr>))"

definition drain ::
    "'ch channel_ops \<Rightarrow> actor_id option \<Rightarrow> 'ch actor_inbox \<Rightarrow>
     (actor_message list \<times> 'ch actor_inbox) option" where
  "drain ops from i =
     (let (drained, retained, i1) = drain_backlog from (backlog i) i
      in drain_channel ops from drained (i1\<lparr>backlog := retained\<rparr>))"

fun position_of :: "('a \<Rightarrow> bool) \<Rightarrow> 'a list \<Rightarrow> nat option" where
  "position_of P [] = None"
| "position_of P (x # xs) = (if P x then Some 0 else map_option Suc (position_of P xs))"

definition take_matching_backlog ::
    "actor_id option \<Rightarrow> 'ch actor_inbox \<Rightarrow> (actor_message \<times> 'ch actor_inbox) option" where
  "take_matching_backlog from i =
     (case position_of (message_matches_from from) (backlog i) of
        None \<Rightarrow> None
      | Some k \<Rightarrow>
          let m = backlog i ! k; rest = take k (backlog i) @ drop (k + 1) (backlog i)
          in Some (m, mark_message_taken m (i\<lparr>backlog := rest\<rparr>)))"

text \<open>\<open>now\<close> is the clock at the head of the loop of \<open>wait\<close>.\<close>

partial_function (option) wait_channel ::
    "'ch channel_ops \<Rightarrow> actor_id option \<Rightarrow> nat \<Rightarrow> nat \<Rightarrow> 'ch actor_inbox \<Rightarrow>
     (actor_message option \<times> 'ch actor_inbox) option" where
  "wait_channel ops from deadline now i =
     (if deadline \<le> now then Some (None, i)
      else (case chan_recv_timeout ops (deadline - now) now (channel i) of
              (None, now', c) \<Rightarrow> Some (None, i\<lparr>channel := c\<rparr>)
            | (Some m, now', c) \<Rightarrow>
                if message_matches_from from m
                then Some (Some m, mark_message_taken m (i\<lparr>channel := c\<rparr>))
                else wait_channel ops from deadline now'
                       (i\<lparr>channel := c, backlog := backlog i @ [m]\<rparr>)))"

definition wait ::
    "'ch channel_ops \<Rightarrow> actor_id option \<Rightarrow> nat \<Rightarrow> nat \<Rightarrow> 'ch actor_inbox \<Rightarrow>
     (actor_message option \<times> 'ch actor_inbox) option" where
  "wait ops from timeout now i =
     (case take_matching_backlog from i of
        Some (m, i') \<Rightarrow> Some (Some m, i')
      | None \<Rightarrow> wait_channel ops from (now + timeout) now i)"

subsection \<open>The message log\<close>

abbreviation (input) MAX_MESSAGES :: nat where "MAX_MESSAGES \<equiv> 1000"
abbreviation (input) MAX_MESSAGE_LOG_BYTES :: nat where "MAX_MESSAGE_LOG_BYTES \<equiv> 524288"

record logged_message =
  logged_session_id :: string
  logged_msg :: actor_message
  logged_bytes :: nat

record message_log =
  entries :: "logged_message list"
  log_bytes :: nat

definition default_message_log :: message_log where
  "default_message_log = \<lparr>entries = [], log_bytes = 0\<rparr>"

text \<open>The eviction loop: drop the oldest entry while the log is at its count or would exceed its
  byte budget with the new message.\<close>

fun evict :: "nat \<Rightarrow> logged_message list \<Rightarrow> nat \<Rightarrow> logged_message list \<times> nat" where
  "evict new [] bytes = ([], bytes)"
| "evict new (oldest # rest) bytes =
     (if MAX_MESSAGES \<le> length (oldest # rest) \<or> MAX_MESSAGE_LOG_BYTES < usize_sat_add bytes new
      then evict new rest (bytes - logged_bytes oldest)
      else (oldest # rest, bytes))"

datatype registry_error = SessionActorLimit nat | InvalidText string

definition log_message ::
    "string \<Rightarrow> actor_message \<Rightarrow> message_log \<Rightarrow> (registry_error + unit) \<times> message_log" where
  "log_message session m l =
     (case validate_message m of
        Inl e \<Rightarrow> (Inl (InvalidText e), l)
      | Inr _ \<Rightarrow>
          let new = usize_sat_add (message_bytes m) (length session);
              (es, bytes) = evict new (entries l) (log_bytes l)
          in if MAX_MESSAGE_LOG_BYTES < new
             then (Inl (InvalidText ''message exceeds aggregate log budget''),
                   l\<lparr>entries := es, log_bytes := bytes\<rparr>)
             else (Inr (),
                   l\<lparr>entries := es @ [\<lparr>logged_session_id = session, logged_msg = m, logged_bytes = new\<rparr>],
                     log_bytes := usize_sat_add bytes new\<rparr>))"

subsection \<open>Accounting\<close>

definition contents :: "('ch \<Rightarrow> actor_message list) \<Rightarrow> 'ch actor_inbox \<Rightarrow> actor_message list" where
  "contents queue i = backlog i @ queue (channel i)"

abbreviation total_bytes :: "actor_message list \<Rightarrow> nat" where
  "total_bytes ms \<equiv> sum_list (map message_bytes ms)"

definition counts :: "'ch actor_inbox \<Rightarrow> nat \<Rightarrow> nat \<Rightarrow> bool" where
  "counts i n b \<longleftrightarrow> unat (unread i) = n \<and> unat (retained_bytes i) = b"

text \<open>An inbox counts the messages it holds and their bytes exactly, holds at most 64 KiB, and its
  channel at most 64 messages. Every message takes space: actor ids are not empty.\<close>

definition inbox_inv ::
    "('ch \<Rightarrow> actor_message list) \<Rightarrow> ('ch \<Rightarrow> nat) \<Rightarrow> 'ch actor_inbox \<Rightarrow> bool" where
  "inbox_inv queue cap i \<longleftrightarrow>
     counts i (length (contents queue i)) (total_bytes (contents queue i))
   \<and> total_bytes (contents queue i) \<le> MAX_INBOX_BYTES
   \<and> cap (channel i) = MAX_INBOX_MESSAGES \<and> length (queue (channel i)) \<le> MAX_INBOX_MESSAGES
   \<and> list_all (\<lambda>m. 0 < message_bytes m) (contents queue i)"

lemma message_bytes_bound: "message_bytes m < 2 ^ 64"
  by (simp add: message_bytes_def usize_sat_add_def)

lemma mark_message_taken_frame [frame_simps]:
  "channel (mark_message_taken m i) = channel i"
  "backlog (mark_message_taken m i) = backlog i"
  "last_activity (mark_message_taken m i) = last_activity i"
  "mark_message_taken m (i\<lparr>channel := c\<rparr>) = (mark_message_taken m i)\<lparr>channel := c\<rparr>"
  "mark_message_taken m (i\<lparr>backlog := ms\<rparr>) = (mark_message_taken m i)\<lparr>backlog := ms\<rparr>"
  by (simp_all add: mark_message_taken_def mark_taken_by_actor_def release_def)

lemma counts_update [simp]:
  "counts (i\<lparr>channel := c\<rparr>) n b = counts i n b" "counts (i\<lparr>backlog := ms\<rparr>) n b = counts i n b"
  by (simp_all add: counts_def)

lemma counts_taken: "counts i (Suc n) (message_bytes m + b) \<Longrightarrow> counts (mark_message_taken m i) n b"
  using message_bytes_bound [of m]
  by (simp add: counts_def mark_message_taken_def mark_taken_by_actor_def release_def rust_simps
      unsigned_of_nat take_bit_nat_eq_self)

definition take_all :: "actor_message list \<Rightarrow> 'ch actor_inbox \<Rightarrow> 'ch actor_inbox" where
  "take_all ms i = fold mark_message_taken ms i"

lemma take_all_simps [simp]:
  "take_all [] i = i" "take_all (m # ms) i = take_all ms (mark_message_taken m i)"
  by (simp_all add: take_all_def)

lemma take_all_append: "take_all (ms @ ms') i = take_all ms' (take_all ms i)"
  by (simp add: take_all_def)

lemma take_all_frame [frame_simps]:
  "channel (take_all ms i) = channel i"
  "backlog (take_all ms i) = backlog i"
  "last_activity (take_all ms i) = last_activity i"
  "take_all ms (i\<lparr>channel := c\<rparr>) = (take_all ms i)\<lparr>channel := c\<rparr>"
  "take_all ms (i\<lparr>backlog := ms'\<rparr>) = (take_all ms i)\<lparr>backlog := ms'\<rparr>"
  by (induction ms arbitrary: i) (simp_all add: frame_simps)

lemma counts_take_all:
  "counts i (length ms + n) (total_bytes ms + b) \<Longrightarrow> counts (take_all ms i) n b"
  by (induction ms arbitrary: i) (simp_all add: counts_taken add.assoc)

lemma filter_split_total:
  "length (filter P ms) + length (filter (\<lambda>m. \<not> P m) ms) = length ms"
  "total_bytes (filter P ms) + total_bytes (filter (\<lambda>m. \<not> P m) ms) = total_bytes ms"
  by (induction ms) auto

lemma length_le_total: "list_all (\<lambda>m. 0 < message_bytes m) ms \<Longrightarrow> length ms \<le> total_bytes ms"
  by (induction ms) auto

lemma fifo_channelD:
  assumes "fifo_channel ops queue cap"
  shows "queue (chan_new ops n) = []" "cap (chan_new ops n) = n"
    and "length (queue c) < cap c \<Longrightarrow>
      \<exists>c'. chan_try_send ops c m = (Sent, c') \<and> queue c' = queue c @ [m] \<and> cap c' = cap c"
    and "\<not> length (queue c) < cap c \<Longrightarrow> chan_try_send ops c m = (ChannelFull, c)"
    and "queue c = [] \<Longrightarrow> chan_try_recv ops c = (None, c)"
    and "queue c = m # ms \<Longrightarrow>
      \<exists>c'. chan_try_recv ops c = (Some m, c') \<and> queue c' = ms \<and> cap c' = cap c"
    and "queue c = [] \<Longrightarrow> chan_recv_timeout ops remaining now c = (None, now + remaining, c)"
    and "queue c = m # ms \<Longrightarrow>
      \<exists>c'. chan_recv_timeout ops remaining now c = (Some m, now, c') \<and> queue c' = ms \<and> cap c' = cap c"
proof -
  note laws = assms [unfolded fifo_channel_def, THEN conjunct1, rule_format]
    assms [unfolded fifo_channel_def, THEN conjunct2, THEN conjunct1, rule_format, of c m]
    assms [unfolded fifo_channel_def, THEN conjunct2, THEN conjunct2, THEN conjunct1, rule_format, of c]
    assms [unfolded fifo_channel_def, THEN conjunct2, THEN conjunct2, THEN conjunct2, rule_format,
      of remaining now c]
  show "queue (chan_new ops n) = []" "cap (chan_new ops n) = n" using laws(1) by auto
  show "length (queue c) < cap c \<Longrightarrow>
      \<exists>c'. chan_try_send ops c m = (Sent, c') \<and> queue c' = queue c @ [m] \<and> cap c' = cap c"
    and "\<not> length (queue c) < cap c \<Longrightarrow> chan_try_send ops c m = (ChannelFull, c)"
    using laws(2) by auto
  show "queue c = [] \<Longrightarrow> chan_try_recv ops c = (None, c)"
    and "queue c = m # ms \<Longrightarrow>
      \<exists>c'. chan_try_recv ops c = (Some m, c') \<and> queue c' = ms \<and> cap c' = cap c"
    using laws(3) by auto
  show "queue c = [] \<Longrightarrow> chan_recv_timeout ops remaining now c = (None, now + remaining, c)"
    and "queue c = m # ms \<Longrightarrow>
      \<exists>c'. chan_recv_timeout ops remaining now c = (Some m, now, c') \<and> queue c' = ms \<and> cap c' = cap c"
    using laws(4) by auto
qed

subsection \<open>Draining and waiting\<close>

lemma drain_backlog_eq:
  "drain_backlog from ms i =
     (filter (message_matches_from from) ms, filter (\<lambda>m. \<not> message_matches_from from m) ms,
      take_all (filter (message_matches_from from) ms) i)"
  by (induction ms arbitrary: i) simp_all

lemma drain_channel_eq:
  assumes "fifo_channel ops queue cap"
  shows "\<exists>c'. drain_channel ops from drained i =
      Some (drained @ filter (message_matches_from from) (queue (channel i)),
        (take_all (filter (message_matches_from from) (queue (channel i))) i)
          \<lparr>channel := c',
           backlog := backlog i @ filter (\<lambda>m. \<not> message_matches_from from m) (queue (channel i))\<rparr>)
    \<and> queue c' = [] \<and> cap c' = cap (channel i)"
proof (induction "queue (channel i)" arbitrary: i drained)
  case Nil
  then show ?case
    by (subst drain_channel.simps)
      (auto simp: fifo_channelD(5) [OF assms] intro!: exI [of _ "channel i"])
next
  case (Cons m ms)
  from Cons.hyps(2) obtain c where c: "chan_try_recv ops (channel i) = (Some m, c)" "queue c = ms"
    "cap c = cap (channel i)" using fifo_channelD(6) [OF assms, of "channel i" m ms] by auto
  show ?case
  proof (cases "message_matches_from from m")
    case True
    with Cons.hyps(1) [of "mark_message_taken m (i\<lparr>channel := c\<rparr>)" "drained @ [m]"] c Cons.hyps(2)
    show ?thesis by (subst drain_channel.simps) (auto simp: frame_simps simp flip: Cons.hyps(2))
  next
    case False
    with Cons.hyps(1) [of "i\<lparr>channel := c, backlog := backlog i @ [m]\<rparr>" drained] c Cons.hyps(2)
    show ?thesis by (subst drain_channel.simps) (auto simp: frame_simps simp flip: Cons.hyps(2))
  qed
qed

lemma drain_result:
  assumes "fifo_channel ops queue cap" "inbox_inv queue cap i"
  shows "\<exists>i'. drain ops from i = Some (filter (message_matches_from from) (contents queue i), i')
    \<and> contents queue i' = filter (\<lambda>m. \<not> message_matches_from from m) (contents queue i)
    \<and> inbox_inv queue cap i' \<and> last_activity i' = last_activity i"
proof -
  let ?P = "message_matches_from from"
  let ?i1 = "(take_all (filter ?P (backlog i)) i)\<lparr>backlog := filter (\<lambda>m. \<not> ?P m) (backlog i)\<rparr>"
  obtain c' where d: "drain_channel ops from (filter ?P (backlog i)) ?i1 =
      Some (filter ?P (backlog i) @ filter ?P (queue (channel i)),
        (take_all (filter ?P (queue (channel i))) ?i1)
          \<lparr>channel := c', backlog := filter (\<lambda>m. \<not> ?P m) (backlog i)
             @ filter (\<lambda>m. \<not> ?P m) (queue (channel i))\<rparr>)"
      and c': "queue c' = []" "cap c' = cap (channel i)"
    using drain_channel_eq [OF assms(1), of "from" "filter ?P (backlog i)" ?i1]
    by (auto simp: frame_simps)
  let ?i' = "(take_all (filter ?P (queue (channel i))) ?i1)
          \<lparr>channel := c', backlog := filter (\<lambda>m. \<not> ?P m) (backlog i)
             @ filter (\<lambda>m. \<not> ?P m) (queue (channel i))\<rparr>"
  have kept: "contents queue ?i' = filter (\<lambda>m. \<not> ?P m) (contents queue i)"
    using c' by (simp add: contents_def)
  have "counts i (length (filter ?P (contents queue i)) + length (contents queue ?i'))
      (total_bytes (filter ?P (contents queue i)) + total_bytes (contents queue ?i'))"
    using assms(2) by (simp only: kept filter_split_total inbox_inv_def)
  then have "counts (take_all (filter ?P (contents queue i)) i) (length (contents queue ?i'))
      (total_bytes (contents queue ?i'))"
    by (rule counts_take_all)
  then have "counts ?i' (length (contents queue ?i')) (total_bytes (contents queue ?i'))"
    by (simp add: frame_simps contents_def take_all_append)
  moreover have "total_bytes (contents queue ?i') \<le> total_bytes (contents queue i)"
    unfolding kept using filter_split_total(2) [of ?P "contents queue i"] by linarith
  ultimately have "inbox_inv queue cap ?i'"
    using assms(2) c' unfolding inbox_inv_def kept
    by (auto simp: list_all_iff)
  with d kept show ?thesis
    by (auto simp: drain_def drain_backlog_eq contents_def frame_simps)
qed

text \<open>C21. Draining an inbox always returns. It hands out exactly the messages of the requested sender,
  oldest first over the backlog and the channel, keeps all other messages in their order, and leaves
  the unread and byte counters exact.\<close>

theorem drain_correct:
  assumes "fifo_channel ops queue cap" "inbox_inv queue cap i"
  shows "\<exists>i'. drain ops from i = Some (filter (message_matches_from from) (contents queue i), i')
    \<and> contents queue i' = filter (\<lambda>m. \<not> message_matches_from from m) (contents queue i)
    \<and> inbox_inv queue cap i' \<and> last_activity i' = last_activity i"
  by (rule drain_result [OF assms])

text \<open>A channel that keeps the promise: the queued messages and the capacity.\<close>

definition list_channel :: "(actor_message list \<times> nat) channel_ops" where
  "list_channel =
     \<lparr>chan_new = (\<lambda>n. ([], n)),
      chan_try_send = (\<lambda>(q, n) m. if length q < n then (Sent, (q @ [m], n)) else (ChannelFull, (q, n))),
      chan_try_recv = (\<lambda>(q, n). case q of [] \<Rightarrow> (None, (q, n)) | m # ms \<Rightarrow> (Some m, (ms, n))),
      chan_recv_timeout = (\<lambda>remaining now (q, n).
        case q of [] \<Rightarrow> (None, now + remaining, (q, n)) | m # ms \<Rightarrow> (Some m, now, (ms, n)))\<rparr>"

lemma fifo_list_channel: "fifo_channel list_channel fst snd"
  by (auto simp: fifo_channel_def list_channel_def split: list.split)

definition sample_message :: "string \<Rightarrow> string \<Rightarrow> actor_message" where
  "sample_message sender text =
     \<lparr>msg_from = ActorId sender, msg_to = ActorId ''W0'', msg_text = text, msg_reply_to = None,
      msg_sent_at = 0\<rparr>"

definition sample_inbox :: "(actor_message list \<times> nat) actor_inbox" where
  "sample_inbox =
     \<lparr>channel = ([sample_message ''A'' ''two'', sample_message ''B'' ''six''], 64),
      backlog = [sample_message ''B'' ''one''], unread = 3, retained_bytes = 18, last_activity = None\<rparr>"

lemma sample_inbox_inv: "inbox_inv fst snd sample_inbox"
  by (simp add: inbox_inv_def sample_inbox_def sample_message_def contents_def counts_def
      message_bytes_def usize_sat_add_def)

lemma sample_inbox_contents:
  "contents fst sample_inbox =
     [sample_message ''B'' ''one'', sample_message ''A'' ''two'', sample_message ''B'' ''six'']"
  by (simp add: contents_def sample_inbox_def)

theorem drain_correct_witness:
  "\<exists>i'. drain list_channel (Some (ActorId ''B'')) sample_inbox =
       Some ([sample_message ''B'' ''one'', sample_message ''B'' ''six''], i')
     \<and> contents fst i' = [sample_message ''A'' ''two''] \<and> inbox_inv fst snd i'"
  using drain_correct [OF fifo_list_channel sample_inbox_inv, of "Some (ActorId ''B'')"]
  unfolding sample_inbox_contents by (auto simp: message_matches_from_def sample_message_def)

lemma position_of_None: "position_of P xs = None \<longleftrightarrow> (\<forall>x \<in> set xs. \<not> P x)"
  by (induction xs) auto

lemma position_of_Some:
  "position_of P xs = Some k \<Longrightarrow>
     xs = take k xs @ xs ! k # drop (Suc k) xs \<and> P (xs ! k) \<and> (\<forall>x \<in> set (take k xs). \<not> P x)"
  by (induction xs arbitrary: k) (auto split: if_splits)

lemma first_match:
  assumes "xs = pre @ m # post" "P m" "\<forall>x \<in> set pre. \<not> P x"
  shows "dropWhile (\<lambda>m. \<not> P m) xs = m # post" "takeWhile (\<lambda>m. \<not> P m) xs = pre"
  using assms(2,3) unfolding assms(1) by (induction pre) auto

lemma wait_channel_eq:
  assumes "fifo_channel ops queue cap" "now < deadline"
  shows "\<exists>c'. cap c' = cap (channel i) \<and>
    (case dropWhile (\<lambda>m. \<not> message_matches_from from m) (queue (channel i)) of
       [] \<Rightarrow> queue c' = [] \<and> wait_channel ops from deadline now i =
         Some (None, i\<lparr>channel := c', backlog := backlog i @ queue (channel i)\<rparr>)
     | m # rest \<Rightarrow> queue c' = rest \<and> wait_channel ops from deadline now i =
         Some (Some m, (mark_message_taken m i)\<lparr>channel := c', backlog := backlog i
           @ takeWhile (\<lambda>m. \<not> message_matches_from from m) (queue (channel i))\<rparr>))"
proof (induction "queue (channel i)" arbitrary: i)
  case Nil
  then show ?case
    using assms(2)
    by (subst wait_channel.simps)
      (auto simp: fifo_channelD(7) [OF assms(1)] intro!: exI [of _ "channel i"])
next
  case (Cons m ms)
  from Cons.hyps(2) obtain c where c:
    "chan_recv_timeout ops (deadline - now) now (channel i) = (Some m, now, c)" "queue c = ms"
    "cap c = cap (channel i)"
    using fifo_channelD(8) [OF assms(1), of "channel i" m ms "deadline - now" now] by auto
  show ?case
  proof (cases "message_matches_from from m")
    case True
    with c assms(2) Cons.hyps(2) [symmetric] show ?thesis
      by (subst wait_channel.simps) (auto simp: frame_simps)
  next
    case False
    then have "wait_channel ops from deadline now i =
        wait_channel ops from deadline now (i\<lparr>channel := c, backlog := backlog i @ [m]\<rparr>)"
      using c assms(2) by (subst wait_channel.simps) simp
    with False Cons.hyps(1) [of "i\<lparr>channel := c, backlog := backlog i @ [m]\<rparr>"] c
      Cons.hyps(2) [symmetric]
    show ?thesis by (auto simp: frame_simps split: list.splits)
  qed
qed

lemma inbox_inv_taken:
  assumes "inbox_inv queue cap i" "contents queue i = pre @ m # post"
    and "contents queue i' = pre @ post"
    and "unread i' = unread (mark_message_taken m i)"
    and "retained_bytes i' = retained_bytes (mark_message_taken m i)"
    and "cap (channel i') = MAX_INBOX_MESSAGES" "length (queue (channel i')) \<le> MAX_INBOX_MESSAGES"
  shows "inbox_inv queue cap i'"
proof -
  have "counts i (Suc (length (pre @ post))) (message_bytes m + total_bytes (pre @ post))"
    using assms(1,2) by (simp add: inbox_inv_def add.left_commute)
  then have "counts (mark_message_taken m i) (length (pre @ post)) (total_bytes (pre @ post))"
    by (rule counts_taken)
  then show ?thesis using assms by (auto simp: inbox_inv_def counts_def)
qed

lemma wait_result:
  assumes "fifo_channel ops queue cap" "inbox_inv queue cap i" "0 < timeout"
  shows "\<exists>i'. inbox_inv queue cap i' \<and>
    (case dropWhile (\<lambda>m. \<not> message_matches_from from m) (contents queue i) of
       [] \<Rightarrow> wait ops from timeout now i = Some (None, i') \<and> contents queue i' = contents queue i
     | m # rest \<Rightarrow> wait ops from timeout now i = Some (Some m, i') \<and> message_matches_from from m
         \<and> contents queue i' =
             takeWhile (\<lambda>m. \<not> message_matches_from from m) (contents queue i) @ rest)"
proof (cases "position_of (message_matches_from from) (backlog i)")
  case (Some k)
  let ?pre = "take k (backlog i)" and ?m = "backlog i ! k"
    and ?post = "drop (Suc k) (backlog i) @ queue (channel i)"
  let ?i' = "mark_message_taken ?m (i\<lparr>backlog := ?pre @ drop (k + 1) (backlog i)\<rparr>)"
  note k = position_of_Some [OF Some]
  have split: "contents queue i = ?pre @ ?m # ?post"
    unfolding contents_def using k by (metis append.assoc append_Cons)
  have "wait ops from timeout now i = Some (Some ?m, ?i')"
    using Some by (simp add: wait_def take_matching_backlog_def Let_def)
  moreover have "contents queue ?i' = ?pre @ ?post" by (simp add: contents_def frame_simps)
  moreover from this have "inbox_inv queue cap ?i'"
    using assms(2) by (intro inbox_inv_taken [OF assms(2) split])
      (simp_all add: frame_simps inbox_inv_def)
  ultimately show ?thesis
    using k first_match [OF split, of "message_matches_from from"] by (auto simp: frame_simps)
next
  case None
  let ?P = "message_matches_from from"
  let ?q = "queue (channel i)"
  have none: "\<forall>m \<in> set (backlog i). \<not> ?P m" using None by (simp add: position_of_None)
  have w: "wait ops from timeout now i = wait_channel ops from (now + timeout) now i"
    using None by (simp add: wait_def take_matching_backlog_def)
  obtain c' where c': "cap c' = cap (channel i)" and
    r: "case dropWhile (\<lambda>m. \<not> ?P m) ?q of
       [] \<Rightarrow> queue c' = [] \<and> wait ops from timeout now i =
         Some (None, i\<lparr>channel := c', backlog := backlog i @ ?q\<rparr>)
     | m # rest \<Rightarrow> queue c' = rest \<and> wait ops from timeout now i =
         Some (Some m, (mark_message_taken m i)\<lparr>channel := c', backlog := backlog i
           @ takeWhile (\<lambda>m. \<not> ?P m) ?q\<rparr>)"
    using wait_channel_eq [OF assms(1), of now "now + timeout" i "from"] assms(3) unfolding w by auto
  have dw: "dropWhile (\<lambda>m. \<not> ?P m) (contents queue i) = dropWhile (\<lambda>m. \<not> ?P m) ?q"
    and tw: "takeWhile (\<lambda>m. \<not> ?P m) (contents queue i) = backlog i @ takeWhile (\<lambda>m. \<not> ?P m) ?q"
    using none by (simp_all add: contents_def)
  show ?thesis
  proof (cases "dropWhile (\<lambda>m. \<not> ?P m) ?q")
    case Nil
    let ?i' = "i\<lparr>channel := c', backlog := backlog i @ ?q\<rparr>"
    have same: "contents queue ?i' = contents queue i" using r Nil by (simp add: contents_def)
    moreover have "inbox_inv queue cap ?i'"
      using assms(2) c' r Nil unfolding inbox_inv_def same by simp
    ultimately show ?thesis using r unfolding dw Nil by (auto intro!: exI [of _ ?i'])
  next
    case (Cons m rest)
    let ?pre = "takeWhile (\<lambda>m. \<not> ?P m) ?q"
    let ?i' = "(mark_message_taken m i)\<lparr>channel := c', backlog := backlog i @ ?pre\<rparr>"
    have q: "?q = ?pre @ m # rest" by (metis Cons takeWhile_dropWhile_id)
    have "length rest \<le> length ?q" by (subst q) simp
    moreover have "contents queue i = (backlog i @ ?pre) @ m # rest"
      using q by (simp add: contents_def)
    ultimately have "inbox_inv queue cap ?i'"
      using assms(2) c' r Cons
      by (intro inbox_inv_taken [OF assms(2), of "backlog i @ ?pre" m rest])
        (auto simp: contents_def inbox_inv_def)
    moreover have "?P m" using Cons by (metis (mono_tags, lifting) dropWhile_eq_Cons_conv)
    moreover have "contents queue ?i' = (backlog i @ ?pre) @ rest"
      using r Cons by (simp add: contents_def)
    ultimately show ?thesis using r unfolding dw tw Cons by (auto intro!: exI [of _ ?i'])
  qed
qed



subsection \<open>The log is bounded\<close>

abbreviation logged_total :: "logged_message list \<Rightarrow> nat" where
  "logged_total es \<equiv> sum_list (map logged_bytes es)"

definition log_inv :: "message_log \<Rightarrow> bool" where
  "log_inv l \<longleftrightarrow> log_bytes l = logged_total (entries l)
     \<and> length (entries l) \<le> MAX_MESSAGES \<and> log_bytes l \<le> MAX_MESSAGE_LOG_BYTES"

lemma usize_sat_add_le: "a + b < 2 ^ 64 \<Longrightarrow> usize_sat_add a b = a + b"
  by (simp add: usize_sat_add_def)

lemma usize_sat_add_less: "k < 2 ^ 64 - 1 \<Longrightarrow> k < usize_sat_add a b \<longleftrightarrow> k < a + b"
  by (auto simp: usize_sat_add_def)

text \<open>How much the eviction loop drops: some oldest entries, and the last of them only because the log
  with it was too long or too big.\<close>

lemma evict_drops:
  assumes "evict new es (logged_total es) = (es', b')"
  shows "\<exists>k \<le> length es. es' = drop k es \<and> b' = logged_total es'
    \<and> (es' = [] \<or> length es' < MAX_MESSAGES \<and> b' + new \<le> MAX_MESSAGE_LOG_BYTES)
    \<and> (k = 0 \<or> MAX_MESSAGES \<le> length (drop (k - 1) es)
        \<or> MAX_MESSAGE_LOG_BYTES < logged_total (drop (k - 1) es) + new)"
  using assms
proof (induction es)
  case (Cons e es)
  show ?case
  proof (cases "MAX_MESSAGES \<le> length (e # es) \<or> MAX_MESSAGE_LOG_BYTES < logged_total (e # es) + new")
    case True
    with Cons.prems have "evict new es (logged_total es) = (es', b')"
      by (auto simp: usize_sat_add_less)
    from Cons.IH [OF this] obtain k where k: "k \<le> length es" "es' = drop k es" "b' = logged_total es'"
      "es' = [] \<or> length es' < MAX_MESSAGES \<and> b' + new \<le> MAX_MESSAGE_LOG_BYTES"
      "k = 0 \<or> MAX_MESSAGES \<le> length (drop (k - 1) es)
        \<or> MAX_MESSAGE_LOG_BYTES < logged_total (drop (k - 1) es) + new" by blast
    with True show ?thesis by (intro exI [of _ "Suc k"]) (cases k; auto)
  next
    case False
    with Cons.prems show ?thesis
      by (intro exI [of _ 0]) (auto simp: usize_sat_add_less not_le not_less)
  qed
qed simp

lemma log_message_result:
  assumes "log_inv l" "log_message session m l = (r, l')"
  shows "log_inv l'
    \<and> (case r of
         Inr _ \<Rightarrow> length (msg_text m) \<le> MAX_ACTOR_MESSAGE_BYTES \<and>
           (\<exists>k e. entries l' = drop k (entries l) @ [e] \<and> logged_msg e = m \<and> logged_session_id e = session
             \<and> (k = 0 \<or> MAX_MESSAGES \<le> length (drop (k - 1) (entries l))
                \<or> MAX_MESSAGE_LOG_BYTES < logged_total (drop (k - 1) (entries l)) + logged_bytes e))
       | Inl _ \<Rightarrow> (length (msg_text m) > MAX_ACTOR_MESSAGE_BYTES \<and> l' = l)
           \<or> (usize_sat_add (message_bytes m) (length session) > MAX_MESSAGE_LOG_BYTES
              \<and> (\<exists>k. entries l' = drop k (entries l))))"
proof (cases "MAX_ACTOR_MESSAGE_BYTES < length (msg_text m)")
  case True
  with assms show ?thesis by (auto simp: log_message_def validate_message_def validate_text_bytes_def)
next
  case False
  define new where "new = usize_sat_add (message_bytes m) (length session)"
  obtain es b where ev: "evict new (entries l) (logged_total (entries l)) = (es, b)" by fastforce
  with assms(1) have ev': "evict new (entries l) (log_bytes l) = (es, b)" by (simp add: log_inv_def)
  from evict_drops [OF ev] obtain k where k: "k \<le> length (entries l)" "es = drop k (entries l)"
    "b = logged_total es" "es = [] \<or> length es < MAX_MESSAGES \<and> b + new \<le> MAX_MESSAGE_LOG_BYTES"
    "k = 0 \<or> MAX_MESSAGES \<le> length (drop (k - 1) (entries l))
        \<or> MAX_MESSAGE_LOG_BYTES < logged_total (drop (k - 1) (entries l)) + new" by blast
  let ?e = "\<lparr>logged_session_id = session, logged_msg = m, logged_bytes = new\<rparr>"
  show ?thesis
  proof (cases "MAX_MESSAGE_LOG_BYTES < new")
    case True
    with assms(2) False ev' have "r = Inl (InvalidText ''message exceeds aggregate log budget'')"
      "l' = l\<lparr>entries := es, log_bytes := b\<rparr>"
      by (auto simp: log_message_def validate_message_def validate_text_bytes_def Let_def new_def)
    moreover from True k(4) have "es = []" by auto
    ultimately show ?thesis using True k by (auto simp: log_inv_def new_def)
  next
    case small: False
    with assms(2) False ev' have "r = Inr ()"
      "l' = l\<lparr>entries := es @ [?e], log_bytes := usize_sat_add b new\<rparr>"
      by (auto simp: log_message_def validate_message_def validate_text_bytes_def Let_def new_def)
    moreover have "b + new \<le> MAX_MESSAGE_LOG_BYTES" "length es < MAX_MESSAGES" using k(3,4) small by auto
    ultimately show ?thesis
      using k False by (auto simp: log_inv_def usize_sat_add_le intro!: exI [of _ k] exI [of _ ?e])
  qed
qed

lemma log_message_keeps: "log_message session m l = (r, l') \<Longrightarrow> log_inv l \<Longrightarrow> log_inv l'"
  using log_message_result by blast



end
