(* ===== verification/Redaction.thy ===== *)
theory Redaction
  imports Prelude
begin

text \<open>
  Redaction of secrets (\<open>crates/tm-memory/src/redaction.rs\<close>).

  The rule table is the code's. The \<open>regex\<close> crate is a parameter: an engine that answers, for a
  pattern and a text, whether it matches, the matches in order, and the text with every match
  replaced. \<open>regex_laws\<close> states the documented relation between the three, where a lemma needs it.
\<close>

subsection \<open>Reports\<close>

record redaction =
  redaction_kind :: string
  redaction_count :: nat

record redaction_report =
  report_text :: string
  report_redactions :: "redaction list"

subsection \<open>Rules\<close>

record regex_engine =
  is_match :: "string \<Rightarrow> string \<Rightarrow> bool"
  find_iter :: "string \<Rightarrow> string \<Rightarrow> (nat \<times> nat) list"
  replace_all :: "string \<Rightarrow> string \<Rightarrow> string \<Rightarrow> string"

definition REDACTION_RULES :: "(string \<times> string \<times> string) list" where
  \<open>REDACTION_RULES =
   [(''private_key'',
     ''(?s)-----BEGIN [A-Z ]*PRIVATE KEY-----.*?-----END [A-Z ]*PRIVATE KEY-----'',
     ''[REDACTED_PRIVATE_KEY]''),
    (''authorization_header'',
     ''(?im)^(authorization|x-api-key|api-key|x-tempestmiku-bootstrap)'' @ [CHR 0x5C] @ ''s*:'' @
     [CHR 0x5C] @ ''s*.+$'',
     ''$1: [REDACTED_SECRET]''),
    (''tempestmiku_device_token'',
     [CHR 0x5C] @ ''btmk_dev_[A-Fa-f0-9]{64}'' @ [CHR 0x5C] @ ''b'',
     ''[REDACTED_DEVICE_TOKEN]''),
    (''tempestmiku_pairing_link'',
     ''tempestmiku://pair'' @ [CHR 0x5C] @ ''?[^'' @ [CHR 0x5C] @ ''s"'' @ [CHR 0x27] @
     ''<>]*'',
     ''[REDACTED_PAIRING_LINK]''),
    (''pairing_code'',
     ''(?i)'' @ [CHR 0x5C] @ ''b(code|pairing[_-]?code)'' @ [CHR 0x5C] @ ''s*[:=]'' @
     [CHR 0x5C] @ ''s*['' @ [CHR 0x27] @ [CHR 0x5C] @ ''"]?[a-f0-9]{64}'',
     ''$1=[REDACTED_PAIRING_CODE]''),
    (''bearer_token'',
     ''(?i)'' @ [CHR 0x5C] @ ''bbearer'' @ [CHR 0x5C] @ ''s+[A-Za-z0-9._~+/-]{12,}=*'',
     ''Bearer [REDACTED_TOKEN]''),
    (''uri_userinfo'',
     ''(?i)'' @ [CHR 0x5C] @ ''b(postgres(?:ql)?|https?)://[^/'' @ [CHR 0x5C] @ ''s:@]+:[^@'' @
     [CHR 0x5C] @ ''s/]+@'',
     ''$1://[REDACTED_CREDENTIAL]@''),
    (''api_secret_assignment'',
     ''(?i)'' @ [CHR 0x5C] @ ''b(api[_-]?key|token|password|secret)'' @ [CHR 0x5C] @ ''s*[:=]'' @
     [CHR 0x5C] @ ''s*['' @ [CHR 0x27] @ ''"]?[^'' @ [CHR 0x27] @ ''"'' @ [CHR 0x5C] @
     ''s]{6,}'',
     ''$1=[REDACTED_SECRET]''),
    (''provider_token'',
     [CHR 0x5C] @
     ''b(sk-[A-Za-z0-9_-]{12,}|gh[pousr]_[A-Za-z0-9_]{12,}|xox[baprs]-[A-Za-z0-9-]{12,}|hf_[A-Za-z0-9]{12,}|AIza[A-Za-z0-9_-]{20,}|AKIA[A-Z0-9]{16})'' @
     [CHR 0x5C] @ ''b'',
     ''[REDACTED_TOKEN]''),
    (''email'',
     [CHR 0x5C] @ ''b[A-Za-z0-9._%+-]+@[A-Za-z0-9.-]+'' @ [CHR 0x5C] @ ''.[A-Za-z]{2,}'' @
     [CHR 0x5C] @ ''b'',
     ''[REDACTED_EMAIL]'')]\<close>

definition contains_sensitive_data :: "regex_engine \<Rightarrow> string \<Rightarrow> bool" where
  "contains_sensitive_data rx input =
     list_ex (\<lambda>(_, pattern, _). is_match rx pattern input) REDACTION_RULES"

fun apply_rules ::
    "regex_engine \<Rightarrow> (string \<times> string \<times> string) list \<Rightarrow> string \<Rightarrow> redaction list \<Rightarrow> redaction_report" where
  "apply_rules rx [] text redactions = \<lparr>report_text = text, report_redactions = redactions\<rparr>"
| "apply_rules rx ((kind, pattern, replacement) # rules) text redactions =
     (let count = length (find_iter rx pattern text)
      in if 0 < count
         then apply_rules rx rules (replace_all rx pattern text replacement)
                (redactions @ [\<lparr>redaction_kind = kind, redaction_count = count\<rparr>])
         else apply_rules rx rules text redactions)"

definition redact_dream_text :: "regex_engine \<Rightarrow> string \<Rightarrow> redaction_report" where
  "redact_dream_text rx input = apply_rules rx REDACTION_RULES input []"

subsection \<open>Structured values\<close>

definition is_secret_key :: "string \<Rightarrow> bool" where
  "is_secret_key key =
     (let normalized = to_ascii_lowercase
            (str_of_chars (filter is_ascii_alphanumeric (str_chars key)))
      in normalized \<in> set
        [''apikey'', ''accesstoken'', ''authtoken'', ''authorization'', ''bearertoken'',
         ''bootstrapsecret'', ''clientsecret'', ''cookie'', ''credential'', ''credentials'',
         ''devicetoken'', ''pairingcode'', ''password'', ''passphrase'', ''providercredential'',
         ''refreshtoken'', ''secret'', ''setcookie'', ''token''])"

definition secret_at :: "string option \<Rightarrow> json \<Rightarrow> bool" where
  "secret_at key v \<longleftrightarrow> (case key of Some k \<Rightarrow> is_secret_key k | None \<Rightarrow> False) \<and> v \<noteq> JNull"

text \<open>Values are rewritten in place; here the new value is returned with the count.\<close>

fun redact_json_value_at_key :: "regex_engine \<Rightarrow> string option \<Rightarrow> json \<Rightarrow> json \<times> nat"
and redact_items :: "regex_engine \<Rightarrow> json list \<Rightarrow> json list \<times> nat"
and redact_members :: "regex_engine \<Rightarrow> (string \<times> json) list \<Rightarrow> (string \<times> json) list \<times> nat" where
  "redact_json_value_at_key rx key v =
     (if secret_at key v then (JString ''[REDACTED_SECRET]'', 1)
      else (case v of
          JString text \<Rightarrow>
            let report = redact_dream_text rx text
            in (JString (report_text report), sum_list (map redaction_count (report_redactions report)))
        | JArray items \<Rightarrow> (let (items', n) = redact_items rx items in (JArray items', n))
        | JObject object \<Rightarrow> (let (object', n) = redact_members rx object in (JObject object', n))
        | _ \<Rightarrow> (v, 0)))"
| "redact_items rx [] = ([], 0)"
| "redact_items rx (item # items) =
     (let first = redact_json_value_at_key rx None item; rest = redact_items rx items
      in (fst first # fst rest, snd first + snd rest))"
| "redact_members rx [] = ([], 0)"
| "redact_members rx ((key, item) # object) =
     (let first = redact_json_value_at_key rx (Some key) item; rest = redact_members rx object
      in ((key, fst first) # fst rest, snd first + snd rest))"

definition redact_json_value :: "regex_engine \<Rightarrow> json \<Rightarrow> json \<times> nat" where
  "redact_json_value rx v = redact_json_value_at_key rx None v"

subsection \<open>What redaction guarantees\<close>

definition regex_laws :: "regex_engine \<Rightarrow> bool" where
  "regex_laws rx \<longleftrightarrow>
     (\<forall>p t. is_match rx p t \<longleftrightarrow> find_iter rx p t \<noteq> []) \<and>
     (\<forall>p t r. find_iter rx p t = [] \<longrightarrow> replace_all rx p t r = t)"

lemma apply_rules_text:
  "regex_laws rx \<Longrightarrow> report_text (apply_rules rx rules t acc) =
     fold (\<lambda>(_, p, rep) t. replace_all rx p t rep) rules t"
  by (induction rx rules t acc rule: apply_rules.induct) (simp_all add: regex_laws_def Let_def)

lemma apply_rules_extends: "\<exists>new. report_redactions (apply_rules rx rules t acc) = acc @ new"
  by (induction rx rules t acc rule: apply_rules.induct) (auto simp: Let_def)

lemma apply_rules_none:
  assumes "regex_laws rx"
  shows "report_redactions (apply_rules rx rules t acc) = acc \<longleftrightarrow>
    \<not> list_ex (\<lambda>(_, p, _). is_match rx p t) rules"
proof (induction rules)
  case (Cons rule rules)
  obtain kind p rep where rule: "rule = (kind, p, rep)" by (cases rule)
  show ?case
  proof (cases "find_iter rx p t = []")
    case True
    with Cons assms show ?thesis by (simp add: rule regex_laws_def)
  next
    case False
    obtain new where "report_redactions (apply_rules rx (rule # rules) t acc) =
        (acc @ [\<lparr>redaction_kind = kind, redaction_count = length (find_iter rx p t)\<rparr>]) @ new"
      using False apply_rules_extends
        [of rx rules "replace_all rx p t rep"
            "acc @ [\<lparr>redaction_kind = kind, redaction_count = length (find_iter rx p t)\<rparr>]"]
      by (auto simp: rule Let_def)
    with False assms show ?thesis by (simp add: rule regex_laws_def)
  qed
qed simp

lemma redact_dream_text_unchanged:
  assumes "regex_laws rx" "report_redactions (redact_dream_text rx s) = []"
  shows "report_text (redact_dream_text rx s) = s"
proof -
  have "regex_laws rx \<Longrightarrow> report_redactions (apply_rules rx rules t acc) = acc \<Longrightarrow>
      report_text (apply_rules rx rules t acc) = t" for rules t acc
  proof (induction rules)
    case (Cons rule rules)
    obtain kind p rep where rule: "rule = (kind, p, rep)" by (cases rule)
    have "find_iter rx p t = []"
      using apply_rules_none [OF Cons.prems(1), of "rule # rules" t acc] Cons.prems
      by (simp add: rule regex_laws_def)
    with Cons show ?case by (simp add: rule)
  qed simp
  from this [of REDACTION_RULES s "[]"] assms show ?thesis by (simp add: redact_dream_text_def)
qed

lemma redact_counts_positive:
  "\<forall>x \<in> set acc. 0 < redaction_count x \<Longrightarrow>
   \<forall>x \<in> set (report_redactions (apply_rules rx rules t acc)). 0 < redaction_count x"
  by (induction rx rules t acc rule: apply_rules.induct) (auto simp: Let_def)

text \<open>C39. Redacting a text applies every rule, in order, to what the rules before left; it reports a
  redaction exactly when \<open>contains_sensitive_data\<close> holds of the text, every reported count is
  positive, and a text in which nothing is reported is unchanged.
\<close>

theorem redact_dream_text_correct:
  assumes "regex_laws rx"
  shows "report_text (redact_dream_text rx s) =
      fold (\<lambda>(_, p, rep) t. replace_all rx p t rep) REDACTION_RULES s \<and>
    (report_redactions (redact_dream_text rx s) \<noteq> [] \<longleftrightarrow> contains_sensitive_data rx s) \<and>
    (\<forall>x \<in> set (report_redactions (redact_dream_text rx s)). 0 < redaction_count x) \<and>
    (\<not> contains_sensitive_data rx s \<longrightarrow> report_text (redact_dream_text rx s) = s)"
  using apply_rules_text [OF assms] apply_rules_none [OF assms, of REDACTION_RULES s "[]"]
    redact_counts_positive [of "[]" rx REDACTION_RULES s] redact_dream_text_unchanged [OF assms, of s]
  by (simp add: redact_dream_text_def contains_sensitive_data_def)

text \<open>An engine that finds one literal pattern: each occurrence of the pattern's last byte.\<close>

definition last_byte_engine :: regex_engine where
  "last_byte_engine =
     \<lparr>is_match = (\<lambda>p t. p \<noteq> [] \<and> last p \<in> set t),
      find_iter = (\<lambda>p t. if p = [] then [] else
        map (\<lambda>(i, _). (i, i + 1)) (filter (\<lambda>(_, c). c = last p) (enumerate 0 t))),
      replace_all = (\<lambda>p t rep. if p = [] then t else concat (map (\<lambda>c. if c = last p then rep else [c]) t))\<rparr>"

lemma last_byte_engine_laws: "regex_laws last_byte_engine"
proof -
  have find: "filter (\<lambda>(_, c). c = x) (enumerate n t) = [] \<longleftrightarrow> x \<notin> set t" for x n and t :: string
    by (induction t arbitrary: n) auto
  have keep: "x \<notin> set t \<Longrightarrow> concat (map (\<lambda>c. if c = x then rep else [c]) t) = t" for x rep and t :: string
    by (induction t) auto
  show ?thesis by (simp add: regex_laws_def last_byte_engine_def find keep)
qed

theorem redact_dream_text_correct_witness:
  "report_redactions (redact_dream_text last_byte_engine ''a@'') \<noteq> [] \<and>
   report_text (redact_dream_text last_byte_engine ''ac'') = ''ac''"
proof -
  have "contains_sensitive_data last_byte_engine ''a@''"
    "\<not> contains_sensitive_data last_byte_engine ''ac''" by code_simp+
  then show ?thesis
    using redact_dream_text_correct [OF last_byte_engine_laws, of "''a@''"]
      redact_dream_text_correct [OF last_byte_engine_laws, of "''ac''"] by blast
qed

text \<open>Every string of a value, and that no member with a credential's key holds anything but the marker.\<close>

fun json_strings :: "json \<Rightarrow> string set" where
  "json_strings (JString s) = {s}"
| "json_strings (JArray items) = (\<Union>v \<in> set items. json_strings v)"
| "json_strings (JObject object) = (\<Union>(_, v) \<in> set object. json_strings v)"
| "json_strings _ = {}"

fun secrets_masked :: "json \<Rightarrow> bool" where
  "secrets_masked (JArray items) = (\<forall>v \<in> set items. secrets_masked v)"
| "secrets_masked (JObject object) =
     (\<forall>(k, v) \<in> set object. secrets_masked v \<and>
        (is_secret_key k \<longrightarrow> v = JNull \<or> v = JString ''[REDACTED_SECRET]''))"
| "secrets_masked _ = True"

lemma redact_masked:
  "secrets_masked (fst (redact_json_value_at_key rx key v)) \<and>
   (\<forall>k. key = Some k \<and> is_secret_key k \<longrightarrow>
      fst (redact_json_value_at_key rx key v) \<in> {JNull, JString ''[REDACTED_SECRET]''})"
  "\<forall>x \<in> set (fst (redact_items rx items)). secrets_masked x"
  "\<forall>(k, x) \<in> set (fst (redact_members rx object)). secrets_masked x \<and>
     (is_secret_key k \<longrightarrow> x = JNull \<or> x = JString ''[REDACTED_SECRET]'')"
proof (induction rx key v and rx items and rx object
    rule: redact_json_value_at_key_redact_items_redact_members.induct)
  case (1 rx key v)
  then show ?case
    by (cases v) (auto simp: secret_at_def Let_def split: prod.splits option.splits)
next
  case (3 rx item items)
  then show ?case by (auto simp: Let_def split_beta simp del: redact_json_value_at_key.simps)
next
  case (5 rx key item object)
  then show ?case by (auto simp: Let_def split_beta simp del: redact_json_value_at_key.simps)
qed auto

lemma redact_strings:
  "json_strings (fst (redact_json_value_at_key rx key v)) \<subseteq>
     insert ''[REDACTED_SECRET]'' ((\<lambda>s. report_text (redact_dream_text rx s)) ` json_strings v)"
  "(\<Union>x \<in> set (fst (redact_items rx items)). json_strings x) \<subseteq>
     insert ''[REDACTED_SECRET]''
       ((\<lambda>s. report_text (redact_dream_text rx s)) ` (\<Union>v \<in> set items. json_strings v))"
  "(\<Union>(_, x) \<in> set (fst (redact_members rx object)). json_strings x) \<subseteq>
     insert ''[REDACTED_SECRET]''
       ((\<lambda>s. report_text (redact_dream_text rx s)) ` (\<Union>(_, v) \<in> set object. json_strings v))"
proof (induction rx key v and rx items and rx object
    rule: redact_json_value_at_key_redact_items_redact_members.induct)
  case (1 rx key v)
  then show ?case by (cases v) (auto simp: Let_def split_beta)
next
  case (3 rx item items)
  then show ?case
    by (auto simp: Let_def split_beta image_Un simp del: redact_json_value_at_key.simps)
next
  case (5 rx key item object)
  then show ?case
    by (auto simp: Let_def split_beta image_Un simp del: redact_json_value_at_key.simps)
qed auto

lemma redact_unchanged:
  assumes "regex_laws rx"
  shows "snd (redact_json_value_at_key rx key v) = 0 \<Longrightarrow> fst (redact_json_value_at_key rx key v) = v"
    and "snd (redact_items rx items) = 0 \<Longrightarrow> fst (redact_items rx items) = items"
    and "snd (redact_members rx object) = 0 \<Longrightarrow> fst (redact_members rx object) = object"
  using assms
proof (induction rx key v and rx items and rx object
    rule: redact_json_value_at_key_redact_items_redact_members.induct)
  case (1 rx key v)
  have "report_text (redact_dream_text rx s) = s"
    if "\<forall>x \<in> set (report_redactions (redact_dream_text rx s)). redaction_count x = 0" for s
    using that redact_dream_text_unchanged [OF 1(4), of s]
      redact_counts_positive [of "[]" rx REDACTION_RULES s]
    by (cases "report_redactions (redact_dream_text rx s)") (auto simp: redact_dream_text_def)
  with 1 show ?case by (cases v) (auto simp: Let_def split_beta split: if_splits)
next
  case (3 rx item items)
  then show ?case by (simp add: Let_def split_beta del: redact_json_value_at_key.simps)
next
  case (5 rx key item object)
  then show ?case by (simp add: Let_def split_beta del: redact_json_value_at_key.simps)
qed auto

text \<open>C40. After \<open>redact_json_value\<close>, at every depth, a member under a credential's key is null or the
  marker, and every string left is the marker or the redaction of a string of the original; a value
  for which no redaction is counted is unchanged.
\<close>

theorem redact_json_value_masks:
  assumes "regex_laws rx"
  shows "secrets_masked (fst (redact_json_value rx v)) \<and>
    json_strings (fst (redact_json_value rx v)) \<subseteq>
      insert ''[REDACTED_SECRET]'' ((\<lambda>s. report_text (redact_dream_text rx s)) ` json_strings v) \<and>
    (snd (redact_json_value rx v) = 0 \<longrightarrow> fst (redact_json_value rx v) = v)"
  using redact_masked(1) [of rx None v] redact_strings(1) [of rx None v]
    redact_unchanged(1) [OF assms, of None v]
  by (simp add: redact_json_value_def del: redact_json_value_at_key.simps)

theorem redact_json_value_masks_witness:
  "redact_json_value last_byte_engine
     (JObject [(''a'', JArray [JObject [(''Api-Key'', JNumber (PosInt 7))]]), (''n'', JString ''c'')]) =
     (JObject [(''a'', JArray [JObject [(''Api-Key'', JString ''[REDACTED_SECRET]'')]]), (''n'', JString ''c'')], 1) \<and>
   secrets_masked (fst (redact_json_value last_byte_engine
     (JObject [(''a'', JArray [JObject [(''Api-Key'', JNumber (PosInt 7))]]), (''n'', JString ''c'')])))"
proof
  show "redact_json_value last_byte_engine
     (JObject [(''a'', JArray [JObject [(''Api-Key'', JNumber (PosInt 7))]]), (''n'', JString ''c'')]) =
     (JObject [(''a'', JArray [JObject [(''Api-Key'', JString ''[REDACTED_SECRET]'')]]), (''n'', JString ''c'')], 1)"
    by code_simp
qed (use redact_json_value_masks [OF last_byte_engine_laws] in blast)

end
