(* ===== verification/Registry.thy ===== *)
theory Registry
  imports Supervise Mailbox Redaction
begin

text \<open>
  The session registry of actors, \<open>MailboxRegistry\<close> of \<open>crates/tm-agents/src/mailbox.rs\<close> and its
  parts: \<open>roster.rs\<close>, \<open>cancellation.rs\<close>, \<open>lifecycle.rs\<close>, \<open>restart.rs\<close> and the delivery
  part of \<open>messages.rs\<close>.

  The registry is one record, passed through every operation. A hash map that is only looked up is a
  map; the roster, which is also iterated, is an association list with distinct keys (a hash map
  iterates in no particular order; here it is the order of first insertion). A cancellation token is an
  address into \<open>token_flags\<close>, so that all holders of a token see its cancellation. \<open>emitted\<close> are the
  events handed to the lifecycle hook, \<open>clock\<close> the readings of the system clock in order.
\<close>

subsection \<open>State\<close>

abbreviation (input) MAX_ACTORS_PER_SESSION :: nat where "MAX_ACTORS_PER_SESSION \<equiv> 64"

type_synonym actor_key = "string \<times> actor_id"

record actor_restart_template =
  tpl_id :: actor_id
  tpl_session_id :: string
  tpl_project_id :: "string option"
  tpl_role :: string
  tpl_task :: string
  tpl_mode :: "string option"
  tpl_grants :: capability_grants
  tpl_budget :: actor_budget
  tpl_parent :: "actor_id option"
  tpl_supervisor_id :: actor_id
  tpl_depth :: u32

record 'ch mailbox_registry =
  actors :: "(actor_key \<times> actor_record) list"
  inboxes :: "actor_key \<rightharpoonup> 'ch actor_inbox"
  cancel_tokens :: "actor_key \<rightharpoonup> token"
  next_seq :: u64
  next_supervisor_seq :: u64
  messages :: message_log
  transcripts :: "actor_key \<rightharpoonup> string"
  restart_templates :: "actor_key \<rightharpoonup> actor_restart_template"
  actor_supervisors :: "actor_key \<rightharpoonup> actor_id"
  supervisors :: "actor_key \<rightharpoonup> supervisor"
  lifecycle_hook :: bool
  emitted :: "(string \<times> actor_lifecycle_event) list"
  token_flags :: "token \<Rightarrow> bool"
  next_token :: token
  clock :: "nat \<Rightarrow> timestamp"
  ticks :: nat

definition registry_new :: "(nat \<Rightarrow> timestamp) \<Rightarrow> 'ch mailbox_registry" where
  "registry_new clk =
     \<lparr>actors = [], inboxes = Map.empty, cancel_tokens = Map.empty, next_seq = 0, next_supervisor_seq = 0,
      messages = default_message_log, transcripts = Map.empty, restart_templates = Map.empty,
      actor_supervisors = Map.empty, supervisors = Map.empty, lifecycle_hook = False, emitted = [],
      token_flags = (\<lambda>_. False), next_token = 0, clock = clk, ticks = 0\<rparr>"

definition set_lifecycle_hook :: "'ch mailbox_registry \<Rightarrow> 'ch mailbox_registry" where
  "set_lifecycle_hook r = r\<lparr>lifecycle_hook := True\<rparr>"

definition emit_lifecycle ::
    "string \<Rightarrow> actor_lifecycle_event \<Rightarrow> 'ch mailbox_registry \<Rightarrow> 'ch mailbox_registry" where
  "emit_lifecycle session event r =
     (if lifecycle_hook r then r\<lparr>emitted := emitted r @ [(session, event)]\<rparr> else r)"

definition utc_now :: "'ch mailbox_registry \<Rightarrow> timestamp \<times> 'ch mailbox_registry" where
  "utc_now r = (clock r (ticks r), r\<lparr>ticks := ticks r + 1\<rparr>)"

subsection \<open>Identities\<close>

text \<open>\<open>None\<close> is a panic of \<open>expect\<close>.\<close>

definition next_actor_id ::
    "unicode_tables \<Rightarrow> string \<Rightarrow> 'ch mailbox_registry \<Rightarrow> actor_id option \<times> 'ch mailbox_registry" where
  "next_actor_id u role r =
     (let seq_str = show_nat (unat (next_seq r));
          chars = filter (is_alphabetic u) (str_chars role);
          first = (case chars of [] \<Rightarrow> ''A'' | c # _ \<Rightarrow> str_of_chars (to_uppercase u c));
          rest = str_of_chars (take 15 (tl chars));
          prefix = first @ rest;
          max_prefix = 32 - length seq_str;
          prefix' = str_of_chars (take max_prefix (str_chars prefix));
          full = prefix' @ seq_str
      in (case actor_id_new u full of
            Inr i \<Rightarrow> Some i
          | Inl _ \<Rightarrow> (case actor_id_new u (''A'' @ seq_str) of Inr i \<Rightarrow> Some i | Inl _ \<Rightarrow> None),
          r\<lparr>next_seq := next_seq r + 1\<rparr>))"

definition next_supervisor_id ::
    "unicode_tables \<Rightarrow> string \<Rightarrow> 'ch mailbox_registry \<Rightarrow> actor_id option \<times> 'ch mailbox_registry" where
  "next_supervisor_id u label r =
     (let seq_str = show_nat (unat (next_supervisor_seq r));
          chars = filter (is_alphanumeric u) (str_chars label);
          first = (case chars of [] \<Rightarrow> ''Supervisor'' | c # _ \<Rightarrow> str_of_chars (to_uppercase u c));
          rest = str_of_chars (take 15 (tl chars))
      in (case actor_id_new u (first @ rest @ seq_str) of
            Inr i \<Rightarrow> Some i
          | Inl _ \<Rightarrow> (case actor_id_new u (''Supervisor'' @ seq_str) of Inr i \<Rightarrow> Some i | Inl _ \<Rightarrow> None),
          r\<lparr>next_supervisor_seq := next_supervisor_seq r + 1\<rparr>))"

subsection \<open>Cancellation tokens\<close>

definition token_new :: "'ch mailbox_registry \<Rightarrow> token \<times> 'ch mailbox_registry" where
  "token_new r =
     (next_token r,
      r\<lparr>next_token := next_token r + 1, token_flags := (token_flags r)(next_token r := False)\<rparr>)"

definition token_cancel :: "token \<Rightarrow> 'ch mailbox_registry \<Rightarrow> 'ch mailbox_registry" where
  "token_cancel t r = r\<lparr>token_flags := (token_flags r)(t := True)\<rparr>"

definition ensure_cancel_token ::
    "string \<Rightarrow> actor_id \<Rightarrow> 'ch mailbox_registry \<Rightarrow> token \<times> 'ch mailbox_registry" where
  "ensure_cancel_token session a r =
     (case cancel_tokens r (session, a) of
        Some t \<Rightarrow> (t, r)
      | None \<Rightarrow>
          let (t, r') = token_new r
          in (t, r'\<lparr>cancel_tokens := (cancel_tokens r')((session, a) \<mapsto> t)\<rparr>))"

definition cancel_token_for_session ::
    "string \<Rightarrow> actor_id \<Rightarrow> 'ch mailbox_registry \<Rightarrow> token \<times> 'ch mailbox_registry" where
  "cancel_token_for_session session a r = ensure_cancel_token session a r"

text \<open>\<open>self.cancel_token_for_session(session_id, id).await.cancel()\<close>\<close>

definition cancel_session_token ::
    "string \<Rightarrow> actor_id \<Rightarrow> 'ch mailbox_registry \<Rightarrow> 'ch mailbox_registry" where
  "cancel_session_token session a r =
     (let (t, r') = cancel_token_for_session session a r in token_cancel t r')"

definition is_cancelled_for_session :: "string \<Rightarrow> actor_id \<Rightarrow> 'ch mailbox_registry \<Rightarrow> bool" where
  "is_cancelled_for_session session a r =
     (case cancel_tokens r (session, a) of Some t \<Rightarrow> token_flags r t | None \<Rightarrow> False)"

subsection \<open>Roster\<close>

definition is_live_status :: "actor_status \<Rightarrow> bool" where
  "is_live_status s \<longleftrightarrow> s \<noteq> Terminated"

definition get_for_session :: "string \<Rightarrow> actor_id \<Rightarrow> 'ch mailbox_registry \<Rightarrow> actor_record option" where
  "get_for_session session a r = map_of (actors r) (session, a)"

definition put_actor ::
    "string \<Rightarrow> actor_id \<Rightarrow> actor_record \<Rightarrow> 'ch mailbox_registry \<Rightarrow> 'ch mailbox_registry" where
  "put_actor session a rec r = r\<lparr>actors := AList.update (session, a) rec (actors r)\<rparr>"

fun validate_modes :: "(actor_record \<times> actor_id) list \<Rightarrow> registry_error + unit" where
  "validate_modes [] = Inr ()"
| "validate_modes ((rec, _) # recs) =
     (case mode rec of
        None \<Rightarrow> validate_modes recs
      | Some m \<Rightarrow>
          (case validate_text_bytes ''mode'' m MAX_ACTOR_ROLE_BYTES of
             Inl e \<Rightarrow> Inl (InvalidText e)
           | Inr _ \<Rightarrow> validate_modes recs))"

definition live_count :: "string \<Rightarrow> 'ch mailbox_registry \<Rightarrow> nat" where
  "live_count session r =
     length (filter (\<lambda>(key, rec). fst key = session \<and> is_live_status (status rec)) (actors r))"

definition new_live_count :: "string \<Rightarrow> (actor_record \<times> actor_id) list \<Rightarrow> 'ch mailbox_registry \<Rightarrow> nat" where
  "new_live_count session recs r =
     length (filter (\<lambda>(rec, _). is_live_status (status rec)
       \<and> map_of (actors r) (session, rec_id rec) = None) recs)"

definition entry_supervisor :: "actor_key \<Rightarrow> 'ch mailbox_registry \<Rightarrow> supervisor" where
  "entry_supervisor key r = (case supervisors r key of Some s \<Rightarrow> s | None \<Rightarrow> default_supervisor)"

definition track_one ::
    "'ch channel_ops \<Rightarrow> string \<Rightarrow> actor_record \<times> actor_id \<Rightarrow> 'ch mailbox_registry \<Rightarrow> 'ch mailbox_registry" where
  "track_one ops session item r =
     (let (rec, supervisor_id) = item;
          key = (session, rec_id rec);
          r1 = put_actor session (rec_id rec) rec r;
          r2 = (case inboxes r1 key of
                  Some _ \<Rightarrow> r1
                | None \<Rightarrow> r1\<lparr>inboxes := (inboxes r1)(key \<mapsto> inbox_new ops)\<rparr>);
          r3 = snd (ensure_cancel_token session (rec_id rec) r2);
          r4 = r3\<lparr>actor_supervisors := (actor_supervisors r3)(key \<mapsto> supervisor_id)\<rparr>
      in r4\<lparr>supervisors := (supervisors r4)((session, supervisor_id) \<mapsto>
             track (entry_supervisor (session, supervisor_id) r4) (rec_id rec))\<rparr>)"

definition track_batch_for_session ::
    "'ch channel_ops \<Rightarrow> string \<Rightarrow> (actor_record \<times> actor_id) list \<Rightarrow> 'ch mailbox_registry \<Rightarrow>
     (registry_error + unit) \<times> 'ch mailbox_registry" where
  "track_batch_for_session ops session recs r =
     (case validate_modes recs of
        Inl e \<Rightarrow> (Inl e, r)
      | Inr _ \<Rightarrow>
          if MAX_ACTORS_PER_SESSION < usize_sat_add (live_count session r) (new_live_count session recs r)
          then (Inl (SessionActorLimit MAX_ACTORS_PER_SESSION), r)
          else (Inr (), fold (track_one ops session) recs r))"

definition track_with_supervisor_for_session ::
    "'ch channel_ops \<Rightarrow> string \<Rightarrow> actor_record \<Rightarrow> actor_id \<Rightarrow> 'ch mailbox_registry \<Rightarrow>
     (registry_error + unit) \<times> 'ch mailbox_registry" where
  "track_with_supervisor_for_session ops session rec supervisor_id r =
     track_batch_for_session ops session [(rec, supervisor_id)] r"

definition track_for_session ::
    "'ch channel_ops \<Rightarrow> string \<Rightarrow> actor_record \<Rightarrow> 'ch mailbox_registry \<Rightarrow>
     (registry_error + unit) \<times> 'ch mailbox_registry" where
  "track_for_session ops session rec r =
     track_with_supervisor_for_session ops session rec
       (case parent rec of Some p \<Rightarrow> p | None \<Rightarrow> root_actor_id) r"

definition update_status_for_session ::
    "string \<Rightarrow> actor_id \<Rightarrow> actor_status \<Rightarrow> 'ch mailbox_registry \<Rightarrow> 'ch mailbox_registry" where
  "update_status_for_session session a st r =
     (case get_for_session session a r of
        None \<Rightarrow> r
      | Some rec \<Rightarrow> put_actor session a (rec\<lparr>status := st\<rparr>) r)"

definition list_for_session :: "string \<Rightarrow> 'ch mailbox_registry \<Rightarrow> actor_record list" where
  "list_for_session session r = map snd (filter (\<lambda>(key, _). fst key = session) (actors r))"

definition live_direct_children_for_session ::
    "string \<Rightarrow> actor_id \<Rightarrow> 'ch mailbox_registry \<Rightarrow> actor_record list" where
  "live_direct_children_for_session session p r =
     filter (\<lambda>rec. is_live_status (status rec) \<and>
         (case parent rec of Some q \<Rightarrow> q = p | None \<Rightarrow> as_str p = ''Root''))
       (list_for_session session r)"

definition supervisor_id_for_actor ::
    "string \<Rightarrow> actor_id \<Rightarrow> actor_id option \<Rightarrow> 'ch mailbox_registry \<Rightarrow> actor_id" where
  "supervisor_id_for_actor session a fallback_parent r =
     (case actor_supervisors r (session, a) of
        Some s \<Rightarrow> s
      | None \<Rightarrow> (case fallback_parent of Some p \<Rightarrow> p | None \<Rightarrow> root_actor_id))"

subsection \<open>Cancellation\<close>

datatype cancel_actor_result = CancelDone | AlreadyCancelled | AlreadyTerminated | CancelNotFound

definition cancel_actor ::
    "string \<Rightarrow> actor_id \<Rightarrow> 'ch mailbox_registry \<Rightarrow> cancel_actor_result \<times> 'ch mailbox_registry" where
  "cancel_actor session a r =
     (let (cancelled_at, r0) = utc_now r;
          (res, r1) = (case get_for_session session a r0 of
              None \<Rightarrow> (CancelNotFound, r0)
            | Some rec \<Rightarrow>
                if cancelled rec then (AlreadyCancelled, r0)
                else if status rec = Terminated then (AlreadyTerminated, r0)
                else (CancelDone,
                      put_actor session a
                        (rec\<lparr>status := Terminated, completed_at := Some cancelled_at, cancelled := True,
                             rec_failure_reason := Some Cancelled\<rparr>) r0));
          r2 = (if res = CancelDone \<or> res = AlreadyCancelled
                then cancel_session_token session a r1 else r1);
          r3 = (if res = CancelDone
                then emit_lifecycle session (CancelledEvent a cancelled_at)
                       (emit_lifecycle session (StatusChanged a Terminated cancelled_at) r2)
                else r2)
      in (res, r3))"

text \<open>The children of one actor in the order of spawning, ties by id.\<close>

definition spawn_order :: "timestamp \<times> actor_id \<Rightarrow> timestamp \<times> actor_id \<Rightarrow> bool" where
  "spawn_order x y \<longleftrightarrow> fst x < fst y \<or> (fst x = fst y \<and> snd x \<le> snd y)"

fun insert_by :: "('a \<Rightarrow> 'a \<Rightarrow> bool) \<Rightarrow> 'a \<Rightarrow> 'a list \<Rightarrow> 'a list" where
  "insert_by le x [] = [x]"
| "insert_by le x (y # ys) = (if le x y then x # y # ys else y # insert_by le x ys)"

definition sort_by :: "('a \<Rightarrow> 'a \<Rightarrow> bool) \<Rightarrow> 'a list \<Rightarrow> 'a list" where
  "sort_by le xs = foldr (insert_by le) xs []"

definition spawned_children ::
    "(actor_key \<times> actor_record) list \<Rightarrow> string \<Rightarrow> actor_id \<Rightarrow> actor_id list" where
  "spawned_children as session current =
     map snd (sort_by spawn_order
       (map (\<lambda>(_, rec). (spawned_at rec, rec_id rec))
         (filter (\<lambda>(key, rec). fst key = session \<and> parent rec = Some current) as)))"

lemma set_insert_by: "set (insert_by le x xs) = insert x (set xs)"
  by (induction xs) auto

lemma set_sort_by: "set (sort_by le xs) = set xs"
  unfolding sort_by_def by (induction xs) (simp_all add: set_insert_by)

lemma set_spawned_children:
  "set (spawned_children as session p) =
     {rec_id rec | key rec. (key, rec) \<in> set as \<and> fst key = session \<and> parent rec = Some p}"
proof -
  have "set (spawned_children as session p) =
      (\<lambda>x. rec_id (snd x)) ` {x \<in> set as. fst (fst x) = session \<and> parent (snd x) = Some p}"
    by (simp add: spawned_children_def set_sort_by image_image split_beta)
  also have "\<dots> = {rec_id rec | key rec. (key, rec) \<in> set as \<and> fst key = session \<and> parent rec = Some p}"
    by force
  finally show ?thesis .
qed

text \<open>The breadth-first walk. \<open>ordered\<close> and \<open>seen\<close> of the code always hold the same actors.\<close>

function subtree_loop ::
    "(actor_key \<times> actor_record) list \<Rightarrow> string \<Rightarrow> actor_id list \<Rightarrow> actor_id list \<Rightarrow> actor_id list" where
  "subtree_loop as session ordered [] = ordered"
| "subtree_loop as session ordered (current # pending) =
     (if current \<in> set ordered then subtree_loop as session ordered pending
      else subtree_loop as session (ordered @ [current]) (pending @ spawned_children as session current))"
  by pat_completeness auto

lemma subtree_measure:
  assumes "current \<notin> set ordered"
  shows "card ((rec_id ` snd ` set as \<union> set (pending @ spawned_children as session current))
           - set (ordered @ [current]))
    < card ((rec_id ` snd ` set as \<union> set (current # pending)) - set ordered)"
proof (rule psubset_card_mono)
  have "set (spawned_children as session current) \<subseteq> rec_id ` snd ` set as"
    by (force simp: set_spawned_children)
  with assms show "(rec_id ` snd ` set as \<union> set (pending @ spawned_children as session current))
           - set (ordered @ [current])
    \<subset> (rec_id ` snd ` set as \<union> set (current # pending)) - set ordered" by auto
qed simp

termination subtree_loop
proof (relation "measures
    [\<lambda>(as, session, ordered, pending). card ((rec_id ` snd ` set as \<union> set pending) - set ordered),
     \<lambda>(as, session, ordered, pending). length pending]", goal_cases)
  case (2 as session ordered current pending)
  then show ?case by (simp add: insert_absorb insert_Diff_if)
next
  case (3 as session ordered current pending)
  then show ?case using subtree_measure [of current ordered as pending session] by simp
qed simp

definition actor_subtree_ids :: "string \<Rightarrow> actor_id \<Rightarrow> 'ch mailbox_registry \<Rightarrow> actor_id list" where
  "actor_subtree_ids session root r =
     (if get_for_session session root r = None then [root]
      else subtree_loop (actors r) session [] [root])"

fun cancel_each ::
    "string \<Rightarrow> actor_id list \<Rightarrow> 'ch mailbox_registry \<Rightarrow>
     (actor_id \<times> cancel_actor_result) list \<times> 'ch mailbox_registry" where
  "cancel_each session [] r = ([], r)"
| "cancel_each session (a # as) r =
     (let (res, r1) = cancel_actor session a r; (results, r2) = cancel_each session as r1
      in ((a, res) # results, r2))"

definition cancel_actor_subtree ::
    "string \<Rightarrow> actor_id \<Rightarrow> 'ch mailbox_registry \<Rightarrow>
     (actor_id \<times> cancel_actor_result) list \<times> 'ch mailbox_registry" where
  "cancel_actor_subtree session root r = cancel_each session (actor_subtree_ids session root r) r"

text \<open>The walk up the parent chain; the first repeated actor ends it.\<close>

function descendant_loop ::
    "(actor_key \<times> actor_record) list \<Rightarrow> string \<Rightarrow> actor_id \<Rightarrow> actor_id list \<Rightarrow> actor_id \<Rightarrow> bool" where
  "descendant_loop as session ancestor seen current =
     (if current \<in> set seen then False
      else (case map_of as (session, current) of
              None \<Rightarrow> False
            | Some rec \<Rightarrow>
                (case parent rec of
                   None \<Rightarrow> False
                 | Some p \<Rightarrow>
                     if p = ancestor then True
                     else descendant_loop as session ancestor (current # seen) p)))"
  by pat_completeness auto
termination descendant_loop
proof (relation "measure (\<lambda>(as, session, ancestor, seen, current). card (snd ` fst ` set as - set seen))",
    goal_cases)
  case (2 as session ancestor seen current rec p)
  then have "current \<in> snd ` fst ` set as" by (force dest: map_of_SomeD)
  with 2 have "snd ` fst ` set as - set (current # seen) \<subset> snd ` fst ` set as - set seen" by auto
  then show ?case by (simp only: in_measure case_prod_conv psubset_card_mono finite_Diff finite_imageI
      finite_set)
qed simp

declare descendant_loop.simps [simp del]

definition is_descendant_of_for_session ::
    "string \<Rightarrow> actor_id \<Rightarrow> actor_id \<Rightarrow> 'ch mailbox_registry \<Rightarrow> bool" where
  "is_descendant_of_for_session session a ancestor r =
     descendant_loop (actors r) session ancestor [] a"

definition would_wait_on_descendant_for_session ::
    "string \<Rightarrow> actor_id \<Rightarrow> actor_id \<Rightarrow> 'ch mailbox_registry \<Rightarrow> bool" where
  "would_wait_on_descendant_for_session session waiter target r =
     (if as_str waiter = ''Root'' then False
      else if waiter = target then True
      else is_descendant_of_for_session session target waiter r)"

subsection \<open>Lifecycle\<close>

definition set_supervision_policy_for_session ::
    "string \<Rightarrow> actor_id \<Rightarrow> supervision_policy \<Rightarrow> 'ch mailbox_registry \<Rightarrow> 'ch mailbox_registry" where
  "set_supervision_policy_for_session session supervisor_id p r =
     (let s = (case supervisors r (session, supervisor_id) of Some s \<Rightarrow> s | None \<Rightarrow> supervisor_new p)
      in r\<lparr>supervisors := (supervisors r)((session, supervisor_id) \<mapsto> s\<lparr>policy := p\<rparr>)\<rparr>)"

definition mark_complete_record ::
    "string \<Rightarrow> actor_id \<Rightarrow> (string option \<times> string option) option \<Rightarrow> 'ch mailbox_registry \<Rightarrow>
     actor_id option \<times> 'ch mailbox_registry" where
  "mark_complete_record session a resources r =
     (case get_for_session session a r of
        None \<Rightarrow> (None, r)
      | Some rec \<Rightarrow>
          if cancelled rec \<or> rec_failure_reason rec \<noteq> None then (None, r)
          else
            let (now, r0) = utc_now r;
                rec1 = rec\<lparr>status := Terminated, completed_at := Some now\<rparr>;
                rec2 = (case resources of
                          Some (art, hist) \<Rightarrow> rec1\<lparr>artifact_uri := art, history_uri := hist\<rparr>
                        | None \<Rightarrow> rec1);
                r1 = put_actor session a rec2 r0
            in (Some (supervisor_id_for_actor session a (parent rec) r1), r1))"

definition record_supervised_success ::
    "string \<Rightarrow> actor_id \<Rightarrow> actor_id \<Rightarrow> 'ch mailbox_registry \<Rightarrow> 'ch mailbox_registry" where
  "record_supervised_success session supervisor_id a r =
     (case supervisors r (session, supervisor_id) of
        None \<Rightarrow> r
      | Some s \<Rightarrow> r\<lparr>supervisors := (supervisors r)((session, supervisor_id) \<mapsto> record_success s a)\<rparr>)"

definition mark_complete_for_session ::
    "string \<Rightarrow> actor_id \<Rightarrow> 'ch mailbox_registry \<Rightarrow> bool \<times> 'ch mailbox_registry" where
  "mark_complete_for_session session a r =
     (case mark_complete_record session a None r of
        (None, r1) \<Rightarrow> (False, r1)
      | (Some supervisor_id, r1) \<Rightarrow> (True, record_supervised_success session supervisor_id a r1))"

definition mark_complete_with_resources_for_session ::
    "string \<Rightarrow> actor_id \<Rightarrow> string option \<Rightarrow> string option \<Rightarrow> 'ch mailbox_registry \<Rightarrow>
     bool \<times> 'ch mailbox_registry" where
  "mark_complete_with_resources_for_session session a art hist r =
     (case mark_complete_record session a (Some (art, hist)) r of
        (None, r1) \<Rightarrow> (False, r1)
      | (Some supervisor_id, r1) \<Rightarrow> (True, record_supervised_success session supervisor_id a r1))"

definition mark_failed_record ::
    "string \<Rightarrow> actor_id \<Rightarrow> failure_reason \<Rightarrow> 'ch mailbox_registry \<Rightarrow> actor_id option \<times> 'ch mailbox_registry" where
  "mark_failed_record session a why r =
     (case get_for_session session a r of
        None \<Rightarrow> (None, r)
      | Some rec \<Rightarrow>
          if cancelled rec then (None, r)
          else
            let (now, r0) = utc_now r;
                r1 = put_actor session a
                       (rec\<lparr>status := Terminated, completed_at := Some now, cancelled := (why = Cancelled),
                            rec_failure_reason := Some why\<rparr>) r0;
                r2 = (if why = Cancelled then cancel_session_token session a r1 else r1)
            in (Some (supervisor_id_for_actor session a (parent rec) r2), r2))"

definition mark_failed_for_session ::
    "string \<Rightarrow> actor_id \<Rightarrow> failure_reason \<Rightarrow> 'ch mailbox_registry \<Rightarrow> bool \<times> 'ch mailbox_registry" where
  "mark_failed_for_session session a why r =
     (let (res, r1) = mark_failed_record session a why r in (res \<noteq> None, r1))"

definition mark_failed_with_supervision_for_session ::
    "string \<Rightarrow> actor_id \<Rightarrow> failure_reason \<Rightarrow> 'ch mailbox_registry \<Rightarrow>
     (actor_id \<times> supervision_decision) option \<times> 'ch mailbox_registry" where
  "mark_failed_with_supervision_for_session session a why r =
     (case mark_failed_record session a why r of
        (None, r1) \<Rightarrow> (None, r1)
      | (Some supervisor_id, r1) \<Rightarrow>
          let key = (session, supervisor_id);
              (decision, s) = record_failure (entry_supervisor key r1) a why
          in (Some (supervisor_id, decision), r1\<lparr>supervisors := (supervisors r1)(key \<mapsto> s)\<rparr>))"

fun apply_supervision_actions ::
    "string \<Rightarrow> supervision_action list \<Rightarrow> 'ch mailbox_registry \<Rightarrow> 'ch mailbox_registry" where
  "apply_supervision_actions session [] r = r"
| "apply_supervision_actions session (Cancel a # acts) r =
     apply_supervision_actions session acts (snd (cancel_actor_subtree session a r))"
| "apply_supervision_actions session (_ # acts) r = apply_supervision_actions session acts r"

definition emit_and_apply_supervision_decision ::
    "string \<Rightarrow> actor_id \<Rightarrow> supervision_decision \<Rightarrow> 'ch mailbox_registry \<Rightarrow> 'ch mailbox_registry" where
  "emit_and_apply_supervision_decision session supervisor_id decision r =
     (if actions decision = [] then r
      else
        let (now, r1) = utc_now r
        in apply_supervision_actions session (actions decision)
             (emit_lifecycle session
               (Supervision supervisor_id (failed_actor_id decision) decision now) r1))"

definition record_actor_error ::
    "string \<Rightarrow> actor_id \<Rightarrow> failure_reason \<Rightarrow> 'ch mailbox_registry \<Rightarrow>
     supervision_decision option \<times> 'ch mailbox_registry" where
  "record_actor_error session a why r =
     (case mark_failed_with_supervision_for_session session a why r of
        (None, r1) \<Rightarrow> (None, r1)
      | (Some (supervisor_id, decision), r1) \<Rightarrow>
          let (at1, r2) = utc_now r1;
              r3 = emit_lifecycle session (StatusChanged a Terminated at1) r2;
              (at2, r4) = utc_now r3;
              r5 = emit_lifecycle session
                     (if why = Cancelled then CancelledEvent a at2 else Failed a at2 why) r4
          in (Some decision, emit_and_apply_supervision_decision session supervisor_id decision r5))"

subsection \<open>Restart\<close>

definition from_spec :: "actor_spec \<Rightarrow> actor_id \<Rightarrow> actor_restart_template" where
  "from_spec spec supervisor_id =
     \<lparr>tpl_id = spec_id spec, tpl_session_id = spec_session_id spec, tpl_project_id = spec_project_id spec,
      tpl_role = spec_role spec, tpl_task = spec_task spec, tpl_mode = spec_mode spec,
      tpl_grants = spec_grants spec, tpl_budget = spec_budget spec, tpl_parent = spec_parent spec,
      tpl_supervisor_id = supervisor_id, tpl_depth = spec_depth spec\<rparr>"

definition to_spec :: "actor_restart_template \<Rightarrow> token \<Rightarrow> actor_spec" where
  "to_spec t cancellation =
     \<lparr>spec_id = tpl_id t, spec_session_id = tpl_session_id t, spec_project_id = tpl_project_id t,
      spec_role = tpl_role t, spec_task = tpl_task t, spec_mode = tpl_mode t,
      spec_grants = tpl_grants t, spec_budget = tpl_budget t, spec_parent = tpl_parent t,
      spec_depth = tpl_depth t, spec_cancellation = cancellation\<rparr>"

definition remember_restart_spec :: "actor_spec \<Rightarrow> 'ch mailbox_registry \<Rightarrow> 'ch mailbox_registry" where
  "remember_restart_spec spec r =
     (let supervisor_id =
            supervisor_id_for_actor (spec_session_id spec) (spec_id spec) (spec_parent spec) r
      in r\<lparr>restart_templates :=
             (restart_templates r)((spec_session_id spec, spec_id spec) \<mapsto> from_spec spec supervisor_id)\<rparr>)"

definition restarted_record :: "actor_restart_template \<Rightarrow> actor_id \<Rightarrow> timestamp \<Rightarrow> actor_record" where
  "restarted_record template a at =
     \<lparr>rec_id = a, parent = tpl_parent template, status = Running, mode = Some (tpl_role template),
      budget = tpl_budget template, spawned_at = at, completed_at = None, cancelled = False,
      rec_failure_reason = None, artifact_uri = None, history_uri = None\<rparr>"

definition prepare_actor_restart_for_session ::
    "'ch channel_ops \<Rightarrow> string \<Rightarrow> actor_id \<Rightarrow> 'ch mailbox_registry \<Rightarrow>
     actor_spec option \<times> 'ch mailbox_registry" where
  "prepare_actor_restart_for_session ops session a r =
     (case restart_templates r (session, a) of
        None \<Rightarrow> (None, r)
      | Some template \<Rightarrow>
          let key = (session, a);
              (t, r1) = token_new r;
              r2 = r1\<lparr>cancel_tokens := (cancel_tokens r1)(key \<mapsto> t),
                      actor_supervisors := (actor_supervisors r1)(key \<mapsto> tpl_supervisor_id template),
                      inboxes := (inboxes r1)(key \<mapsto> inbox_new ops)\<rparr>;
              (at, r3) = utc_now r2;
              entry = (case get_for_session session a r3 of
                         Some rec \<Rightarrow> rec
                       | None \<Rightarrow> restarted_record template a at);
              r4 = put_actor session a
                     (entry\<lparr>parent := tpl_parent template, status := Running,
                            mode := Some (tpl_role template), budget := tpl_budget template,
                            spawned_at := at, completed_at := None, cancelled := False,
                            rec_failure_reason := None, artifact_uri := None, history_uri := None\<rparr>) r3;
              skey = (session, tpl_supervisor_id template);
              r5 = r4\<lparr>supervisors := (supervisors r4)(skey \<mapsto> track (entry_supervisor skey r4) a)\<rparr>;
              r6 = emit_lifecycle (tpl_session_id template) (StatusChanged a Running at) r5;
              r7 = emit_lifecycle (tpl_session_id template)
                     (Spawned a (tpl_parent template) (tpl_role template) (tpl_task template)
                       (tpl_depth template) (tpl_budget template) at) r6
          in (Some (to_spec template t), r7))"

subsection \<open>Messages\<close>

definition store_transcript_for_session ::
    "regex_engine \<Rightarrow> string \<Rightarrow> actor_id \<Rightarrow> string \<Rightarrow> 'ch mailbox_registry \<Rightarrow> 'ch mailbox_registry" where
  "store_transcript_for_session rx session a content r =
     r\<lparr>transcripts :=
         (transcripts r)((session, a) \<mapsto> report_text (redact_dream_text rx content))\<rparr>"

definition get_transcript_for_session :: "string \<Rightarrow> actor_id \<Rightarrow> 'ch mailbox_registry \<Rightarrow> string option" where
  "get_transcript_for_session session a r = transcripts r (session, a)"

definition record_message_for_session ::
    "string \<Rightarrow> actor_message \<Rightarrow> 'ch mailbox_registry \<Rightarrow> (registry_error + unit) \<times> 'ch mailbox_registry" where
  "record_message_for_session session m r =
     (let (res, l) = log_message session m (messages r) in (res, r\<lparr>messages := l\<rparr>))"

definition ensure_inbox ::
    "'ch channel_ops \<Rightarrow> string \<Rightarrow> actor_id \<Rightarrow> 'ch mailbox_registry \<Rightarrow> 'ch actor_inbox \<times> 'ch mailbox_registry" where
  "ensure_inbox ops session a r =
     (case inboxes r (session, a) of
        Some i \<Rightarrow> (i, r)
      | None \<Rightarrow> (inbox_new ops, r\<lparr>inboxes := (inboxes r)((session, a) \<mapsto> inbox_new ops)\<rparr>))"

definition put_inbox ::
    "string \<Rightarrow> actor_id \<Rightarrow> 'ch actor_inbox \<Rightarrow> 'ch mailbox_registry \<Rightarrow> 'ch mailbox_registry" where
  "put_inbox session a i r = r\<lparr>inboxes := (inboxes r)((session, a) \<mapsto> i)\<rparr>"

definition is_reachable :: "string \<Rightarrow> actor_id \<Rightarrow> 'ch mailbox_registry \<Rightarrow> bool" where
  "is_reachable session a r =
     (if as_str a = ''Root'' then True
      else (case get_for_session session a r of Some rec \<Rightarrow> is_live_status (status rec) | None \<Rightarrow> False))"

definition send_message_for_session ::
    "'ch channel_ops \<Rightarrow> string \<Rightarrow> actor_message \<Rightarrow> 'ch mailbox_registry \<Rightarrow>
     (registry_error + receipt) \<times> 'ch mailbox_registry" where
  "send_message_for_session ops session m r =
     (case validate_message m of
        Inl e \<Rightarrow> (Inl (InvalidText e), r)
      | Inr _ \<Rightarrow>
          if \<not> is_reachable session (msg_to m) r then (Inr Unreachable, r)
          else
            let (i, r1) = ensure_inbox ops session (msg_to m) r;
                bytes = message_bytes m
            in (case try_reserve bytes i of
                  None \<Rightarrow> (Inr Backpressured, r1)
                | Some i1 \<Rightarrow>
                    (case chan_try_send ops (channel i1) m of
                       (Sent, c) \<Rightarrow>
                         let i2 = touch (msg_sent_at m) (mark_delivered_to_inbox (i1\<lparr>channel := c\<rparr>));
                             r2 = put_inbox session (msg_to m) i2 r1
                         in (Inr Delivered, snd (record_message_for_session session m r2))
                     | (ChannelFull, c) \<Rightarrow>
                         (Inr Backpressured,
                          put_inbox session (msg_to m) (release bytes (i1\<lparr>channel := c\<rparr>)) r1)
                     | (ChannelClosed, c) \<Rightarrow>
                         (Inr Unreachable,
                          put_inbox session (msg_to m) (release bytes (i1\<lparr>channel := c\<rparr>)) r1))))"

definition drain_inbox_for_session ::
    "'ch channel_ops \<Rightarrow> string \<Rightarrow> actor_id \<Rightarrow> actor_id option \<Rightarrow> 'ch mailbox_registry \<Rightarrow>
     (actor_message list \<times> 'ch mailbox_registry) option" where
  "drain_inbox_for_session ops session a from r =
     (let (i, r1) = ensure_inbox ops session a r
      in map_option (\<lambda>(ms, i'). (ms, put_inbox session a i' r1)) (drain ops from i))"

definition wait_for_message_for_session ::
    "'ch channel_ops \<Rightarrow> string \<Rightarrow> actor_id \<Rightarrow> actor_id option \<Rightarrow> nat \<Rightarrow> nat \<Rightarrow> 'ch mailbox_registry \<Rightarrow>
     (actor_message option \<times> 'ch mailbox_registry) option" where
  "wait_for_message_for_session ops session a from timeout now r =
     (let (i, r1) = ensure_inbox ops session a r
      in map_option (\<lambda>(m, i'). (m, put_inbox session a i' r1)) (wait ops from timeout now i))"

definition unread_count_for_session :: "string \<Rightarrow> actor_id \<Rightarrow> 'ch mailbox_registry \<Rightarrow> nat" where
  "unread_count_for_session session a r =
     (case inboxes r (session, a) of None \<Rightarrow> 0 | Some i \<Rightarrow> unat (unread i))"

definition last_activity_for_session :: "string \<Rightarrow> actor_id \<Rightarrow> 'ch mailbox_registry \<Rightarrow> timestamp option" where
  "last_activity_for_session session a r =
     (case inboxes r (session, a) of None \<Rightarrow> None | Some i \<Rightarrow> last_activity i)"

definition messages_for_session :: "string \<Rightarrow> 'ch mailbox_registry \<Rightarrow> actor_message list" where
  "messages_for_session session r =
     map logged_msg (filter (\<lambda>e. logged_session_id e = session) (entries (messages r)))"

end
