(* ===== verification/Actor_Tree.thy ===== *)
theory Actor_Tree
  imports Registry
begin

text \<open>
  The actor tree of a session: the walks of \<open>cancellation.rs\<close> up the parent chain and down the
  children compute the ancestor relation, also when the recorded parents form a cycle.
\<close>

definition parent_of :: "(actor_key \<times> actor_record) list \<Rightarrow> string \<Rightarrow> actor_id \<Rightarrow> actor_id \<Rightarrow> bool" where
  "parent_of as session a p \<longleftrightarrow> (\<exists>rec. map_of as (session, a) = Some rec \<and> parent rec = Some p)"

lemma parent_of_unique: "parent_of as session a p \<Longrightarrow> parent_of as session a q \<Longrightarrow> p = q"
  by (auto simp: parent_of_def)

subsection \<open>Up the parent chain\<close>

lemma descendant_loop_correct:
  assumes "\<forall>x \<in> set seen. \<not> parent_of as session x ancestor"
    and "\<forall>x \<in> set seen. \<forall>p. parent_of as session x p \<longrightarrow> p \<in> set (current # seen)"
  shows "descendant_loop as session ancestor seen current \<longleftrightarrow>
    (parent_of as session)\<^sup>+\<^sup>+ current ancestor"
  using assms
proof (induction as session ancestor seen current rule: descendant_loop.induct)
  case (1 as session ancestor seen current)
  show ?case
  proof (cases "current \<in> set seen")
    case True
    have "x \<in> set seen" if "(parent_of as session)\<^sup>*\<^sup>* current x" for x
      using that True "1.prems"(2) by (induction rule: rtranclp_induct) auto
    note inside = this
    have "\<not> (parent_of as session)\<^sup>+\<^sup>+ current ancestor"
    proof
      assume "(parent_of as session)\<^sup>+\<^sup>+ current ancestor"
      then obtain y where "(parent_of as session)\<^sup>*\<^sup>* current y" "parent_of as session y ancestor"
        by cases (auto dest: tranclp_into_rtranclp)
      with inside "1.prems"(1) show False by blast
    qed
    with True show ?thesis by (simp add: descendant_loop.simps)
  next
    case False
    show ?thesis
    proof (cases "\<exists>p. parent_of as session current p")
      case no_parent: False
      then have "\<not> (parent_of as session)\<^sup>+\<^sup>+ current ancestor" by (auto dest: tranclpD)
      moreover have "parent rec = None" if "map_of as (session, current) = Some rec" for rec
        using no_parent that by (auto simp: parent_of_def)
      ultimately show ?thesis
        using False by (auto simp: descendant_loop.simps [of as session ancestor seen] split: option.split)
    next
      case True
      then obtain rec p where p: "map_of as (session, current) = Some rec" "parent rec = Some p"
        by (auto simp: parent_of_def)
      then have up: "parent_of as session current p" by (simp add: parent_of_def)
      show ?thesis
      proof (cases "p = ancestor")
        case True
        with False p up show ?thesis by (auto simp: descendant_loop.simps [of as session ancestor seen])
      next
        case other: False
        have "\<forall>x \<in> set (current # seen). \<not> parent_of as session x ancestor"
          using "1.prems"(1) other parent_of_unique [OF up] by auto
        moreover have "\<forall>x \<in> set (current # seen). \<forall>q. parent_of as session x q \<longrightarrow> q \<in> set (p # current # seen)"
          using "1.prems"(2) parent_of_unique [OF up] by auto
        ultimately have "descendant_loop as session ancestor (current # seen) p \<longleftrightarrow>
            (parent_of as session)\<^sup>+\<^sup>+ p ancestor"
          by (rule "1.IH" [OF False p other])
        moreover have "(parent_of as session)\<^sup>+\<^sup>+ p ancestor \<longleftrightarrow> (parent_of as session)\<^sup>+\<^sup>+ current ancestor"
        proof
          assume "(parent_of as session)\<^sup>+\<^sup>+ current ancestor"
          then obtain q where "parent_of as session current q" "(parent_of as session)\<^sup>*\<^sup>* q ancestor"
            by (blast dest: tranclpD)
          with up other show "(parent_of as session)\<^sup>+\<^sup>+ p ancestor"
            by (auto dest: parent_of_unique rtranclpD)
        qed (use up in \<open>rule tranclp_into_tranclp2\<close>)
        ultimately show ?thesis
          using False p other by (simp add: descendant_loop.simps [of as session ancestor seen])
      qed
    qed
  qed
qed

text \<open>C32. The guard against waiting on oneself is exact: apart from the top-level \<open>Root\<close>, an actor is
  refused a target exactly when the target is the actor itself or has it among its recorded ancestors
  in the same session. The walk ends on every roster, cyclic parent chains included.\<close>

theorem would_wait_on_descendant_iff:
  "would_wait_on_descendant_for_session session waiter target r \<longleftrightarrow>
     as_str waiter \<noteq> ''Root'' \<and> (parent_of (actors r) session)\<^sup>*\<^sup>* target waiter"
proof -
  have "is_descendant_of_for_session session target waiter r \<longleftrightarrow>
      (parent_of (actors r) session)\<^sup>+\<^sup>+ target waiter"
    unfolding is_descendant_of_for_session_def by (rule descendant_loop_correct) simp_all
  then show ?thesis
    by (auto simp: would_wait_on_descendant_for_session_def dest: rtranclpD tranclp_into_rtranclp)
qed

subsection \<open>Down the children\<close>

definition roster_wf :: "(actor_key \<times> actor_record) list \<Rightarrow> bool" where
  "roster_wf as \<longleftrightarrow> distinct (map fst as)
     \<and> (\<forall>key rec. map_of as key = Some rec \<longrightarrow> rec_id rec = snd key)"

lemma set_spawned_children_wf:
  assumes "roster_wf as"
  shows "set (spawned_children as session p) = {c. parent_of as session c p}"
proof -
  have "(key, rec) \<in> set as \<longleftrightarrow> map_of as key = Some rec" for key rec
    using assms by (simp add: roster_wf_def)
  with assms show ?thesis by (fastforce simp: set_spawned_children parent_of_def roster_wf_def)
qed

lemma subtree_loop_contains: "set ordered \<union> set pending \<subseteq> set (subtree_loop as session ordered pending)"
  by (induction as session ordered pending rule: subtree_loop.induct) auto

lemma subtree_loop_distinct: "distinct ordered \<Longrightarrow> distinct (subtree_loop as session ordered pending)"
  by (induction as session ordered pending rule: subtree_loop.induct) auto

lemma subtree_loop_prefix: "\<exists>more. subtree_loop as session ordered pending = ordered @ more"
  by (induction as session ordered pending rule: subtree_loop.induct) auto

lemma subtree_loop_closed:
  assumes "\<forall>x \<in> set ordered. set (spawned_children as session x) \<subseteq> set ordered \<union> set pending"
  shows "\<forall>x \<in> set (subtree_loop as session ordered pending).
    set (spawned_children as session x) \<subseteq> set (subtree_loop as session ordered pending)"
  using assms
proof (induction as session ordered pending rule: subtree_loop.induct)
  case (2 as session ordered current pending)
  show ?case
  proof (cases "current \<in> set ordered")
    case True
    then have "set ordered \<union> set (current # pending) = set ordered \<union> set pending" by auto
    with 2 True show ?thesis by simp
  next
    case False
    have "\<forall>x \<in> set (ordered @ [current]). set (spawned_children as session x) \<subseteq>
        set (ordered @ [current]) \<union> set (pending @ spawned_children as session current)"
      using "2.prems" by fastforce
    with "2.IH"(2) [OF False] False show ?thesis by simp
  qed
qed simp

lemma subtree_loop_only:
  assumes "\<And>x c. Q x \<Longrightarrow> c \<in> set (spawned_children as session x) \<Longrightarrow> Q c"
    and "\<forall>x \<in> set ordered \<union> set pending. Q x"
  shows "\<forall>x \<in> set (subtree_loop as session ordered pending). Q x"
  using assms
proof (induction as session ordered pending rule: subtree_loop.induct)
  case (2 as session ordered current pending)
  have more: "\<forall>x \<in> set (ordered @ [current]) \<union> set (pending @ spawned_children as session current). Q x"
    using "2.prems" by auto
  show ?case
  proof (cases "current \<in> set ordered")
    case True
    have "\<forall>x \<in> set ordered \<union> set pending. Q x" using "2.prems"(2) by auto
    from "2.IH"(1) [OF True "2.prems"(1) this] True show ?thesis by simp
  next
    case False
    from "2.IH"(2) [OF False "2.prems"(1) more] False show ?thesis by simp
  qed
qed auto

lemma subtree_loop_root:
  assumes "roster_wf as"
  shows "set (subtree_loop as session [] [root]) = {x. (parent_of as session)\<^sup>*\<^sup>* x root}"
proof
  show "set (subtree_loop as session [] [root]) \<subseteq> {x. (parent_of as session)\<^sup>*\<^sup>* x root}"
  proof -
    have "(parent_of as session)\<^sup>*\<^sup>* c root"
      if "(parent_of as session)\<^sup>*\<^sup>* x root" "c \<in> set (spawned_children as session x)" for x c
      using that by (simp add: set_spawned_children_wf [OF assms] converse_rtranclp_into_rtranclp)
    then have "\<forall>x \<in> set (subtree_loop as session [] [root]). (parent_of as session)\<^sup>*\<^sup>* x root"
      by (rule subtree_loop_only) simp_all
    then show ?thesis by blast
  qed
next
  have "x \<in> set (subtree_loop as session [] [root])" if "(parent_of as session)\<^sup>*\<^sup>* x root" for x
    using that
  proof (induction rule: converse_rtranclp_induct)
    case base
    then show ?case using subtree_loop_contains [of "[]" "[root]"] by fastforce
  next
    case (step y z)
    then show ?case
      using subtree_loop_closed [of "[]" as session "[root]"] set_spawned_children_wf [OF assms] by auto
  qed
  then show "{x. (parent_of as session)\<^sup>*\<^sup>* x root} \<subseteq> set (subtree_loop as session [] [root])" by blast
qed

end
