(* ===== verification/Registry_Inv.thy ===== *)
theory Registry_Inv
  imports Actor_Tree
begin

text \<open>
  The invariant of the session registry, that every operation keeps it, what cancellation guarantees,
  and that the operations of one session leave the other sessions alone.
\<close>

subsection \<open>The invariant\<close>

text \<open>Tokens are never shared between actors, every tracked actor has one, and the token of an actor
  that is recorded as cancelled is cancelled.\<close>

definition tokens_inv :: "'ch mailbox_registry \<Rightarrow> bool" where
  "tokens_inv r \<longleftrightarrow>
     (\<forall>k t. cancel_tokens r k = Some t \<longrightarrow> t < next_token r)
   \<and> (\<forall>k k' t. cancel_tokens r k = Some t \<and> cancel_tokens r k' = Some t \<longrightarrow> k = k')
   \<and> (\<forall>k rec. map_of (actors r) k = Some rec \<longrightarrow>
        (\<exists>t. cancel_tokens r k = Some t \<and> (cancelled rec \<longrightarrow> token_flags r t)))"

lemma tokens_invI:
  assumes "\<And>k t. cancel_tokens r k = Some t \<Longrightarrow> t < next_token r"
    and "\<And>k k' t. cancel_tokens r k = Some t \<Longrightarrow> cancel_tokens r k' = Some t \<Longrightarrow> k = k'"
    and "\<And>k rec. map_of (actors r) k = Some rec \<Longrightarrow>
      \<exists>t. cancel_tokens r k = Some t \<and> (cancelled rec \<longrightarrow> token_flags r t)"
  shows "tokens_inv r"
  unfolding tokens_inv_def using assms by blast

lemma tokens_invD:
  assumes "tokens_inv r"
  shows "cancel_tokens r k = Some t \<Longrightarrow> t < next_token r"
    and "cancel_tokens r k = Some t \<Longrightarrow> cancel_tokens r k' = Some t \<Longrightarrow> k = k'"
    and "map_of (actors r) k = Some rec \<Longrightarrow> \<exists>t. cancel_tokens r k = Some t \<and> (cancelled rec \<longrightarrow> token_flags r t)"
  using assms unfolding tokens_inv_def by blast+

definition registry_inv ::
    "('ch \<Rightarrow> actor_message list) \<Rightarrow> ('ch \<Rightarrow> nat) \<Rightarrow> 'ch mailbox_registry \<Rightarrow> bool" where
  "registry_inv queue cap r \<longleftrightarrow>
     roster_wf (actors r) \<and> tokens_inv r \<and> log_inv (messages r)
   \<and> (\<forall>k i. inboxes r k = Some i \<longrightarrow> inbox_inv queue cap i)
   \<and> (\<forall>k s. supervisors r k = Some s \<longrightarrow> distinct (children s))"

lemma roster_wf_update [inv_intros]:
  "roster_wf as \<Longrightarrow> rec_id rec = snd key \<Longrightarrow> roster_wf (AList.update key rec as)"
  by (cases key) (auto simp: roster_wf_def distinct_update update_conv')

lemma actors_put [simp]:
  "map_of (actors (put_actor session a rec r)) = (map_of (actors r))((session, a) \<mapsto> rec)"
  by (simp add: put_actor_def update_conv')

lemma put_actor_frame [frame_simps]:
  "inboxes (put_actor session a rec r) = inboxes r"
  "cancel_tokens (put_actor session a rec r) = cancel_tokens r"
  "messages (put_actor session a rec r) = messages r"
  "transcripts (put_actor session a rec r) = transcripts r"
  "restart_templates (put_actor session a rec r) = restart_templates r"
  "actor_supervisors (put_actor session a rec r) = actor_supervisors r"
  "supervisors (put_actor session a rec r) = supervisors r"
  "token_flags (put_actor session a rec r) = token_flags r"
  "next_token (put_actor session a rec r) = next_token r"
  by (simp_all add: put_actor_def)

text \<open>The observable part of a registry: everything but the clock, the emitted events and the id
  counters. Two registries that agree on it satisfy the invariant together.\<close>

definition same_state :: "'ch mailbox_registry \<Rightarrow> 'ch mailbox_registry \<Rightarrow> bool" where
  "same_state r r' \<longleftrightarrow>
     actors r' = actors r \<and> inboxes r' = inboxes r \<and> cancel_tokens r' = cancel_tokens r
   \<and> messages r' = messages r \<and> transcripts r' = transcripts r
   \<and> restart_templates r' = restart_templates r \<and> actor_supervisors r' = actor_supervisors r
   \<and> supervisors r' = supervisors r \<and> token_flags r' = token_flags r \<and> next_token r' = next_token r"

lemma same_state_ops [simp]:
  "same_state r (emit_lifecycle session e r)" "same_state r (snd (utc_now r))"
  "same_state r (set_lifecycle_hook r)" "same_state r (snd (next_actor_id u role r))"
  "same_state r (snd (next_supervisor_id u label r))"
  by (simp_all add: same_state_def emit_lifecycle_def utc_now_def set_lifecycle_hook_def
      next_actor_id_def next_supervisor_id_def Let_def)

lemma emit_lifecycle_frame [frame_simps]:
  "actors (emit_lifecycle session e r) = actors r"
  "inboxes (emit_lifecycle session e r) = inboxes r"
  "cancel_tokens (emit_lifecycle session e r) = cancel_tokens r"
  "messages (emit_lifecycle session e r) = messages r"
  "transcripts (emit_lifecycle session e r) = transcripts r"
  "restart_templates (emit_lifecycle session e r) = restart_templates r"
  "actor_supervisors (emit_lifecycle session e r) = actor_supervisors r"
  "supervisors (emit_lifecycle session e r) = supervisors r"
  "token_flags (emit_lifecycle session e r) = token_flags r"
  "next_token (emit_lifecycle session e r) = next_token r"
  by (simp_all add: emit_lifecycle_def)

lemma utc_now_frame [frame_simps]:
  "actors (snd (utc_now r)) = actors r"
  "inboxes (snd (utc_now r)) = inboxes r"
  "cancel_tokens (snd (utc_now r)) = cancel_tokens r"
  "messages (snd (utc_now r)) = messages r"
  "transcripts (snd (utc_now r)) = transcripts r"
  "restart_templates (snd (utc_now r)) = restart_templates r"
  "actor_supervisors (snd (utc_now r)) = actor_supervisors r"
  "supervisors (snd (utc_now r)) = supervisors r"
  "token_flags (snd (utc_now r)) = token_flags r"
  "next_token (snd (utc_now r)) = next_token r"
  by (simp_all add: utc_now_def)

lemma registry_inv_same: "same_state r r' \<Longrightarrow> registry_inv queue cap r \<Longrightarrow> registry_inv queue cap r'"
  by (simp add: same_state_def registry_inv_def tokens_inv_def)

subsection \<open>Tokens\<close>

lemma ensure_cancel_token_frame [frame_simps]:
  "actors (snd (ensure_cancel_token session a r)) = actors r"
  "inboxes (snd (ensure_cancel_token session a r)) = inboxes r"
  "messages (snd (ensure_cancel_token session a r)) = messages r"
  "transcripts (snd (ensure_cancel_token session a r)) = transcripts r"
  "restart_templates (snd (ensure_cancel_token session a r)) = restart_templates r"
  "actor_supervisors (snd (ensure_cancel_token session a r)) = actor_supervisors r"
  "supervisors (snd (ensure_cancel_token session a r)) = supervisors r"
  by (simp_all add: ensure_cancel_token_def token_new_def split: option.split)

lemma cancel_session_token_frame [frame_simps]:
  "actors (cancel_session_token session a r) = actors r"
  "inboxes (cancel_session_token session a r) = inboxes r"
  "messages (cancel_session_token session a r) = messages r"
  "transcripts (cancel_session_token session a r) = transcripts r"
  "restart_templates (cancel_session_token session a r) = restart_templates r"
  "actor_supervisors (cancel_session_token session a r) = actor_supervisors r"
  "supervisors (cancel_session_token session a r) = supervisors r"
  by (simp_all add: cancel_session_token_def cancel_token_for_session_def ensure_cancel_token_def
      token_new_def token_cancel_def split: option.split)

lemma cancel_session_token_put:
  "cancel_session_token session a (put_actor session' b rec r) =
     put_actor session' b rec (cancel_session_token session a r)"
  by (simp add: cancel_session_token_def cancel_token_for_session_def ensure_cancel_token_def
      token_new_def token_cancel_def put_actor_def split: option.split)

text \<open>Giving an actor a new token keeps the invariant as long as the actor is not recorded as
  cancelled.\<close>

lemma tokens_inv_fresh:
  assumes inv: "tokens_inv r"
    and r': "next_token r' = Suc (next_token r)" "token_flags r' = (token_flags r)(next_token r := False)"
      "cancel_tokens r' = (cancel_tokens r)(key \<mapsto> next_token r)"
    and recs: "\<And>k rec. map_of (actors r') k = Some rec \<Longrightarrow>
      (if k = key then \<not> cancelled rec else map_of (actors r) k = Some rec)"
  shows "tokens_inv r'"
proof (rule tokens_invI)
  note lt = tokens_invD(1) [OF inv]
  fix k k' t
  show "k = k'" if "cancel_tokens r' k = Some t" "cancel_tokens r' k' = Some t"
    using lt [of k t] lt [of k' t] tokens_invD(2) [OF inv, of k t k'] that
    unfolding r' by (auto split: if_splits)
  show "t < next_token r'" if "cancel_tokens r' k = Some t"
    using lt [of k t] that unfolding r' by (auto split: if_splits)
  fix rec assume rec: "map_of (actors r') k = Some rec"
  show "\<exists>t. cancel_tokens r' k = Some t \<and> (cancelled rec \<longrightarrow> token_flags r' t)"
  proof (cases "k = key")
    case True
    with recs [OF rec] show ?thesis by (simp add: r')
  next
    case False
    with recs [OF rec] have "map_of (actors r) k = Some rec" by simp
    from tokens_invD(3) [OF inv this] obtain t where
      t: "cancel_tokens r k = Some t" "cancelled rec \<longrightarrow> token_flags r t" by blast
    moreover have "t \<noteq> next_token r" using lt [OF t(1)] by simp
    ultimately show ?thesis using False by (simp add: r')
  qed
qed

lemma tokens_inv_tracked:
  "tokens_inv r \<Longrightarrow> cancel_tokens r k = None \<Longrightarrow> map_of (actors r) k = None"
  by (cases "map_of (actors r) k") (auto dest: tokens_invD(3))

lemma registry_inv_ensure_token [inv_intros]:
  assumes "registry_inv queue cap r"
  shows "registry_inv queue cap (snd (ensure_cancel_token session a r))"
proof (cases "cancel_tokens r (session, a)")
  case None
  have inv: "tokens_inv r" using assms by (simp add: registry_inv_def)
  have "tokens_inv (snd (ensure_cancel_token session a r))"
    by (rule tokens_inv_fresh [OF inv, where key = "(session, a)"])
      (use None tokens_inv_tracked [OF inv None] in
        \<open>auto simp: ensure_cancel_token_def token_new_def split: if_splits\<close>)
  with assms show ?thesis by (simp add: registry_inv_def frame_simps)
qed (use assms in \<open>simp add: ensure_cancel_token_def\<close>)

lemma registry_inv_token_cancel [inv_intros]:
  assumes "registry_inv queue cap r"
  shows "registry_inv queue cap (token_cancel t r)"
proof -
  have inv: "tokens_inv r" using assms by (simp add: registry_inv_def)
  have "tokens_inv (token_cancel t r)"
    by (rule tokens_invI) (auto simp: token_cancel_def dest: tokens_invD [OF inv])
  with assms show ?thesis by (simp add: registry_inv_def token_cancel_def)
qed

lemma registry_inv_cancel_token [inv_intros]:
  "registry_inv queue cap r \<Longrightarrow> registry_inv queue cap (cancel_session_token session a r)"
  by (simp add: cancel_session_token_def cancel_token_for_session_def split_beta inv_intros)

lemma cancel_session_token_cancels: "is_cancelled_for_session session a (cancel_session_token session a r)"
  by (simp add: is_cancelled_for_session_def cancel_session_token_def cancel_token_for_session_def
      ensure_cancel_token_def token_new_def token_cancel_def split: option.split)

lemma registry_inv_put_actor [inv_intros]:
  assumes "registry_inv queue cap r" "rec_id rec = a" "cancel_tokens r (session, a) \<noteq> None"
    and "cancelled rec \<Longrightarrow> is_cancelled_for_session session a r"
  shows "registry_inv queue cap (put_actor session a rec r)"
proof -
  have "roster_wf (actors (put_actor session a rec r))"
    using assms(1,2) by (simp add: registry_inv_def put_actor_def roster_wf_update)
  moreover have "tokens_inv (put_actor session a rec r)"
  proof (rule tokens_invI)
    have inv: "tokens_inv r" using assms(1) by (simp add: registry_inv_def)
    fix k k' t rec'
    show "cancel_tokens (put_actor session a rec r) k = Some t \<Longrightarrow> t < next_token (put_actor session a rec r)"
      by (simp add: frame_simps tokens_invD(1) [OF inv])
    show "cancel_tokens (put_actor session a rec r) k = Some t \<Longrightarrow>
        cancel_tokens (put_actor session a rec r) k' = Some t \<Longrightarrow> k = k'"
      by (simp add: frame_simps tokens_invD(2) [OF inv])
    show "map_of (actors (put_actor session a rec r)) k = Some rec' \<Longrightarrow>
        \<exists>t. cancel_tokens (put_actor session a rec r) k = Some t
          \<and> (cancelled rec' \<longrightarrow> token_flags (put_actor session a rec r) t)"
      using assms(3,4) tokens_invD(3) [OF inv, of k rec']
      by (auto simp: frame_simps is_cancelled_for_session_def split: if_splits)
  qed
  ultimately show ?thesis using assms(1) by (simp add: registry_inv_def frame_simps)
qed

subsection \<open>Every operation keeps the invariant\<close>

lemma registry_inv_supervisors [inv_intros]:
  "registry_inv queue cap r \<Longrightarrow> distinct (children s) \<Longrightarrow>
   registry_inv queue cap (r\<lparr>supervisors := (supervisors r)(k \<mapsto> s)\<rparr>)"
  by (auto simp: registry_inv_def tokens_inv_def)

lemma entry_supervisor_distinct:
  "registry_inv queue cap r \<Longrightarrow> distinct (children (entry_supervisor k r))"
  by (cases k) (auto simp: registry_inv_def entry_supervisor_def default_supervisor_def
      supervisor_new_def split: option.split)

lemma registry_inv_actor_supervisors [inv_intros]:
  "registry_inv queue cap r \<Longrightarrow> registry_inv queue cap (r\<lparr>actor_supervisors := m\<rparr>)"
  by (simp add: registry_inv_def tokens_inv_def)

lemma registry_inv_inboxes [inv_intros]:
  "registry_inv queue cap r \<Longrightarrow> inbox_inv queue cap i \<Longrightarrow>
   registry_inv queue cap (r\<lparr>inboxes := (inboxes r)(k \<mapsto> i)\<rparr>)"
  by (auto simp: registry_inv_def tokens_inv_def)

lemma inbox_inv_new [inv_intros]: "fifo_channel ops queue cap \<Longrightarrow> inbox_inv queue cap (inbox_new ops)"
  by (simp add: inbox_inv_def inbox_new_def contents_def counts_def fifo_channelD(1,2))

lemma registry_inv_new [inv_intros]: "registry_inv queue cap (registry_new clk)"
  by (simp add: registry_inv_def registry_new_def roster_wf_def tokens_inv_def log_inv_def
      default_message_log_def)

lemma registry_inv_emit [inv_intros]:
  "registry_inv queue cap r \<Longrightarrow> registry_inv queue cap (emit_lifecycle session e r)"
  by (rule registry_inv_same [of r]) simp_all

lemma registry_inv_now [inv_intros]:
  "registry_inv queue cap r \<Longrightarrow> registry_inv queue cap (snd (utc_now r))"
  by (rule registry_inv_same [of r]) simp_all

lemma rec_id_of_key:
  "registry_inv queue cap r \<Longrightarrow> map_of (actors r) (session, a) = Some rec \<Longrightarrow> rec_id rec = a"
  by (auto simp: registry_inv_def roster_wf_def)

lemma token_of_key:
  "registry_inv queue cap r \<Longrightarrow> map_of (actors r) k = Some rec \<Longrightarrow> cancel_tokens r k \<noteq> None"
  by (auto simp: registry_inv_def dest: tokens_invD(3))

text \<open>Changing the record of a tracked actor, and marking one as cancelled with its token.\<close>

lemma registry_inv_edit:
  assumes "registry_inv queue cap r" "map_of (actors r) (session, a) = Some rec"
    and "rec_id rec' = rec_id rec" "cancelled rec' \<Longrightarrow> cancelled rec"
  shows "registry_inv queue cap (put_actor session a rec' r)"
proof (rule registry_inv_put_actor [OF assms(1)])
  show "rec_id rec' = a" using assms rec_id_of_key by metis
  show "cancel_tokens r (session, a) \<noteq> None" using assms(1,2) by (rule token_of_key)
  assume "cancelled rec'"
  moreover have "tokens_inv r" using assms(1) by (simp add: registry_inv_def)
  ultimately show "is_cancelled_for_session session a r"
    using assms(2,4) tokens_invD(3) by (fastforce simp: is_cancelled_for_session_def)
qed

lemma cancel_session_token_has: "cancel_tokens (cancel_session_token session a r) (session, a) \<noteq> None"
  using cancel_session_token_cancels [of session a r]
  by (auto simp: is_cancelled_for_session_def split: option.splits)

lemma registry_inv_cancel_edit:
  assumes "registry_inv queue cap r" "map_of (actors r) (session, a) = Some rec" "rec_id rec' = rec_id rec"
  shows "registry_inv queue cap (cancel_session_token session a (put_actor session a rec' r))"
  unfolding cancel_session_token_put
  by (rule registry_inv_put_actor)
    (use assms rec_id_of_key cancel_session_token_has cancel_session_token_cancels in
      \<open>auto intro: inv_intros\<close>)

lemma registry_inv_cancel_actor [inv_intros]:
  assumes "registry_inv queue cap r"
  shows "registry_inv queue cap (snd (cancel_actor session a r))"
proof (cases "map_of (actors r) (session, a)")
  case None
  then show ?thesis using assms
    by (simp add: cancel_actor_def Let_def split_beta get_for_session_def frame_simps inv_intros)
next
  case (Some rec)
  have now: "registry_inv queue cap (snd (utc_now r))"
    "map_of (actors (snd (utc_now r))) (session, a) = Some rec"
    using assms Some by (simp_all add: frame_simps inv_intros)
  show ?thesis
    by (simp add: cancel_actor_def Let_def split_beta get_for_session_def now Some frame_simps inv_intros
        registry_inv_cancel_edit [OF now])
qed

lemma registry_inv_cancel_each [inv_intros]:
  "registry_inv queue cap r \<Longrightarrow> registry_inv queue cap (snd (cancel_each session as r))"
  by (induction as arbitrary: r) (simp_all add: split_beta registry_inv_cancel_actor)

lemma registry_inv_cancel_subtree [inv_intros]:
  "registry_inv queue cap r \<Longrightarrow> registry_inv queue cap (snd (cancel_actor_subtree session a r))"
  by (simp add: cancel_actor_subtree_def inv_intros)

lemma ensure_cancel_token_put:
  "snd (ensure_cancel_token session a (put_actor session' b rec r)) =
     put_actor session' b rec (snd (ensure_cancel_token session a r))"
  by (simp add: ensure_cancel_token_def token_new_def put_actor_def split: option.split)

lemma inboxes_put:
  "(put_actor session a rec r)\<lparr>inboxes := m\<rparr> = put_actor session a rec (r\<lparr>inboxes := m\<rparr>)"
  by (simp add: put_actor_def)

lemma ensure_cancel_token_has: "cancel_tokens (snd (ensure_cancel_token session a r)) (session, a) \<noteq> None"
  by (simp add: ensure_cancel_token_def token_new_def split: option.split)

lemma registry_inv_track_one:
  assumes fifo: "fifo_channel ops queue cap" and inv: "registry_inv queue cap r" and "\<not> cancelled rec"
  shows "registry_inv queue cap (track_one ops session (rec, sid) r)"
proof -
  let ?key = "(session, rec_id rec)"
  let ?put = "put_actor session (rec_id rec) rec"
  define r2 where "r2 = (case inboxes r ?key of
      Some _ \<Rightarrow> r | None \<Rightarrow> r\<lparr>inboxes := (inboxes r)(?key \<mapsto> inbox_new ops)\<rparr>)"
  define r3 where "r3 = snd (ensure_cancel_token session (rec_id rec) (?put r2))"
  have "registry_inv queue cap r2"
    using inv registry_inv_inboxes [OF inv inbox_inv_new [OF fifo]] by (simp add: r2_def split: option.split)
  then have "registry_inv queue cap (snd (ensure_cancel_token session (rec_id rec) r2))"
    by (rule registry_inv_ensure_token)
  then have "registry_inv queue cap r3"
    unfolding r3_def ensure_cancel_token_put
    by (rule registry_inv_put_actor) (simp_all add: ensure_cancel_token_has assms(3))
  then have r4: "registry_inv queue cap (r3\<lparr>actor_supervisors := (actor_supervisors r3)(?key \<mapsto> sid)\<rparr>)"
    by (rule registry_inv_actor_supervisors)
  have "(case inboxes (?put r) ?key of Some _ \<Rightarrow> ?put r
      | None \<Rightarrow> (?put r)\<lparr>inboxes := (inboxes (?put r))(?key \<mapsto> inbox_new ops)\<rparr>) = ?put r2"
    by (simp add: r2_def frame_simps inboxes_put split: option.split)
  then show ?thesis
    using registry_inv_supervisors [OF r4 track_distinct [OF entry_supervisor_distinct [OF r4]]]
    by (simp only: track_one_def Let_def case_prod_conv r3_def)
qed

lemma registry_inv_track_all:
  "fifo_channel ops queue cap \<Longrightarrow> registry_inv queue cap r \<Longrightarrow> \<forall>(rec, _) \<in> set recs. \<not> cancelled rec \<Longrightarrow>
   registry_inv queue cap (fold (track_one ops session) recs r)"
  by (induction recs arbitrary: r) (auto intro: registry_inv_track_one)

lemma registry_inv_track_batch:
  "fifo_channel ops queue cap \<Longrightarrow> registry_inv queue cap r \<Longrightarrow> \<forall>(rec, _) \<in> set recs. \<not> cancelled rec \<Longrightarrow>
   registry_inv queue cap (snd (track_batch_for_session ops session recs r))"
  by (auto simp: track_batch_for_session_def intro: registry_inv_track_all split: sum.split)

lemma registry_inv_update_status [inv_intros]:
  "registry_inv queue cap r \<Longrightarrow> registry_inv queue cap (update_status_for_session session a st r)"
  by (auto simp: update_status_for_session_def get_for_session_def intro: registry_inv_edit
      split: option.split)

lemma registry_inv_set_policy [inv_intros]:
  assumes "registry_inv queue cap r"
  shows "registry_inv queue cap (set_supervision_policy_for_session session sid p r)"
proof -
  have "distinct (children s)" if "supervisors r (session, sid) = Some s" for s
    using assms that by (auto simp: registry_inv_def)
  with assms show ?thesis
    by (auto simp: set_supervision_policy_for_session_def Let_def supervisor_new_def intro!: inv_intros
        split: option.split)
qed

lemma registry_inv_supervised_success [inv_intros]:
  assumes "registry_inv queue cap r"
  shows "registry_inv queue cap (record_supervised_success session sid a r)"
proof -
  have "distinct (children s)" if "supervisors r (session, sid) = Some s" for s
    using assms that by (auto simp: registry_inv_def)
  with assms show ?thesis
    by (auto simp: record_supervised_success_def record_success_def intro!: inv_intros split: option.split)
qed

lemma registry_inv_complete_record [inv_intros]:
  assumes "registry_inv queue cap r"
  shows "registry_inv queue cap (snd (mark_complete_record session a resources r))"
proof (cases "map_of (actors r) (session, a)")
  case None
  with assms show ?thesis by (simp add: mark_complete_record_def get_for_session_def)
next
  case (Some rec)
  have now: "registry_inv queue cap (snd (utc_now r))"
    "map_of (actors (snd (utc_now r))) (session, a) = Some rec"
    using assms Some by (simp_all add: frame_simps inv_intros)
  show ?thesis
    using assms by (auto simp: mark_complete_record_def get_for_session_def Some Let_def split_beta
        intro!: registry_inv_edit [OF now] split: option.split)
qed

lemma registry_inv_complete [inv_intros]:
  "registry_inv queue cap r \<Longrightarrow> registry_inv queue cap (snd (mark_complete_for_session session a r))"
  "registry_inv queue cap r \<Longrightarrow>
   registry_inv queue cap (snd (mark_complete_with_resources_for_session session a art hist r))"
  using registry_inv_complete_record [of queue cap r session a]
  by (auto simp: mark_complete_for_session_def mark_complete_with_resources_for_session_def
      intro: inv_intros split: prod.split option.split) (metis snd_conv inv_intros)+

lemma registry_inv_failed_record [inv_intros]:
  assumes "registry_inv queue cap r"
  shows "registry_inv queue cap (snd (mark_failed_record session a why r))"
proof (cases "map_of (actors r) (session, a)")
  case None
  with assms show ?thesis by (simp add: mark_failed_record_def get_for_session_def)
next
  case (Some rec)
  have now: "registry_inv queue cap (snd (utc_now r))"
    "map_of (actors (snd (utc_now r))) (session, a) = Some rec"
    using assms Some by (simp_all add: frame_simps inv_intros)
  show ?thesis
    using assms by (auto simp: mark_failed_record_def get_for_session_def Some Let_def split_beta
        intro!: registry_inv_edit [OF now] registry_inv_cancel_edit [OF now])
qed

lemma registry_inv_failed_supervised [inv_intros]:
  assumes "registry_inv queue cap r"
  shows "registry_inv queue cap (snd (mark_failed_with_supervision_for_session session a why r))"
proof -
  obtain res r1 where m: "mark_failed_record session a why r = (res, r1)" by fastforce
  with registry_inv_failed_record [OF assms, of session a why] have inv: "registry_inv queue cap r1" by simp
  then show ?thesis
    by (auto simp: mark_failed_with_supervision_for_session_def m Let_def split_beta frame_simps
        intro!: inv_intros entry_supervisor_distinct [OF inv] split: option.split)
qed

lemma registry_inv_apply_actions [inv_intros]:
  "registry_inv queue cap r \<Longrightarrow> registry_inv queue cap (apply_supervision_actions session acts r)"
  by (induction session acts r rule: apply_supervision_actions.induct)
    (simp_all add: registry_inv_cancel_subtree)

lemma registry_inv_decision [inv_intros]:
  "registry_inv queue cap r \<Longrightarrow>
   registry_inv queue cap (emit_and_apply_supervision_decision session sid d r)"
  by (simp add: emit_and_apply_supervision_decision_def split_beta Let_def inv_intros)

lemma registry_inv_actor_error [inv_intros]:
  assumes "registry_inv queue cap r"
  shows "registry_inv queue cap (snd (record_actor_error session a why r))"
proof -
  obtain res r1 where m: "mark_failed_with_supervision_for_session session a why r = (res, r1)" by fastforce
  with registry_inv_failed_supervised [OF assms, of session a why] have "registry_inv queue cap r1" by simp
  then show ?thesis
    by (auto simp: record_actor_error_def m Let_def split_beta intro!: inv_intros split: option.split)
qed

lemma registry_inv_templates [inv_intros]:
  "registry_inv queue cap r \<Longrightarrow> registry_inv queue cap (r\<lparr>restart_templates := m\<rparr>)"
  by (simp add: registry_inv_def tokens_inv_def)

lemma registry_inv_remember [inv_intros]:
  "registry_inv queue cap r \<Longrightarrow> registry_inv queue cap (remember_restart_spec spec r)"
  by (simp add: remember_restart_spec_def Let_def inv_intros)

lemma registry_inv_transcript [inv_intros]:
  "registry_inv queue cap r \<Longrightarrow> registry_inv queue cap (store_transcript_for_session rx session a c r)"
  by (simp add: store_transcript_for_session_def registry_inv_def tokens_inv_def)

text \<open>A restart, in the shape the invariant sees it: a new token, a new inbox, a record that is neither
  cancelled nor failed, the supervisor tracking the actor.\<close>

lemma prepare_restart_state:
  assumes "restart_templates r (session, a) = Some template"
  shows "\<exists>rec r'. prepare_actor_restart_for_session ops session a r = (Some (to_spec template (next_token r)), r')
    \<and> status rec = Running \<and> \<not> cancelled rec \<and> rec_failure_reason rec = None
    \<and> (case map_of (actors r) (session, a) of Some old \<Rightarrow> rec_id rec = rec_id old | None \<Rightarrow> rec_id rec = a)
    \<and> actors r' = AList.update (session, a) rec (actors r)
    \<and> cancel_tokens r' = (cancel_tokens r)((session, a) \<mapsto> next_token r)
    \<and> token_flags r' = (token_flags r)(next_token r := False)
    \<and> next_token r' = Suc (next_token r)
    \<and> inboxes r' = (inboxes r)((session, a) \<mapsto> inbox_new ops)
    \<and> messages r' = messages r \<and> transcripts r' = transcripts r
    \<and> restart_templates r' = restart_templates r
    \<and> actor_supervisors r' = (actor_supervisors r)((session, a) \<mapsto> tpl_supervisor_id template)
    \<and> supervisors r' = (supervisors r)((session, tpl_supervisor_id template) \<mapsto>
        track (entry_supervisor (session, tpl_supervisor_id template) r) a)"
proof -
  let ?at = "clock r (ticks r)"
  let ?entry = "case map_of (actors r) (session, a) of
      Some rec \<Rightarrow> rec | None \<Rightarrow> restarted_record template a ?at"
  let ?rec = "?entry\<lparr>parent := tpl_parent template, status := Running, mode := Some (tpl_role template),
      budget := tpl_budget template, spawned_at := ?at, completed_at := None, cancelled := False,
      rec_failure_reason := None, artifact_uri := None, history_uri := None\<rparr>"
  show ?thesis
    by (rule exI [of _ ?rec])
      (simp add: assms prepare_actor_restart_for_session_def Let_def split_beta token_new_def utc_now_def
        frame_simps put_actor_def get_for_session_def entry_supervisor_def restarted_record_def
        split: option.split)
qed

lemma registry_inv_restart [inv_intros]:
  assumes fifo: "fifo_channel ops queue cap" and inv: "registry_inv queue cap r"
  shows "registry_inv queue cap (snd (prepare_actor_restart_for_session ops session a r))"
proof (cases "restart_templates r (session, a)")
  case None
  with inv show ?thesis by (simp add: prepare_actor_restart_for_session_def)
next
  case (Some template)
  obtain rec r' where
    run: "prepare_actor_restart_for_session ops session a r = (Some (to_spec template (next_token r)), r')"
    and rec: "\<not> cancelled rec"
      "case map_of (actors r) (session, a) of Some old \<Rightarrow> rec_id rec = rec_id old | None \<Rightarrow> rec_id rec = a"
    and r': "actors r' = AList.update (session, a) rec (actors r)"
      "cancel_tokens r' = (cancel_tokens r)((session, a) \<mapsto> next_token r)"
      "token_flags r' = (token_flags r)(next_token r := False)" "next_token r' = Suc (next_token r)"
      "inboxes r' = (inboxes r)((session, a) \<mapsto> inbox_new ops)" "messages r' = messages r"
      "supervisors r' = (supervisors r)((session, tpl_supervisor_id template) \<mapsto>
        track (entry_supervisor (session, tpl_supervisor_id template) r) a)"
    using prepare_restart_state [OF Some, of ops] by blast
  have "rec_id rec = a" using rec(2) rec_id_of_key [OF inv] by (auto split: option.splits)
  then have "roster_wf (actors r')" using inv by (simp add: r' registry_inv_def roster_wf_update)
  moreover have "tokens_inv r'"
    by (rule tokens_inv_fresh [where r = r and key = "(session, a)"])
      (use inv rec in \<open>simp_all add: registry_inv_def r' update_conv' split: if_splits\<close>)
  moreover have "inbox_inv queue cap i" if "inboxes r' k = Some i" for k i
    using that inv inbox_inv_new [OF fifo] by (cases k) (auto simp: r' registry_inv_def split: if_splits)
  moreover have "distinct (children s)" if "supervisors r' k = Some s" for k s
    using that inv track_distinct [OF entry_supervisor_distinct [OF inv]]
    by (cases k) (auto simp: r' registry_inv_def split: if_splits)
  moreover have "log_inv (messages r')" using inv by (simp add: r' registry_inv_def)
  ultimately show ?thesis unfolding run registry_inv_def snd_conv by blast
qed

subsection \<open>Delivery\<close>

lemma try_reserve_Some:
  assumes "try_reserve b i = Some i1"
  shows "i1 = i\<lparr>retained_bytes := retained_bytes i + word_of_nat b\<rparr>"
    and "unat (retained_bytes i + word_of_nat b) = unat (retained_bytes i) + b"
    and "unat (retained_bytes i) + b \<le> MAX_INBOX_BYTES" and "b < 2 ^ 64"
proof -
  from assms have b: "b < 2 ^ 64" by (auto simp: try_reserve_def not_le split: if_splits)
  then have ub: "unat (word_of_nat b :: u64) = b" by (simp add: unsigned_of_nat take_bit_nat_eq_self)
  from assms b obtain n where n: "checked_add (retained_bytes i) (word_of_nat b) = Some n"
    "n \<le> word_of_nat 65536" "i1 = i\<lparr>retained_bytes := n\<rparr>"
    by (auto simp: try_reserve_def split: option.splits if_splits)
  then have sum: "unat (retained_bytes i) + b < 2 ^ 64" "n = retained_bytes i + word_of_nat b"
    by (auto simp: checked_add_Some ub)
  then have un: "unat n = unat (retained_bytes i) + b" by (simp add: unat_plus_if' ub)
  show "i1 = i\<lparr>retained_bytes := retained_bytes i + word_of_nat b\<rparr>" using n sum by simp
  show "unat (retained_bytes i + word_of_nat b) = unat (retained_bytes i) + b" using un sum by simp
  show "unat (retained_bytes i) + b \<le> MAX_INBOX_BYTES"
    using n(2) un by (simp add: word_le_nat_alt)
  show "b < 2 ^ 64" by (rule b)
qed

lemma try_reserve_None:
  assumes "try_reserve b i = None" "b < 2 ^ 64"
  shows "MAX_INBOX_BYTES < unat (retained_bytes i) + b"
proof (rule ccontr)
  assume "\<not> MAX_INBOX_BYTES < unat (retained_bytes i) + b"
  then have le: "unat (retained_bytes i) + b \<le> 65536" by simp
  have ub: "unat (word_of_nat b :: u64) = b"
    using assms(2) by (simp add: unsigned_of_nat take_bit_nat_eq_self)
  then have "checked_add (retained_bytes i) (word_of_nat b) = Some (retained_bytes i + word_of_nat b)"
    using le by (simp add: checked_add_Some)
  moreover have "retained_bytes i + word_of_nat b \<le> word_of_nat 65536"
    using le ub by (simp add: word_le_nat_alt unat_plus_if')
  ultimately show False using assms by (simp add: try_reserve_def)
qed

lemma deliver_inv:
  assumes fifo: "fifo_channel ops queue cap" and inv: "inbox_inv queue cap i"
    and res: "try_reserve (message_bytes m) i = Some i1"
    and sent: "chan_try_send ops (channel i1) m = (Sent, c)" and "0 < message_bytes m"
  shows "inbox_inv queue cap (touch t (mark_delivered_to_inbox (i1\<lparr>channel := c\<rparr>)))
    \<and> contents queue (touch t (mark_delivered_to_inbox (i1\<lparr>channel := c\<rparr>))) = contents queue i @ [m]"
proof -
  note r = try_reserve_Some [OF res]
  have ch: "channel i1 = channel i" by (simp add: r(1))
  have space: "length (queue (channel i)) < cap (channel i)"
    using fifo_channelD(4) [OF fifo, of "channel i" m] sent by (auto simp: ch)
  then have c: "queue c = queue (channel i) @ [m]" "cap c = cap (channel i)"
    using fifo_channelD(3) [OF fifo space, of m] sent by (auto simp: ch)
  have n: "unat (unread i) = length (contents queue i)" "total_bytes (contents queue i) \<le> MAX_INBOX_BYTES"
    "length (contents queue i) \<le> total_bytes (contents queue i)"
    "unat (retained_bytes i) = total_bytes (contents queue i)"
    using inv by (simp_all add: inbox_inv_def counts_def length_le_total)
  then have "unat (unread i + 1) = Suc (length (contents queue i))" by (simp add: unat_plus_if')
  with n r c space inv assms(5) show ?thesis
    by (simp add: inbox_inv_def counts_def contents_def touch_def mark_delivered_to_inbox_def)
qed

lemma release_reserved:
  assumes "try_reserve b i = Some i1"
  shows "release b (i1\<lparr>channel := channel i1\<rparr>) = i"
proof -
  note r = try_reserve_Some [OF assms]
  have "unat (word_of_nat b :: u64) = b" using r(4) by (simp add: unsigned_of_nat take_bit_nat_eq_self)
  then have "sat_sub (retained_bytes i + word_of_nat b) (word_of_nat b) = retained_bytes i"
    using r(2) by (simp add: word_unat_eq_iff rust_simps)
  with r(1,4) show ?thesis by (simp add: release_def)
qed

lemma ensure_inbox_inv:
  assumes "fifo_channel ops queue cap" "registry_inv queue cap r" "ensure_inbox ops session a r = (i, r1)"
  shows "inbox_inv queue cap i" "registry_inv queue cap r1" "inboxes r1 (session, a) = Some i"
proof -
  have "inbox_inv queue cap j" if "inboxes r (session, a) = Some j" for j
    using assms(2) that by (auto simp: registry_inv_def)
  with assms show "inbox_inv queue cap i" "registry_inv queue cap r1" "inboxes r1 (session, a) = Some i"
    using registry_inv_inboxes [OF assms(2) inbox_inv_new [OF assms(1)]] inbox_inv_new [OF assms(1)]
    by (auto simp: ensure_inbox_def split: option.splits)
qed

lemma put_inbox_same: "inboxes r (session, a) = Some i \<Longrightarrow> put_inbox session a i r = r"
  by (simp add: put_inbox_def fun_upd_idem)

lemma registry_inv_put_inbox [inv_intros]:
  "registry_inv queue cap r \<Longrightarrow> inbox_inv queue cap i \<Longrightarrow> registry_inv queue cap (put_inbox session a i r)"
  by (simp add: put_inbox_def registry_inv_inboxes)

lemma record_message_frame [frame_simps]:
  "actors (snd (record_message_for_session session m r)) = actors r"
  "inboxes (snd (record_message_for_session session m r)) = inboxes r"
  "cancel_tokens (snd (record_message_for_session session m r)) = cancel_tokens r"
  "transcripts (snd (record_message_for_session session m r)) = transcripts r"
  "restart_templates (snd (record_message_for_session session m r)) = restart_templates r"
  "actor_supervisors (snd (record_message_for_session session m r)) = actor_supervisors r"
  "supervisors (snd (record_message_for_session session m r)) = supervisors r"
  "token_flags (snd (record_message_for_session session m r)) = token_flags r"
  "next_token (snd (record_message_for_session session m r)) = next_token r"
  "messages (snd (record_message_for_session session m r)) = snd (log_message session m (messages r))"
  by (simp_all add: record_message_for_session_def split_beta Let_def)

lemma log_message_inv [inv_intros]: "log_inv l \<Longrightarrow> log_inv (snd (log_message session m l))"
  by (cases "log_message session m l") (auto dest: log_message_keeps)

lemma registry_inv_record_message [inv_intros]:
  "registry_inv queue cap r \<Longrightarrow> registry_inv queue cap (snd (record_message_for_session session m r))"
  by (simp add: registry_inv_def tokens_inv_def frame_simps log_message_inv)

text \<open>What a send does to the registry: refusals leave every inbox as it was, up to creating an empty
  one.\<close>

lemma send_message_cases:
  assumes fifo: "fifo_channel ops queue cap" and inv: "registry_inv queue cap r"
    and "0 < message_bytes m"
    and ens: "ensure_inbox ops session (msg_to m) r = (i, r1)"
    and run: "send_message_for_session ops session m r = (res, r')"
  obtains (invalid) e where "res = Inl e" "MAX_ACTOR_MESSAGE_BYTES < length (msg_text m)" "r' = r"
  | (unreachable) "res = Inr Unreachable" "\<not> is_reachable session (msg_to m) r" "r' = r"
  | (full) "res = Inr Backpressured" "is_reachable session (msg_to m) r" "r' = r1"
      "MAX_INBOX_BYTES < total_bytes (contents queue i) + message_bytes m
       \<or> MAX_INBOX_MESSAGES \<le> length (queue (channel i))"
  | (delivered) i' where "res = Inr Delivered" "is_reachable session (msg_to m) r"
      "length (msg_text m) \<le> MAX_ACTOR_MESSAGE_BYTES"
      "r' = snd (record_message_for_session session m (put_inbox session (msg_to m) i' r1))"
      "inbox_inv queue cap i'" "contents queue i' = contents queue i @ [m]"
      "last_activity i' = Some (msg_sent_at m)"
proof (cases "validate_message m")
  case (Inl e)
  with run show thesis
    by (intro invalid) (auto simp: send_message_for_session_def validate_message_def
        validate_text_bytes_def split: if_splits)
next
  case (Inr u)
  note i = ensure_inbox_inv [OF fifo inv ens]
  show thesis
  proof (cases "is_reachable session (msg_to m) r")
    case False
    with run Inr show thesis by (intro unreachable) (auto simp: send_message_for_session_def)
  next
    case reach: True
    show thesis
    proof (cases "try_reserve (message_bytes m) i")
      case None
      have "unat (retained_bytes i) = total_bytes (contents queue i)"
        using i(1) by (simp add: inbox_inv_def counts_def)
      with try_reserve_None [OF None message_bytes_bound]
      have "MAX_INBOX_BYTES < total_bytes (contents queue i) + message_bytes m" by simp
      with run Inr reach ens None show thesis by (intro full) (auto simp: send_message_for_session_def)
    next
      case (Some i1)
      then have ch: "channel i1 = channel i" by (simp add: try_reserve_Some(1) [OF Some])
      show thesis
      proof (cases "length (queue (channel i)) < cap (channel i)")
        case True
        then obtain c where sent: "chan_try_send ops (channel i1) m = (Sent, c)"
          using fifo_channelD(3) [OF fifo, of "channel i" m] ch by auto
        with run Inr reach ens Some deliver_inv [OF fifo i(1) Some sent assms(3), of "msg_sent_at m"]
        show thesis
          by (intro delivered [of "touch (msg_sent_at m) (mark_delivered_to_inbox (i1\<lparr>channel := c\<rparr>))"])
            (auto simp: send_message_for_session_def validate_message_def validate_text_bytes_def
              touch_def split: if_splits)
      next
        case False
        then have "chan_try_send ops (channel i1) m = (ChannelFull, channel i1)"
          using fifo_channelD(4) [OF fifo, of "channel i" m] ch by simp
        moreover have "MAX_INBOX_MESSAGES \<le> length (queue (channel i))"
          using False i(1) by (simp add: inbox_inv_def)
        ultimately show thesis
          using run Inr reach ens Some release_reserved [OF Some] put_inbox_same [OF i(3)]
          by (intro full) (auto simp: send_message_for_session_def)
      qed
    qed
  qed
qed

lemma registry_inv_send:
  assumes "fifo_channel ops queue cap" "registry_inv queue cap r" "0 < message_bytes m"
  shows "registry_inv queue cap (snd (send_message_for_session ops session m r))"
proof -
  obtain i r1 where ens: "ensure_inbox ops session (msg_to m) r = (i, r1)" by fastforce
  obtain res r' where run: "send_message_for_session ops session m r = (res, r')" by fastforce
  show ?thesis
    using assms(2) ensure_inbox_inv [OF assms(1,2) ens]
    by (cases rule: send_message_cases [OF assms ens run])
      (simp_all add: run registry_inv_record_message registry_inv_put_inbox)
qed

lemma wait_keeps_inv:
  assumes "fifo_channel ops queue cap" "inbox_inv queue cap i" "wait ops from timeout now i = Some (m, i')"
  shows "inbox_inv queue cap i'"
proof (cases "timeout = 0 \<and> take_matching_backlog from i = None")
  case True
  with assms(2,3) show ?thesis by (simp add: wait_def wait_channel.simps)
next
  case False
  define timeout' where "timeout' = max (Suc 0) timeout"
  have "0 < timeout'" by (simp add: timeout'_def)
  from wait_result [OF assms(1,2) this, of "from" now] obtain j m' where
    j: "inbox_inv queue cap j" "wait ops from timeout' now i = Some (m', j)"
    by (cases "dropWhile (\<lambda>m. \<not> message_matches_from from m) (contents queue i)") auto
  moreover from False have "wait ops from timeout now i = wait ops from timeout' now i"
    by (cases "timeout = 0") (auto simp: wait_def timeout'_def split: option.split)
  ultimately show ?thesis using assms(3) by simp
qed

lemma registry_inv_drain:
  assumes "fifo_channel ops queue cap" "registry_inv queue cap r"
    and "drain_inbox_for_session ops session a from r = Some (ms, r')"
  shows "registry_inv queue cap r'"
proof -
  obtain i r1 where ens: "ensure_inbox ops session a r = (i, r1)" by fastforce
  note i = ensure_inbox_inv [OF assms(1,2) ens]
  show ?thesis using assms(3) drain_result [OF assms(1) i(1), of "from"] i(2)
    by (auto simp: drain_inbox_for_session_def ens intro: registry_inv_put_inbox)
qed

lemma registry_inv_wait:
  assumes "fifo_channel ops queue cap" "registry_inv queue cap r"
    and "wait_for_message_for_session ops session a from timeout now r = Some (m, r')"
  shows "registry_inv queue cap r'"
proof -
  obtain i r1 where ens: "ensure_inbox ops session a r = (i, r1)" by fastforce
  note i = ensure_inbox_inv [OF assms(1,2) ens]
  show ?thesis using assms(3) wait_keeps_inv [OF assms(1) i(1)] i(2)
    by (auto simp: wait_for_message_for_session_def ens intro: registry_inv_put_inbox)
qed

subsection \<open>Operations as steps\<close>

text \<open>The operations of the registry on behalf of one session. New roster entries are not cancelled yet,
  and messages come from actors with an id.\<close>

inductive registry_step ::
    "'ch channel_ops \<Rightarrow> string \<Rightarrow> 'ch mailbox_registry \<Rightarrow> 'ch mailbox_registry \<Rightarrow> bool"
  for ops session where
  "registry_step ops session r (set_lifecycle_hook r)"
| "registry_step ops session r (snd (next_actor_id u role r))"
| "registry_step ops session r (snd (next_supervisor_id u role r))"
| "\<forall>(rec, _) \<in> set recs. \<not> cancelled rec \<Longrightarrow>
   registry_step ops session r (snd (track_batch_for_session ops session recs r))"
| "registry_step ops session r (update_status_for_session session a st r)"
| "registry_step ops session r (snd (cancel_actor session a r))"
| "registry_step ops session r (snd (cancel_actor_subtree session a r))"
| "registry_step ops session r (snd (cancel_token_for_session session a r))"
| "\<forall>s a. s \<noteq> session \<longrightarrow> cancel_tokens r (s, a) \<noteq> Some t \<Longrightarrow>
   registry_step ops session r (token_cancel t r)"
| "registry_step ops session r (set_supervision_policy_for_session session a p r)"
| "registry_step ops session r (snd (mark_complete_for_session session a r))"
| "registry_step ops session r (snd (mark_complete_with_resources_for_session session a art hist r))"
| "registry_step ops session r (snd (mark_failed_for_session session a why r))"
| "registry_step ops session r (snd (mark_failed_with_supervision_for_session session a why r))"
| "registry_step ops session r (snd (record_actor_error session a why r))"
| "registry_step ops session r (emit_and_apply_supervision_decision session a d r)"
| "spec_session_id spec = session \<Longrightarrow> registry_step ops session r (remember_restart_spec spec r)"
| "registry_step ops session r (snd (prepare_actor_restart_for_session ops session a r))"
| "registry_step ops session r (store_transcript_for_session rx session a text r)"
| "registry_step ops session r (snd (record_message_for_session session m r))"
| "0 < message_bytes m \<Longrightarrow> registry_step ops session r (snd (send_message_for_session ops session m r))"
| "drain_inbox_for_session ops session a from r = Some (ms, r') \<Longrightarrow> registry_step ops session r r'"
| "wait_for_message_for_session ops session a from timeout now r = Some (m', r') \<Longrightarrow>
   registry_step ops session r r'"
| "registry_step ops session r (emit_lifecycle session event r)"
| "registry_step ops session r (snd (utc_now r))"

lemma registry_step_inv:
  assumes fifo: "fifo_channel ops queue cap" and inv: "registry_inv queue cap r"
    and step: "registry_step ops session r r'"
  shows "registry_inv queue cap r'"
  using step inv
proof cases
  case (21 m)
  with inv show ?thesis using registry_inv_send [OF fifo] by blast
next
  case 22
  with inv show ?thesis using registry_inv_drain [OF fifo] by blast
next
  case 23
  with inv show ?thesis using registry_inv_wait [OF fifo] by blast
next
  case 4
  with inv show ?thesis using registry_inv_track_batch [OF fifo] by blast
qed (simp_all add: inv_intros fifo registry_inv_same [of r] cancel_token_for_session_def
    mark_failed_for_session_def split_beta Let_def)

interpretation reg: invariant_system "\<lambda>r. r = registry_new clk"
    "\<lambda>r r'. \<exists>session. registry_step list_channel session r r'"
    "registry_inv fst snd" for clk
  by unfold_locales (auto intro: registry_inv_new registry_step_inv [OF fifo_list_channel])

text \<open>C4. The registry invariant is kept by every operation, whatever the session and the arguments: the
  roster has one entry per actor, filed under its own id; no two actors share a cancellation token,
  every tracked actor has one and a cancelled actor's token is cancelled; the message log and every
  inbox stay within their bounds with exact counters; supervisors list each child once.\<close>

theorem registry_step_keeps_inv:
  assumes "fifo_channel ops queue cap" "registry_inv queue cap r" "registry_step ops session r r'"
  shows "registry_inv queue cap r'"
  using assms by (rule registry_step_inv)

definition sample_record :: "string \<Rightarrow> string option \<Rightarrow> actor_record" where
  "sample_record name up =
     \<lparr>rec_id = ActorId name, parent = map_option ActorId up, status = Running, mode = None,
      budget = default_actor_budget, spawned_at = 0, completed_at = None, cancelled = False,
      rec_failure_reason = None, artifact_uri = None, history_uri = None\<rparr>"

definition sample_registry :: "(actor_message list \<times> nat) mailbox_registry" where
  "sample_registry = snd (track_batch_for_session list_channel ''s''
     [(sample_record ''A0'' None, root_actor_id), (sample_record ''B1'' (Some ''A0''), ActorId ''A0'')]
     (registry_new (\<lambda>_. 7)))"

lemma sample_registry_inv: "registry_inv fst snd sample_registry"
  unfolding sample_registry_def
  by (rule registry_inv_track_batch [OF fifo_list_channel registry_inv_new]) (simp add: sample_record_def)

lemma sample_registry_get:
  "get_for_session ''s'' (ActorId ''A0'') sample_registry = Some (sample_record ''A0'' None)"
  "get_for_session ''s'' (ActorId ''B1'') sample_registry = Some (sample_record ''B1'' (Some ''A0''))"
  by (simp_all add: sample_registry_def track_batch_for_session_def sample_record_def live_count_def
      new_live_count_def usize_sat_add_def registry_new_def track_one_def Let_def frame_simps
      get_for_session_def)

theorem registry_step_keeps_inv_witness:
  "registry_inv fst snd (snd (cancel_actor ''s'' (ActorId ''B1'') sample_registry))"
  by (rule registry_step_keeps_inv [OF fifo_list_channel sample_registry_inv])
    (rule registry_step.intros(6))

end
