(* ===== verification/Session_Isolation.thy ===== *)
theory Session_Isolation
  imports Registry_Inv
begin

text \<open>
  One registry serves all sessions. The operations of a session leave the roster, inboxes, tokens,
  transcripts, restart templates and supervisors of every other session alone.
\<close>

text \<open>\<open>r'\<close> differs from \<open>r\<close> in the entries of one session only; the flags it changes belong to tokens of
  that session or to new tokens. The relation composes without the invariant.\<close>

definition session_frame :: "string \<Rightarrow> 'ch mailbox_registry \<Rightarrow> 'ch mailbox_registry \<Rightarrow> bool" where
  "session_frame session r r' \<longleftrightarrow>
     (\<forall>s a. s \<noteq> session \<longrightarrow>
        map_of (actors r') (s, a) = map_of (actors r) (s, a) \<and> inboxes r' (s, a) = inboxes r (s, a)
      \<and> cancel_tokens r' (s, a) = cancel_tokens r (s, a) \<and> transcripts r' (s, a) = transcripts r (s, a)
      \<and> restart_templates r' (s, a) = restart_templates r (s, a)
      \<and> actor_supervisors r' (s, a) = actor_supervisors r (s, a)
      \<and> supervisors r' (s, a) = supervisors r (s, a))
   \<and> next_token r \<le> next_token r'
   \<and> (\<forall>t. t < next_token r \<and> (\<forall>a. cancel_tokens r (session, a) \<noteq> Some t)
        \<and> (\<exists>s a. s \<noteq> session \<and> cancel_tokens r (s, a) = Some t) \<longrightarrow>
        token_flags r' t = token_flags r t)
   \<and> (\<forall>a t. cancel_tokens r' (session, a) = Some t \<longrightarrow>
        (\<exists>b. cancel_tokens r (session, b) = Some t) \<or> next_token r \<le> t)"

lemma session_frame_refl [session_intros]: "session_frame session r r"
  by (auto simp: session_frame_def)

lemma session_frameD:
  assumes "session_frame session r r'"
  shows "s \<noteq> session \<Longrightarrow> cancel_tokens r' (s, a) = cancel_tokens r (s, a)"
    and "next_token r \<le> next_token r'"
    and "t < next_token r \<Longrightarrow> \<forall>a. cancel_tokens r (session, a) \<noteq> Some t \<Longrightarrow> s \<noteq> session \<Longrightarrow>
      cancel_tokens r (s, a) = Some t \<Longrightarrow> token_flags r' t = token_flags r t"
    and "t < next_token r \<Longrightarrow> \<forall>a. cancel_tokens r (session, a) \<noteq> Some t \<Longrightarrow>
      cancel_tokens r' (session, b) \<noteq> Some t"
  using assms unfolding session_frame_def by (simp, blast, blast, meson not_le)

lemma session_frame_trans:
  assumes "session_frame session r r'" "session_frame session r' r''"
  shows "session_frame session r r''"
proof -
  note f = session_frameD [OF assms(1)] and g = session_frameD [OF assms(2)]
  have own: "\<forall>b. cancel_tokens r' (session, b) \<noteq> Some t" "t < next_token r'"
    if "t < next_token r" "\<forall>a. cancel_tokens r (session, a) \<noteq> Some t" for t
    using f(2) f(4) [OF that] that(1) by auto
  have "token_flags r'' t = token_flags r t"
    if t: "t < next_token r" "\<forall>a. cancel_tokens r (session, a) \<noteq> Some t"
      and s: "s \<noteq> session" "cancel_tokens r (s, a) = Some t" for t s a
    using g(3) [OF own(2,1) [OF t] s(1), of a] f(1) [OF s(1)] f(3) [OF t s] s(2) by simp
  moreover have "(\<exists>b. cancel_tokens r (session, b) = Some t) \<or> next_token r \<le> t"
    if "cancel_tokens r'' (session, a) = Some t" for a t
    using g(4) [OF own(2,1)] that by (meson not_le)
  moreover have "next_token r \<le> next_token r''" using f(2) g(2) by linarith
  moreover have "\<forall>s a. s \<noteq> session \<longrightarrow>
        map_of (actors r'') (s, a) = map_of (actors r) (s, a) \<and> inboxes r'' (s, a) = inboxes r (s, a)
      \<and> cancel_tokens r'' (s, a) = cancel_tokens r (s, a) \<and> transcripts r'' (s, a) = transcripts r (s, a)
      \<and> restart_templates r'' (s, a) = restart_templates r (s, a)
      \<and> actor_supervisors r'' (s, a) = actor_supervisors r (s, a)
      \<and> supervisors r'' (s, a) = supervisors r (s, a)"
    using assms unfolding session_frame_def by simp
  ultimately show ?thesis unfolding session_frame_def by blast
qed

lemma session_frame_same [session_intros]:
  assumes "session_frame session r0 r"
  shows "session_frame session r0 (emit_lifecycle s e r)" "session_frame session r0 (snd (utc_now r))"
    "session_frame session r0 (set_lifecycle_hook r)" "session_frame session r0 (snd (next_actor_id u role r))"
    "session_frame session r0 (snd (next_supervisor_id u label r))"
    "session_frame session r0 (snd (record_message_for_session s m r))"
  using assms
  by (simp_all add: session_frame_def frame_simps set_lifecycle_hook_def next_actor_id_def
      next_supervisor_id_def Let_def)

lemma session_frame_put [session_intros]:
  assumes "session_frame session r0 r"
  shows "session_frame session r0 (put_actor session a rec r)"
    "session_frame session r0 (put_inbox session a i r)"
    "session_frame session r0 (r\<lparr>supervisors := (supervisors r)((session, a) \<mapsto> sv)\<rparr>)"
    "session_frame session r0 (r\<lparr>actor_supervisors := (actor_supervisors r)((session, a) \<mapsto> b)\<rparr>)"
    "session_frame session r0 (r\<lparr>inboxes := (inboxes r)((session, a) \<mapsto> i)\<rparr>)"
    "session_frame session r0 (r\<lparr>restart_templates := (restart_templates r)((session, a) \<mapsto> tpl)\<rparr>)"
    "session_frame session r0 (r\<lparr>transcripts := (transcripts r)((session, a) \<mapsto> text)\<rparr>)"
  using assms by (simp_all add: session_frame_def frame_simps put_inbox_def)

lemma session_frame_ensure_token [session_intros]:
  assumes "session_frame session r0 r"
  shows "session_frame session r0 (snd (ensure_cancel_token session a r))"
proof (rule session_frame_trans [OF assms])
  show "session_frame session r (snd (ensure_cancel_token session a r))"
    by (auto simp: session_frame_def ensure_cancel_token_def token_new_def split: option.split)
qed

lemma session_frame_token_cancel:
  assumes "session_frame session r0 r" "cancel_tokens r (session, a) = Some t"
  shows "session_frame session r0 (token_cancel t r)"
proof (rule session_frame_trans [OF assms(1)])
  show "session_frame session r (token_cancel t r)"
    using assms(2) by (auto simp: session_frame_def token_cancel_def)
qed

lemma session_frame_cancel_token [session_intros]:
  assumes "session_frame session r0 r"
  shows "session_frame session r0 (cancel_session_token session a r)"
proof -
  obtain t r1 where e: "ensure_cancel_token session a r = (t, r1)" by fastforce
  with session_frame_ensure_token [OF assms, of a] have "session_frame session r0 r1" by simp
  moreover have "cancel_tokens r1 (session, a) = Some t"
    using e by (auto simp: ensure_cancel_token_def token_new_def split: option.splits)
  ultimately show ?thesis
    by (simp add: cancel_session_token_def cancel_token_for_session_def e session_frame_token_cancel)
qed

text \<open>The operations.\<close>

lemma session_frame_cancel_actor [session_intros]:
  "session_frame session r0 r \<Longrightarrow> session_frame session r0 (snd (cancel_actor session a r))"
  by (simp add: cancel_actor_def Let_def split_beta session_intros split: option.split)

lemma session_frame_cancel_each [session_intros]:
  "session_frame session r0 r \<Longrightarrow> session_frame session r0 (snd (cancel_each session as r))"
  by (induction as arbitrary: r) (simp_all add: split_beta session_intros)

lemma session_frame_cancel_subtree [session_intros]:
  "session_frame session r0 r \<Longrightarrow> session_frame session r0 (snd (cancel_actor_subtree session a r))"
  by (simp add: cancel_actor_subtree_def session_intros)

lemma session_frame_track_one [session_intros]:
  "session_frame session r0 r \<Longrightarrow> session_frame session r0 (track_one ops session item r)"
  unfolding track_one_def Let_def case_prod_beta
  by (intro session_intros)
    (cases "inboxes (put_actor session (rec_id (fst item)) (fst item) r) (session, rec_id (fst item))",
     simp_all add: session_intros)

lemma session_frame_track_batch [session_intros]:
  assumes "session_frame session r0 r"
  shows "session_frame session r0 (snd (track_batch_for_session ops session recs r))"
proof -
  have "session_frame session r0 (fold (track_one ops session) recs r)"
    using assms by (induction recs arbitrary: r) (simp_all add: session_intros)
  with assms show ?thesis by (simp add: track_batch_for_session_def split: sum.split)
qed

lemma session_frame_complete_record [session_intros]:
  "session_frame session r0 r \<Longrightarrow>
   session_frame session r0 (snd (mark_complete_record session a resources r))"
  by (simp add: mark_complete_record_def Let_def split_beta session_intros split: option.split)

lemma session_frame_failed_record [session_intros]:
  "session_frame session r0 r \<Longrightarrow> session_frame session r0 (snd (mark_failed_record session a why r))"
  by (simp add: mark_failed_record_def Let_def split_beta session_intros split: option.split)

lemma session_frame_success [session_intros]:
  "session_frame session r0 r \<Longrightarrow> session_frame session r0 (record_supervised_success session s a r)"
  by (simp add: record_supervised_success_def session_intros split: option.split)

lemma session_frame_failed_supervised [session_intros]:
  assumes "session_frame session r0 r"
  shows "session_frame session r0 (snd (mark_failed_with_supervision_for_session session a why r))"
  using session_frame_failed_record [OF assms, of a why]
  by (cases "mark_failed_record session a why r")
    (simp add: mark_failed_with_supervision_for_session_def Let_def split_beta session_intros
      split: option.split)

lemma session_frame_actions [session_intros]:
  "session_frame session r0 r \<Longrightarrow> session_frame session r0 (apply_supervision_actions session acts r)"
  by (induction session acts r rule: apply_supervision_actions.induct) (simp_all add: session_intros)

lemma session_frame_decision [session_intros]:
  "session_frame session r0 r \<Longrightarrow>
   session_frame session r0 (emit_and_apply_supervision_decision session s d r)"
  by (simp add: emit_and_apply_supervision_decision_def Let_def split_beta session_intros)

lemma session_frame_actor_error [session_intros]:
  assumes "session_frame session r0 r"
  shows "session_frame session r0 (snd (record_actor_error session a why r))"
  using session_frame_failed_supervised [OF assms, of a why]
  by (cases "mark_failed_with_supervision_for_session session a why r")
    (auto simp: record_actor_error_def Let_def split_beta intro!: session_intros split: option.split)

lemma session_frame_restart [session_intros]:
  "session_frame session r (snd (prepare_actor_restart_for_session ops session a r))"
proof (cases "restart_templates r (session, a)")
  case None
  then show ?thesis by (simp add: prepare_actor_restart_for_session_def session_intros)
next
  case (Some template)
  from prepare_restart_state [OF Some, of ops] show ?thesis
    by (auto simp: session_frame_def update_conv' split: if_splits)
qed

lemma session_frame_ensure_inbox:
  assumes "ensure_inbox ops session a r = (i, r1)"
  shows "session_frame session r r1"
  using assms by (auto simp: ensure_inbox_def intro!: session_intros split: option.splits)

lemma session_frame_send [session_intros]:
  "session_frame session r (snd (send_message_for_session ops session m r))"
proof -
  obtain i r1 where e: "ensure_inbox ops session (msg_to m) r = (i, r1)" by fastforce
  note r1 = session_frame_ensure_inbox [OF e]
  have "session_frame session r (snd (record_message_for_session session m
      (put_inbox session (msg_to m) j r1)))" "session_frame session r (put_inbox session (msg_to m) j r1)" for j
    by (intro session_intros r1)+
  with r1 session_frame_refl show ?thesis
    by (auto simp: send_message_for_session_def e Let_def split: sum.split option.split prod.split
        send_outcome.split)
qed

lemma session_frame_drain:
  assumes "drain_inbox_for_session ops session a from r = Some (ms, r')"
  shows "session_frame session r r'"
proof -
  obtain i r1 where e: "ensure_inbox ops session a r = (i, r1)" by fastforce
  with assms show ?thesis
    by (auto simp: drain_inbox_for_session_def intro!: session_intros session_frame_ensure_inbox [OF e])
qed

lemma session_frame_wait:
  assumes "wait_for_message_for_session ops session a from timeout now r = Some (m, r')"
  shows "session_frame session r r'"
proof -
  obtain i r1 where e: "ensure_inbox ops session a r = (i, r1)" by fastforce
  with assms show ?thesis
    by (auto simp: wait_for_message_for_session_def intro!: session_intros session_frame_ensure_inbox [OF e])
qed

lemma session_frame_edit [session_intros]:
  "session_frame session r0 r \<Longrightarrow> session_frame session r0 (update_status_for_session session a st r)"
  "session_frame session r0 r \<Longrightarrow> session_frame session r0 (set_supervision_policy_for_session session a p r)"
  "session_frame session r0 r \<Longrightarrow> spec_session_id spec = session \<Longrightarrow>
   session_frame session r0 (remember_restart_spec spec r)"
  "session_frame session r0 r \<Longrightarrow>
   session_frame session r0 (store_transcript_for_session rx session a text r)"
  by (auto simp: update_status_for_session_def set_supervision_policy_for_session_def Let_def
      remember_restart_spec_def store_transcript_for_session_def intro!: session_intros split: option.split)

lemma session_frame_complete [session_intros]:
  assumes "session_frame session r0 r"
  shows "session_frame session r0 (snd (mark_complete_for_session session a r))"
    "session_frame session r0 (snd (mark_complete_with_resources_for_session session a art hist r))"
    "session_frame session r0 (snd (mark_failed_for_session session a why r))"
  using session_frame_complete_record [OF assms, of a None]
    session_frame_complete_record [OF assms, of a "Some (art, hist)"]
    session_frame_failed_record [OF assms, of a why]
  by (auto simp: mark_complete_for_session_def mark_complete_with_resources_for_session_def
      mark_failed_for_session_def split_beta Let_def intro!: session_intros split: prod.split option.split)

lemma session_frame_step:
  assumes "registry_step ops session r r'"
  shows "session_frame session r r'"
  using assms
proof cases
  case 22
  then show ?thesis by (rule session_frame_drain)
next
  case 23
  then show ?thesis by (rule session_frame_wait)
next
  case 9
  then show ?thesis by (auto simp: session_frame_def token_cancel_def)
qed (simp_all add: session_intros cancel_token_for_session_def)

lemma session_frame_isolates:
  assumes "registry_inv queue cap r" "session_frame session r r'" "other \<noteq> session"
  shows "get_for_session other a r' = get_for_session other a r
    \<and> inboxes r' (other, a) = inboxes r (other, a)
    \<and> cancel_tokens r' (other, a) = cancel_tokens r (other, a)
    \<and> is_cancelled_for_session other a r' = is_cancelled_for_session other a r
    \<and> get_transcript_for_session other a r' = get_transcript_for_session other a r
    \<and> restart_templates r' (other, a) = restart_templates r (other, a)
    \<and> actor_supervisors r' (other, a) = actor_supervisors r (other, a)
    \<and> supervisors r' (other, a) = supervisors r (other, a)"
proof -
  have inv: "tokens_inv r" using assms(1) by (simp add: registry_inv_def)
  have tok: "cancel_tokens r' (other, a) = cancel_tokens r (other, a)"
    by (rule session_frameD(1) [OF assms(2,3)])
  have "token_flags r' t = token_flags r t" if t: "cancel_tokens r (other, a) = Some t" for t
  proof (rule session_frameD(3) [OF assms(2) _ _ assms(3) t])
    show "t < next_token r" by (rule tokens_invD(1) [OF inv t])
    show "\<forall>b. cancel_tokens r (session, b) \<noteq> Some t"
      using tokens_invD(2) [OF inv t] assms(3) by blast
  qed
  with tok have "is_cancelled_for_session other a r' = is_cancelled_for_session other a r"
    by (simp add: is_cancelled_for_session_def split: option.split)
  with tok assms(2,3) show ?thesis
    by (simp add: session_frame_def get_for_session_def get_transcript_for_session_def)
qed

text \<open>C11. Sessions are isolated: any operation made on behalf of one session leaves the roster entries,
  inboxes, tokens and their cancellation state, transcripts, restart templates, supervisor
  assignments and supervisors of every other session exactly as they were.\<close>

theorem sessions_isolated:
  assumes "registry_inv queue cap r" "registry_step ops session r r'" "other \<noteq> session"
  shows "get_for_session other a r' = get_for_session other a r
    \<and> inboxes r' (other, a) = inboxes r (other, a)
    \<and> cancel_tokens r' (other, a) = cancel_tokens r (other, a)
    \<and> is_cancelled_for_session other a r' = is_cancelled_for_session other a r
    \<and> get_transcript_for_session other a r' = get_transcript_for_session other a r
    \<and> restart_templates r' (other, a) = restart_templates r (other, a)
    \<and> actor_supervisors r' (other, a) = actor_supervisors r (other, a)
    \<and> supervisors r' (other, a) = supervisors r (other, a)"
  by (rule session_frame_isolates [OF assms(1) session_frame_step [OF assms(2)] assms(3)])

theorem sessions_isolated_witness:
  "get_for_session ''s'' (ActorId ''B1'') (snd (cancel_actor ''u'' (ActorId ''B1'') sample_registry)) =
     Some (sample_record ''B1'' (Some ''A0''))"
  using sessions_isolated [OF sample_registry_inv registry_step.intros(6) [of list_channel "''u''"],
      of "''s''" "ActorId ''B1''" "ActorId ''B1''"] by (simp add: sample_registry_get)

end
