(* ===== verification/Registry_Props.thy ===== *)
theory Registry_Props
  imports Session_Isolation
begin

text \<open>
  What the operations of the session registry guarantee: cancellation of a subtree, the finality of a
  cancellation, admission of a batch of actors, restarts, generated ids and message delivery.
\<close>

subsection \<open>Cancellation\<close>

text \<open>How a cancellation changes a record: it stops it unless it was already cancelled or terminated.\<close>

definition stopped_from :: "actor_record \<Rightarrow> actor_record \<Rightarrow> bool" where
  "stopped_from rec rec' \<longleftrightarrow>
     (if cancelled rec \<or> status rec = Terminated then rec' = rec
      else \<exists>t. rec' = rec\<lparr>status := Terminated, completed_at := Some t, cancelled := True,
                         rec_failure_reason := Some Cancelled\<rparr>)"

lemma stopped_from_trans: "stopped_from rec rec' \<Longrightarrow> stopped_from rec' rec'' \<Longrightarrow> stopped_from rec rec''"
  by (auto simp: stopped_from_def split: if_splits)

lemma cancel_actor_other:
  "k \<noteq> (session, a) \<Longrightarrow> map_of (actors (snd (cancel_actor session a r))) k = map_of (actors r) k"
  by (simp add: cancel_actor_def Let_def split_beta frame_simps split: option.split)

lemma cancel_actor_self:
  "rel_option stopped_from (map_of (actors r) (session, a))
     (map_of (actors (snd (cancel_actor session a r))) (session, a))"
  by (auto simp: cancel_actor_def Let_def split_beta frame_simps get_for_session_def stopped_from_def
      option_rel_Some1 split: option.split)

lemma rel_stopped_trans:
  "rel_option stopped_from x y \<Longrightarrow> rel_option stopped_from y z \<Longrightarrow> rel_option stopped_from x z"
  by (cases x; cases y; cases z) (auto intro: stopped_from_trans)

lemma cancel_each_other:
  "\<not> (fst k = session \<and> snd k \<in> set as) \<Longrightarrow>
   map_of (actors (snd (cancel_each session as r))) k = map_of (actors r) k"
  by (cases k, induction as arbitrary: r) (auto simp: split_beta cancel_actor_other)

lemma cancel_each_self:
  "a \<in> set as \<Longrightarrow>
   rel_option stopped_from (map_of (actors r) (session, a))
     (map_of (actors (snd (cancel_each session as r))) (session, a))"
proof (induction as arbitrary: r)
  case (Cons b as)
  let ?r1 = "snd (cancel_actor session b r)"
  have step: "rel_option stopped_from (map_of (actors r) (session, a)) (map_of (actors ?r1) (session, a))"
    if "a = b" using cancel_actor_self that by simp
  have eq: "map_of (actors (snd (cancel_each session (b # as) r))) (session, a) =
      map_of (actors (snd (cancel_each session as ?r1))) (session, a)" by (simp add: split_beta)
  show ?case
  proof (cases "a \<in> set as")
    case True
    with Cons.IH [of ?r1] step cancel_actor_other [of "(session, a)" session b r] show ?thesis
      unfolding eq by (cases "a = b") (auto intro: rel_stopped_trans)
  next
    case False
    with Cons.prems step cancel_each_other [of "(session, a)" session as ?r1] show ?thesis
      unfolding eq by simp
  qed
qed simp

lemma map_fst_cancel_each: "map fst (fst (cancel_each session as r)) = as"
  by (induction as arbitrary: r) (simp_all add: split_beta)

text \<open>C15. Cancelling an actor cancels its whole subtree: it visits, once each, exactly the actors of the
  session that descend from it. Afterwards every tracked one of them is stopped: one that was still
  live is recorded as cancelled with its token cancelled, one that had terminated before is left as it
  was. No other record of any session changes.\<close>

theorem cancel_actor_subtree_correct:
  assumes inv: "registry_inv queue cap r" and "get_for_session session root r \<noteq> None"
    and run: "cancel_actor_subtree session root r = (results, r')"
  shows "distinct (map fst results)
    \<and> set (map fst results) = {a. (parent_of (actors r) session)\<^sup>*\<^sup>* a root}
    \<and> (\<forall>a rec. (parent_of (actors r) session)\<^sup>*\<^sup>* a root \<and> get_for_session session a r = Some rec \<longrightarrow>
         (\<exists>rec'. get_for_session session a r' = Some rec' \<and> stopped_from rec rec'
            \<and> (cancelled rec' \<longrightarrow> is_cancelled_for_session session a r')))
    \<and> (\<forall>s a. \<not> (s = session \<and> (parent_of (actors r) session)\<^sup>*\<^sup>* a root) \<longrightarrow>
         get_for_session s a r' = get_for_session s a r)"
proof -
  let ?ids = "actor_subtree_ids session root r"
  have wf: "roster_wf (actors r)" using inv by (simp add: registry_inv_def)
  have ids: "?ids = subtree_loop (actors r) session [] [root]"
    using assms(2) by (auto simp: actor_subtree_ids_def)
  have set_ids: "set ?ids = {a. (parent_of (actors r) session)\<^sup>*\<^sup>* a root}"
    unfolding ids by (rule subtree_loop_root [OF wf])
  have r': "r' = snd (cancel_each session ?ids r)" and fst: "map fst results = ?ids"
    using run map_fst_cancel_each [of session ?ids r] by (auto simp: cancel_actor_subtree_def)
  have inv': "tokens_inv r'"
    using registry_inv_cancel_each [OF inv, of session ?ids] by (simp add: r' registry_inv_def)
  have "\<exists>rec'. get_for_session session a r' = Some rec' \<and> stopped_from rec rec'
      \<and> (cancelled rec' \<longrightarrow> is_cancelled_for_session session a r')"
    if "(parent_of (actors r) session)\<^sup>*\<^sup>* a root" "get_for_session session a r = Some rec" for a rec
  proof -
    from that cancel_each_self [of a ?ids r session] obtain rec' where
      "map_of (actors r') (session, a) = Some rec'" "stopped_from rec rec'"
      by (auto simp: set_ids r' get_for_session_def option_rel_Some1)
    with tokens_invD(3) [OF inv'] show ?thesis
      by (fastforce simp: get_for_session_def is_cancelled_for_session_def)
  qed
  moreover have "get_for_session s a r' = get_for_session s a r"
    if "\<not> (s = session \<and> (parent_of (actors r) session)\<^sup>*\<^sup>* a root)" for s a
    using cancel_each_other [of "(s, a)" session ?ids r] that set_ids by (simp add: get_for_session_def r')
  moreover have "distinct (map fst results)" unfolding fst ids by (rule subtree_loop_distinct) simp
  ultimately show ?thesis using set_ids fst by simp
qed

theorem cancel_actor_subtree_correct_witness:
  "\<exists>results r' rec'. cancel_actor_subtree ''s'' (ActorId ''A0'') sample_registry = (results, r')
     \<and> get_for_session ''s'' (ActorId ''B1'') r' = Some rec' \<and> cancelled rec'
     \<and> is_cancelled_for_session ''s'' (ActorId ''B1'') r'"
proof -
  obtain results r' where run: "cancel_actor_subtree ''s'' (ActorId ''A0'') sample_registry = (results, r')"
    by fastforce
  have "parent_of (actors sample_registry) ''s'' (ActorId ''B1'') (ActorId ''A0'')"
    using sample_registry_get(2)
    by (simp add: parent_of_def get_for_session_def sample_record_def)
  then have "(parent_of (actors sample_registry) ''s'')\<^sup>*\<^sup>* (ActorId ''B1'') (ActorId ''A0'')" by blast
  with cancel_actor_subtree_correct [OF sample_registry_inv _ run] sample_registry_get
  obtain rec' where "get_for_session ''s'' (ActorId ''B1'') r' = Some rec'"
    "stopped_from (sample_record ''B1'' (Some ''A0'')) rec'"
    "cancelled rec' \<longrightarrow> is_cancelled_for_session ''s'' (ActorId ''B1'') r'" by blast
  with run show ?thesis by (auto simp: stopped_from_def sample_record_def)
qed

text \<open>C31. A cancellation is final: an actor recorded as cancelled can be neither completed nor failed
  afterwards, the registry refuses with no change at all, and cancelling it again reports so without
  touching its record or emitting an event.\<close>

theorem cancelled_is_final:
  assumes "get_for_session session a r = Some rec" "cancelled rec"
  shows "mark_complete_for_session session a r = (False, r)
    \<and> mark_complete_with_resources_for_session session a art hist r = (False, r)
    \<and> mark_failed_for_session session a why r = (False, r)
    \<and> record_actor_error session a why r = (None, r)
    \<and> fst (cancel_actor session a r) = AlreadyCancelled
    \<and> get_for_session session a (snd (cancel_actor session a r)) = Some rec
    \<and> emitted (snd (cancel_actor session a r)) = emitted r"
  using assms
  by (simp add: mark_complete_for_session_def mark_complete_with_resources_for_session_def
      mark_failed_for_session_def record_actor_error_def mark_failed_with_supervision_for_session_def
      mark_complete_record_def mark_failed_record_def cancel_actor_def Let_def split_beta
      get_for_session_def frame_simps cancel_session_token_def cancel_token_for_session_def
      ensure_cancel_token_def token_new_def token_cancel_def utc_now_def split: option.split)

theorem cancelled_is_final_witness:
  "mark_complete_for_session ''s'' (ActorId ''B1'')
     (snd (cancel_actor ''s'' (ActorId ''B1'') sample_registry)) =
   (False, snd (cancel_actor ''s'' (ActorId ''B1'') sample_registry))"
proof -
  have "\<exists>rec. get_for_session ''s'' (ActorId ''B1'') (snd (cancel_actor ''s'' (ActorId ''B1'') sample_registry))
      = Some rec \<and> cancelled rec"
    using cancel_actor_self [of sample_registry "''s''" "ActorId ''B1''"] sample_registry_get(2)
    by (auto simp: get_for_session_def option_rel_Some1 stopped_from_def sample_record_def)
  with cancelled_is_final show ?thesis by blast
qed

subsection \<open>Admission\<close>

lemma actors_track_one:
  "actors (track_one ops session (rec, sid) r) = AList.update (session, rec_id rec) rec (actors r)"
  by (simp add: track_one_def Let_def frame_simps put_actor_def split: option.split)

lemma actors_track_all:
  assumes "\<forall>(rec, _) \<in> set recs. map_of (actors r) (session, rec_id rec) = None"
    and "distinct (map (rec_id \<circ> fst) recs)"
  shows "actors (fold (track_one ops session) recs r) =
    actors r @ map (\<lambda>(rec, _). ((session, rec_id rec), rec)) recs"
  using assms
proof (induction recs arbitrary: r)
  case (Cons item recs)
  obtain rec sid where item: "item = (rec, sid)" by fastforce
  have fresh: "actors (track_one ops session item r) = actors r @ [((session, rec_id rec), rec)]"
    using Cons.prems(1) by (simp add: item actors_track_one update_fresh)
  have "\<forall>(rec', _) \<in> set recs. map_of (actors (track_one ops session item r)) (session, rec_id rec') = None"
  proof clarify
    fix rec' sid' assume mem: "(rec', sid') \<in> set recs"
    then have "rec_id rec' \<in> (rec_id \<circ> fst) ` set recs" by force
    moreover have "rec_id rec \<notin> (rec_id \<circ> fst) ` set recs" using Cons.prems(2) by (simp add: item)
    ultimately have "rec_id rec' \<noteq> rec_id rec" by metis
    moreover have "map_of (actors r) (session, rec_id rec') = None" using Cons.prems(1) mem by auto
    ultimately show "map_of (actors (track_one ops session item r)) (session, rec_id rec') = None"
      by (simp add: fresh)
  qed
  with Cons.IH [of "track_one ops session item r"] Cons.prems(2) show ?case
    by (simp add: fresh [unfolded item] item)
qed simp

lemma validate_modes_limit: "validate_modes recs \<noteq> Inl (SessionActorLimit n)"
  by (induction recs rule: validate_modes.induct) (auto split: option.split sum.split)

text \<open>C20. Admission of a wave of new actors is all or nothing and bounded: a refused batch leaves the
  registry untouched, and is refused for room exactly when the live actors of the session and the new
  live ones exceed 64; an admitted batch adds every record and the session then has at most 64 live
  actors.\<close>

theorem track_batch_atomic_bounded:
  assumes new: "\<forall>(rec, _) \<in> set recs. get_for_session session (rec_id rec) r = None"
    and dist: "distinct (map (rec_id \<circ> fst) recs)"
    and run: "track_batch_for_session ops session recs r = (res, r')"
  shows "case res of
      Inl e \<Rightarrow> r' = r \<and> (e = SessionActorLimit 64 \<longrightarrow>
        64 < live_count session r + length (filter (\<lambda>(rec, _). is_live_status (status rec)) recs))
    | Inr _ \<Rightarrow> live_count session r' =
          live_count session r + length (filter (\<lambda>(rec, _). is_live_status (status rec)) recs)
        \<and> live_count session r' \<le> 64
        \<and> list_for_session session r' = list_for_session session r @ map fst recs"
proof -
  let ?live = "\<lambda>(rec, _). is_live_status (status rec)"
  have fresh: "\<forall>(rec, _) \<in> set recs. map_of (actors r) (session, rec_id rec) = None"
    using new by (simp add: get_for_session_def)
  have count: "new_live_count session recs r = length (filter ?live recs)"
    unfolding new_live_count_def using fresh by (intro arg_cong [of _ _ length] filter_cong) auto
  note acts = actors_track_all [OF fresh dist, of ops]
  have grown: "live_count session (fold (track_one ops session) recs r) =
      live_count session r + length (filter ?live recs)"
    unfolding live_count_def acts by (simp add: filter_map comp_def case_prod_unfold)
  have listed: "list_for_session session (fold (track_one ops session) recs r) =
      list_for_session session r @ map fst recs"
    unfolding list_for_session_def acts by (simp add: filter_map comp_def split_beta)
  show ?thesis
  proof (cases res)
    case (Inl e)
    with run show ?thesis
      by (auto simp: track_batch_for_session_def count usize_sat_add_less validate_modes_limit
          split: sum.splits if_splits)
  next
    case (Inr u)
    with run have "r' = fold (track_one ops session) recs r"
      "\<not> 64 < usize_sat_add (live_count session r) (length (filter ?live recs))"
      by (auto simp: track_batch_for_session_def count split: sum.splits if_splits)
    with grown listed Inr show ?thesis by (simp add: usize_sat_add_less)
  qed
qed

theorem track_batch_atomic_bounded_witness:
  "\<exists>r'. track_batch_for_session list_channel ''s'' [(sample_record ''A0'' None, root_actor_id)]
        (registry_new (\<lambda>_. 0)) = (Inr (), r')
     \<and> live_count ''s'' r' = 1 \<and> list_for_session ''s'' r' = [sample_record ''A0'' None]"
proof -
  let ?recs = "[(sample_record ''A0'' None, root_actor_id)]" and ?r = "registry_new (\<lambda>_. 0)"
  obtain res r' where run: "track_batch_for_session list_channel ''s'' ?recs ?r = (res, r')" by fastforce
  moreover have "res = Inr ()" using run
    by (auto simp: track_batch_for_session_def sample_record_def live_count_def new_live_count_def
        usize_sat_add_def registry_new_def split: if_splits)
  ultimately show ?thesis
    using track_batch_atomic_bounded [OF _ _ run]
    by (simp add: get_for_session_def registry_new_def live_count_def list_for_session_def
        sample_record_def is_live_status_def)
qed

subsection \<open>Restarts\<close>

lemma length_filter_update:
  assumes "map_of as k = Some old"
  shows "length (filter P (AList.update k v as)) + (if P (k, old) then 1 else 0) =
    length (filter P as) + (if P (k, v) then 1 else 0)"
  using assms by (induction as) (auto split: if_splits)

text \<open>C33. A restart round-trips: remembering a spec and preparing the restart of its actor gives the
  same spec back with a token that no actor had before and that is not cancelled; the actor is then
  tracked as running, not cancelled and not failed, and its inbox is new.\<close>

theorem restart_roundtrip:
  assumes inv: "registry_inv queue cap r"
    and run: "prepare_actor_restart_for_session ops (spec_session_id spec) (spec_id spec)
      (remember_restart_spec spec r) = (res, r')"
  shows "res = Some (spec\<lparr>spec_cancellation := next_token r\<rparr>)
    \<and> (\<forall>k. cancel_tokens r k \<noteq> Some (next_token r))
    \<and> cancel_tokens r' (spec_session_id spec, spec_id spec) = Some (next_token r)
    \<and> \<not> is_cancelled_for_session (spec_session_id spec) (spec_id spec) r'
    \<and> inboxes r' (spec_session_id spec, spec_id spec) = Some (inbox_new ops)
    \<and> (\<exists>rec. get_for_session (spec_session_id spec) (spec_id spec) r' = Some rec
         \<and> status rec = Running \<and> \<not> cancelled rec \<and> rec_failure_reason rec = None)"
proof -
  let ?s = "spec_session_id spec" and ?a = "spec_id spec" and ?r = "remember_restart_spec spec r"
  obtain tpl where tpl: "restart_templates ?r (?s, ?a) = Some tpl"
    and spec: "to_spec tpl (next_token r) = spec\<lparr>spec_cancellation := next_token r\<rparr>"
    by (simp add: remember_restart_spec_def Let_def to_spec_def from_spec_def)
  have nt: "next_token ?r = next_token r" by (simp add: remember_restart_spec_def Let_def)
  from prepare_restart_state [OF tpl, of ops] obtain rec where
    "res = Some (to_spec tpl (next_token r))" "status rec = Running" "\<not> cancelled rec"
    "rec_failure_reason rec = None" "actors r' = AList.update (?s, ?a) rec (actors ?r)"
    "cancel_tokens r' = (cancel_tokens ?r)((?s, ?a) \<mapsto> next_token r)"
    "token_flags r' = (token_flags ?r)(next_token r := False)"
    "inboxes r' = (inboxes ?r)((?s, ?a) \<mapsto> inbox_new ops)"
    using run unfolding nt by auto
  moreover have "cancel_tokens r k \<noteq> Some (next_token r)" for k
    using inv tokens_invD(1) [of r k "next_token r"] by (auto simp: registry_inv_def)
  ultimately show ?thesis
    by (simp add: spec is_cancelled_for_session_def get_for_session_def update_conv')
qed

definition sample_spec :: actor_spec where
  "sample_spec = \<lparr>spec_id = ActorId ''B1'', spec_session_id = ''s'', spec_project_id = None,
     spec_role = ''worker'', spec_task = ''count'', spec_mode = None, spec_grants = no_grants,
     spec_budget = default_actor_budget, spec_parent = Some (ActorId ''A0''), spec_depth = 0,
     spec_cancellation = 0\<rparr>"

theorem restart_roundtrip_witness:
  "\<exists>r'. prepare_actor_restart_for_session list_channel ''s'' (ActorId ''B1'')
       (remember_restart_spec sample_spec sample_registry) =
         (Some (sample_spec\<lparr>spec_cancellation := next_token sample_registry\<rparr>), r')
     \<and> \<not> is_cancelled_for_session ''s'' (ActorId ''B1'') r'"
proof -
  obtain res r' where "prepare_actor_restart_for_session list_channel (spec_session_id sample_spec)
      (spec_id sample_spec) (remember_restart_spec sample_spec sample_registry) = (res, r')" by fastforce
  with restart_roundtrip [OF sample_registry_inv this] show ?thesis by (auto simp: sample_spec_def)
qed

text \<open>C34. A restart does not ask for room: restarting a terminated actor of which a spec is remembered
  raises the number of live actors of its session by one, however many are live already. The limit of
  64 live actors that admission enforces does not bind restarts.\<close>

theorem restart_ignores_limit:
  assumes "restart_templates r (session, a) = Some tpl"
    and "get_for_session session a r = Some rec" "status rec = Terminated"
  shows "live_count session (snd (prepare_actor_restart_for_session ops session a r)) =
    live_count session r + 1"
proof -
  obtain rec' r' where "prepare_actor_restart_for_session ops session a r = (Some (to_spec tpl (next_token r)), r')"
    "status rec' = Running" "actors r' = AList.update (session, a) rec' (actors r)"
    using prepare_restart_state [OF assms(1), of ops] by auto
  moreover from length_filter_update [of "actors r" "(session, a)" rec
      "\<lambda>(key, rec). fst key = session \<and> is_live_status (status rec)" rec'] assms(2,3)
  have "length (filter (\<lambda>(key, rec). fst key = session \<and> is_live_status (status rec))
      (AList.update (session, a) rec' (actors r))) = live_count session r + 1"
    if "status rec' = Running"
    using that by (simp add: get_for_session_def live_count_def is_live_status_def)
  ultimately show ?thesis by (simp add: live_count_def)
qed

theorem restart_ignores_limit_witness:
  "let r = remember_restart_spec sample_spec (snd (cancel_actor ''s'' (ActorId ''B1'') sample_registry))
   in live_count ''s'' (snd (prepare_actor_restart_for_session list_channel ''s'' (ActorId ''B1'') r)) =
      live_count ''s'' r + 1"
proof -
  let ?c = "snd (cancel_actor ''s'' (ActorId ''B1'') sample_registry)"
  obtain rec where "get_for_session ''s'' (ActorId ''B1'') ?c = Some rec" "status rec = Terminated"
    using cancel_actor_self [of sample_registry "''s''" "ActorId ''B1''"] sample_registry_get(2)
    by (auto simp: get_for_session_def option_rel_Some1 stopped_from_def sample_record_def)
  then have "get_for_session ''s'' (ActorId ''B1'') (remember_restart_spec sample_spec ?c) = Some rec"
    "status rec = Terminated"
    by (simp_all add: remember_restart_spec_def Let_def get_for_session_def)
  moreover have "restart_templates (remember_restart_spec sample_spec ?c) (''s'', ActorId ''B1'') =
      Some (from_spec sample_spec (supervisor_id_for_actor ''s'' (ActorId ''B1'') (Some (ActorId ''A0'')) ?c))"
    by (simp add: remember_restart_spec_def Let_def sample_spec_def)
  ultimately show ?thesis unfolding Let_def by (rule restart_ignores_limit [rotated])
qed

subsection \<open>Delivery\<close>

definition inbox_contents ::
    "('ch \<Rightarrow> actor_message list) \<Rightarrow> string \<Rightarrow> actor_id \<Rightarrow> 'ch mailbox_registry \<Rightarrow> actor_message list" where
  "inbox_contents queue session a r =
     (case inboxes r (session, a) of None \<Rightarrow> [] | Some i \<Rightarrow> contents queue i)"

lemma ensure_inbox_contents:
  assumes "fifo_channel ops queue cap" "ensure_inbox ops session a r = (i, r1)"
  shows "contents queue i = inbox_contents queue session a r"
    and "inbox_contents queue s b r1 = inbox_contents queue s b r"
    and "actors r1 = actors r"
  using assms
  by (auto simp: ensure_inbox_def inbox_contents_def inbox_new_def contents_def fifo_channelD(1)
      split: option.splits if_splits)

text \<open>C30. A receipt tells the truth about a send. \<open>Delivered\<close>: the recipient was reachable, its inbox
  now ends with the message and no other inbox changed. \<open>Unreachable\<close>: the recipient is neither the
  root nor a live actor of the session, and nothing changed. \<open>Backpressured\<close>: the inbox is at 64
  queued messages or the message would take it over 64 KiB, and no inbox gained or lost a message. An
  error means the text was over its limit, and nothing changed.\<close>

theorem send_message_receipt:
  assumes "fifo_channel ops queue cap" "registry_inv queue cap r" "0 < message_bytes m"
    and "send_message_for_session ops session m r = (res, r')"
  shows "case res of
      Inl _ \<Rightarrow> MAX_ACTOR_MESSAGE_BYTES < length (msg_text m) \<and> r' = r
    | Inr Delivered \<Rightarrow> is_reachable session (msg_to m) r
        \<and> (\<forall>s b. inbox_contents queue s b r' =
             inbox_contents queue s b r @ (if (s, b) = (session, msg_to m) then [m] else []))
    | Inr Unreachable \<Rightarrow> \<not> is_reachable session (msg_to m) r \<and> r' = r
    | Inr Backpressured \<Rightarrow> is_reachable session (msg_to m) r
        \<and> (MAX_INBOX_BYTES < total_bytes (inbox_contents queue session (msg_to m) r) + message_bytes m
           \<or> MAX_INBOX_MESSAGES \<le> length (inbox_contents queue session (msg_to m) r))
        \<and> (\<forall>s b. inbox_contents queue s b r' = inbox_contents queue s b r)"
proof -
  obtain i r1 where ens: "ensure_inbox ops session (msg_to m) r = (i, r1)" by fastforce
  note same = ensure_inbox_contents [OF assms(1) ens]
  from assms(1-3) ens assms(4) show ?thesis
  proof (cases rule: send_message_cases)
    case full
    moreover have "length (queue (channel i)) \<le> length (contents queue i)" by (simp add: contents_def)
    ultimately show ?thesis using same by auto
  next
    case (delivered i')
    then have "inbox_contents queue s b r' =
        (if (s, b) = (session, msg_to m) then contents queue i @ [m] else inbox_contents queue s b r1)" for s b
      by (simp add: inbox_contents_def frame_simps put_inbox_def)
    with delivered same show ?thesis by auto
  qed simp_all
qed

theorem send_message_receipt_witness:
  "\<exists>r'. send_message_for_session list_channel ''s'' ((sample_message ''A0'' ''go'')\<lparr>msg_to := ActorId ''B1''\<rparr>)
        sample_registry = (Inr Delivered, r')
     \<and> inbox_contents fst ''s'' (ActorId ''B1'') r' =
         inbox_contents fst ''s'' (ActorId ''B1'') sample_registry
           @ [(sample_message ''A0'' ''go'')\<lparr>msg_to := ActorId ''B1''\<rparr>]"
proof -
  let ?m = "(sample_message ''A0'' ''go'')\<lparr>msg_to := ActorId ''B1''\<rparr>"
  obtain res r' where run: "send_message_for_session list_channel ''s'' ?m sample_registry = (res, r')"
    by fastforce
  have bytes: "message_bytes ?m = 6"
    by (simp add: message_bytes_def sample_message_def usize_sat_add_def)
  have inbox: "inbox_contents fst ''s'' (ActorId ''B1'') sample_registry = []"
    by (simp add: inbox_contents_def contents_def sample_registry_def track_batch_for_session_def
        sample_record_def live_count_def new_live_count_def usize_sat_add_def registry_new_def
        track_one_def Let_def frame_simps inbox_new_def list_channel_def)
  have "is_reachable ''s'' (msg_to ?m) sample_registry"
    using sample_registry_get(2) by (simp add: is_reachable_def is_live_status_def sample_record_def)
  moreover have "msg_to ?m = ActorId ''B1''" "length (msg_text ?m) = 2" by (simp_all add: sample_message_def)
  ultimately show ?thesis
    using send_message_receipt [OF fifo_list_channel sample_registry_inv _ run] run bytes inbox
    by (auto split: sum.splits receipt.splits)
qed

end
