(* ===== verification/Actor_Ids.thy ===== *)
theory Actor_Ids
  imports Registry
begin

text \<open>
  Generated actor ids, \<open>next_actor_id\<close> and \<open>next_supervisor_id\<close> of
  \<open>crates/tm-agents/src/mailbox.rs\<close>: they never panic, are well formed, and actor ids are unique for
  distinct sequence numbers.

  The Unicode tables are a parameter. \<open>upper_casing_ok\<close> names what the Unicode database guarantees of
  upper casing: it maps an alphanumeric character to characters, and an alphabetic one to none of the
  ASCII digits.
\<close>

definition upper_casing_ok :: "unicode_tables \<Rightarrow> bool" where
  "upper_casing_ok u \<longleftrightarrow>
     (\<forall>c. 128 \<le> c \<longrightarrow> list_all scalar (uni_to_upper u c))
   \<and> (\<forall>c. 128 \<le> c \<and> uni_alphabetic u c \<longrightarrow> list_all (\<lambda>d. \<not> is_ascii_digit d) (uni_to_upper u c))"

lemma valid_chars: "valid_utf8 s \<Longrightarrow> list_all scalar (str_chars s)"
  by (auto simp: valid_utf8_def str_chars_of_chars)

lemma list_all_filter_chars: "list_all P xs \<Longrightarrow> list_all P (filter Q xs)"
  by (simp add: list_all_iff)

lemma upper_scalar:
  "upper_casing_ok u \<Longrightarrow> list_all scalar (to_uppercase u c)"
  by (auto simp: to_uppercase_def upper_casing_ok_def scalar_def ascii_defs)

lemma upper_no_digit:
  "upper_casing_ok u \<Longrightarrow> is_alphabetic u c \<Longrightarrow> list_all (\<lambda>d. \<not> is_ascii_digit d) (to_uppercase u c)"
  by (auto simp: upper_casing_ok_def unicode_defs)

lemma alphabetic_no_digit: "is_alphabetic u c \<Longrightarrow> \<not> is_ascii_digit c"
  by (auto simp: is_alphabetic_def ascii_defs)

lemma no_digit_bytes:
  assumes "list_all scalar cs" "list_all (\<lambda>c. \<not> is_ascii_digit c) cs"
  shows "list_all (\<lambda>b. \<not> is_ascii_digit (byte b)) (str_of_chars cs)"
proof -
  have "valid_utf8 (str_of_chars cs)" using assms(1) by (auto simp: valid_utf8_def)
  from any_ascii_bytes [of is_ascii_digit, OF _ this] assms show ?thesis
    by (auto simp: str_chars_of_chars list_all_iff list_ex_iff is_ascii_digit_def)
qed

lemma char_of_examples:
  "char_of (65 :: nat) = CHR ''A''" "char_of (71 :: nat) = CHR ''G''" "char_of (49 :: nat) = CHR ''1''"
  by code_simp+

text \<open>The ids both generators fall back to.\<close>

lemma show_nat_ascii: "list_all (\<lambda>b. byte b < 128) (show_nat n)"
  using show_nat_digits [of n] by (auto simp: list_all_iff is_ascii_digit_def)

lemma fallback_id_ok:
  assumes "list_all (\<lambda>b. is_ascii_alphabetic (byte b)) p" "p \<noteq> []" "is_ascii_uppercase (byte (hd p))"
    and "length p + length (show_nat n) \<le> 32"
  shows "actor_id_new u (p @ show_nat n) = Inr (ActorId (p @ show_nat n))"
proof -
  have "list_all (\<lambda>b. byte b < 128) p" using assms(1) by (auto simp: list_all_iff ascii_defs)
  then have chars: "str_chars (p @ show_nat n) = map of_char (p @ show_nat n)"
    using show_nat_ascii [of n] by (intro str_chars_ascii) simp
  have "list_all (is_alphanumeric u) (map of_char (p @ show_nat n))"
    using assms(1) show_nat_digits [of n]
    by (auto simp: list_all_iff is_alphanumeric_def is_alphabetic_def is_numeric_def)
  with assms chars have "is_camel_case u (p @ show_nat n)"
    by (cases p) (auto simp: is_camel_case_def is_uppercase_def)
  with assms(4) show ?thesis by (simp add: actor_id_new_def)
qed

lemma length_show_nat: "n < 10 ^ k \<Longrightarrow> 0 < k \<Longrightarrow> length (show_nat n) \<le> k"
proof (induction k arbitrary: n)
  case (Suc k)
  show ?case
  proof (cases "n < 10")
    case True
    then show ?thesis by (subst show_nat.simps) simp
  next
    case False
    then have "0 < k" using Suc.prems by (cases k) auto
    with Suc.IH [of "n div 10"] Suc.prems(1) have "length (show_nat (n div 10)) \<le> k" by auto
    with False show ?thesis by (subst show_nat.simps) simp
  qed
qed simp

lemma length_show_u64: "length (show_nat (unat (n :: u64))) \<le> 20"
proof (rule length_show_nat)
  have "unat n < 2 ^ 64" using unat_bound [of n] by simp
  then show "unat n < 10 ^ 20" by (rule less_trans) simp
qed simp

lemma actor_id_new_Inr: "actor_id_new u s = Inr i \<Longrightarrow> i = ActorId s \<and> length s \<le> 32 \<and> is_camel_case u s"
  by (auto simp: actor_id_new_def split: if_splits)

text \<open>A generated id is a digit-free prefix followed by the sequence number.\<close>

lemma next_actor_id_shape:
  assumes u: "upper_casing_ok u" and role: "valid_utf8 role"
  shows "\<exists>p. fst (next_actor_id u role r) = Some (ActorId (p @ show_nat (unat (next_seq r))))
    \<and> actor_id_new u (p @ show_nat (unat (next_seq r))) = Inr (ActorId (p @ show_nat (unat (next_seq r))))
    \<and> list_all (\<lambda>b. \<not> is_ascii_digit (byte b)) p"
proof -
  let ?n = "unat (next_seq r)"
  define chars where "chars = filter (is_alphabetic u) (str_chars role)"
  define first where "first = (case chars of [] \<Rightarrow> [65] | c # _ \<Rightarrow> to_uppercase u c)"
  define cs where "cs = first @ take 15 (tl chars)"
  have alpha: "list_all (is_alphabetic u) chars" by (simp add: chars_def list_all_iff)
  have "list_all scalar chars"
    unfolding chars_def by (rule list_all_filter_chars [OF valid_chars [OF role]])
  then have scalars: "list_all scalar cs"
    using upper_scalar [OF u]
    by (cases chars) (auto simp: cs_def first_def scalar_def list_all_iff dest: in_set_takeD)
  have nodigit: "list_all (\<lambda>c. \<not> is_ascii_digit c) cs"
  proof (cases chars)
    case (Cons c rest)
    have "list_all (\<lambda>c. \<not> is_ascii_digit c) (take 15 rest)"
      using alpha alphabetic_no_digit by (auto simp: Cons list_all_iff dest!: in_set_takeD)
    with Cons alpha upper_no_digit [OF u, of c] show ?thesis by (simp add: cs_def first_def)
  qed (simp add: cs_def first_def is_ascii_digit_def)
  let ?p = "str_of_chars (take (32 - length (show_nat ?n)) cs)"
  have prefix: "(case chars of [] \<Rightarrow> ''A'' | c # _ \<Rightarrow> str_of_chars (to_uppercase u c))
      @ str_of_chars (take 15 (tl chars)) = str_of_chars cs"
    by (simp add: cs_def first_def encode_char_def char_of_examples split: list.split)
  have p: "list_all (\<lambda>b. \<not> is_ascii_digit (byte b)) ?p"
    by (rule no_digit_bytes) (use scalars nodigit in \<open>auto intro: list_all_take\<close>)
  have A: "actor_id_new u (''A'' @ show_nat ?n) = Inr (ActorId (''A'' @ show_nat ?n))"
    by (rule fallback_id_ok) (use length_show_u64 [of "next_seq r"] in \<open>simp_all add: ascii_defs\<close>)
  have "fst (next_actor_id u role r) = (case actor_id_new u (?p @ show_nat ?n) of
      Inr i \<Rightarrow> Some i | Inl _ \<Rightarrow> Some (ActorId (''A'' @ show_nat ?n)))"
    unfolding next_actor_id_def Let_def chars_def [symmetric] fst_conv prefix
      str_chars_of_chars [OF scalars] A
    by (simp split: sum.split)
  moreover have "list_all (\<lambda>b. \<not> is_ascii_digit (byte b)) ''A''" by (simp add: ascii_defs)
  ultimately show ?thesis
  proof (cases "actor_id_new u (?p @ show_nat ?n)")
    case (Inr i)
    then have "i = ActorId (?p @ show_nat ?n)" by (simp add: actor_id_new_Inr)
    with Inr p \<open>fst (next_actor_id u role r) = _\<close> show ?thesis by (intro exI [of _ ?p]) simp
  qed (use A in \<open>intro exI [of _ "''A''"], simp\<close>)
qed

lemma trailing_digits:
  assumes "list_all (\<lambda>b. \<not> is_ascii_digit (byte b)) p"
  shows "takeWhile (\<lambda>b. is_ascii_digit (byte b)) (rev (p @ show_nat n)) = rev (show_nat n)"
proof -
  have "takeWhile (\<lambda>b. is_ascii_digit (byte b)) (rev p) = []"
    using assms by (cases p rule: rev_cases) (simp_all add: list_all_iff)
  moreover have "\<forall>b \<in> set (rev (show_nat n)). is_ascii_digit (byte b)"
    using show_nat_digits [of n] by (simp add: list_all_iff)
  ultimately show ?thesis by (subst rev_append, subst takeWhile_append2) auto
qed

text \<open>C35. Generated actor ids are valid and unique: for every role the generator returns an id that the
  id check accepts, so its \<open>expect\<close> never fires, and two calls at different sequence numbers return
  different ids whatever their roles.\<close>

theorem next_actor_id_valid_unique:
  assumes "upper_casing_ok u" "valid_utf8 role" "valid_utf8 role'" "next_seq r \<noteq> next_seq r'"
  shows "\<exists>i i'. fst (next_actor_id u role r) = Some i \<and> fst (next_actor_id u role' r') = Some i'
    \<and> actor_id_new u (as_str i) = Inr i \<and> i \<noteq> i'"
proof -
  obtain p where p: "fst (next_actor_id u role r) = Some (ActorId (p @ show_nat (unat (next_seq r))))"
    "actor_id_new u (p @ show_nat (unat (next_seq r))) = Inr (ActorId (p @ show_nat (unat (next_seq r))))"
    "list_all (\<lambda>b. \<not> is_ascii_digit (byte b)) p"
    using next_actor_id_shape [OF assms(1,2), of r] by blast
  obtain p' where p': "fst (next_actor_id u role' r') = Some (ActorId (p' @ show_nat (unat (next_seq r'))))"
    "list_all (\<lambda>b. \<not> is_ascii_digit (byte b)) p'"
    using next_actor_id_shape [OF assms(1,3), of r'] by blast
  have "p @ show_nat (unat (next_seq r)) \<noteq> p' @ show_nat (unat (next_seq r'))"
  proof
    assume "p @ show_nat (unat (next_seq r)) = p' @ show_nat (unat (next_seq r'))"
    then have "rev (show_nat (unat (next_seq r))) = rev (show_nat (unat (next_seq r')))"
      using trailing_digits [OF p(3)] trailing_digits [OF p'(2)] by metis
    with assms(4) show False by (simp add: show_nat_inj word_unat_eq_iff)
  qed
  with p p' show ?thesis by auto
qed

theorem next_actor_id_valid_unique_witness:
  "\<exists>u i i'. upper_casing_ok u
     \<and> fst (next_actor_id u ''code review'' (registry_new (\<lambda>_. 0) :: unit mailbox_registry)) = Some i
     \<and> fst (next_actor_id u [] ((registry_new (\<lambda>_. 0) :: unit mailbox_registry)\<lparr>next_seq := 1\<rparr>)) = Some i'
     \<and> i \<noteq> i'"
proof -
  define u where "u = \<lparr>uni_alphabetic = (\<lambda>_. False), uni_numeric = (\<lambda>_. False),
    uni_uppercase = (\<lambda>_. False), uni_to_upper = (\<lambda>c. [])\<rparr>"
  have u: "upper_casing_ok u" by (simp add: upper_casing_ok_def u_def)
  moreover have "valid_utf8 ''code review''" "valid_utf8 []"
    by (rule valid_utf8_ascii; simp)+
  ultimately show ?thesis
    using next_actor_id_valid_unique [of u "''code review''" "[]"
      "registry_new (\<lambda>_. 0) :: unit mailbox_registry"
      "(registry_new (\<lambda>_. 0) :: unit mailbox_registry)\<lparr>next_seq := 1\<rparr>"]
    by (auto simp: registry_new_def)
qed

text \<open>Supervisor ids are not unique: labels may contain digits, and the digits run into the sequence
  number. The label \<open>G1\<close> at number 2 and the label \<open>G\<close> at number 12 give the same id.\<close>

lemma next_supervisor_id_collides:
  "fst (next_supervisor_id u ''G1'' ((registry_new clk :: 'ch mailbox_registry)\<lparr>next_supervisor_seq := 2\<rparr>)) =
     Some (ActorId ''G12'')
   \<and> fst (next_supervisor_id u ''G'' ((registry_new clk :: 'ch mailbox_registry)\<lparr>next_supervisor_seq := 12\<rparr>)) =
     Some (ActorId ''G12'')"
proof -
  have "str_chars ''G1'' = [71, 49]" "str_chars ''G'' = [71]" "str_chars ''G12'' = [71, 49, 50]"
    by (simp_all add: str_chars_ascii)
  moreover have "show_nat 2 = ''2''" "show_nat 12 = ''12''" by code_simp+
  ultimately show ?thesis
    by (simp add: next_supervisor_id_def Let_def unicode_defs encode_char_def actor_id_new_def
        is_camel_case_def char_of_examples)
qed

end
