(* ===== verification/Orchestrate.thy ===== *)
theory Orchestrate
  imports Registry
begin

text \<open>
  The \<open>agents.*\<close> host functions (\<open>crates/tm-agents/src/orchestrate\<close>).

  A call is a function on \<open>agents_world\<close>: the shared registry and the actors handed to detached
  threads, oldest first. \<open>None\<close> means that the call does not return: a panic of \<open>expect\<close>, or a wait
  that never ends. What the code takes from other crates and from the runtime is collected in
  \<open>agents_env\<close>: the JSON codec, the hasher, the time formatter, the executor with its timer, the
  monotonic clock (\<open>env_instant k\<close> is its \<open>k\<close>-th reading), what other tasks do to the world while a call
  awaits (\<open>env_others\<close>), and \<open>buffered\<close> of the \<open>futures\<close> crate.
\<close>

subsection \<open>World and environment\<close>

record 'ch agents_world =
  roster :: "'ch mailbox_registry"
  threads :: "actor_spec list"

record 'ch agents_env =
  env_unicode :: unicode_tables
  env_channels :: "'ch channel_ops"
  env_regex :: regex_engine
  env_json_from_str :: "string \<Rightarrow> json option"
  env_json_to_string :: "json \<Rightarrow> string + string"
  env_debug :: "string \<Rightarrow> string"
  env_hash :: "string option \<Rightarrow> string \<Rightarrow> u64"
  env_rfc3339 :: "timestamp \<Rightarrow> string"
  env_executor :: "'ch agents_world actor_runtime option"
  env_instant :: "nat \<Rightarrow> nat"
  env_others :: "nat \<Rightarrow> 'ch agents_world \<Rightarrow> 'ch agents_world"
  env_buffered :: "nat \<Rightarrow> ('ch agents_world \<Rightarrow> json host_result \<times> 'ch agents_world) list \<Rightarrow>
     'ch agents_world \<Rightarrow> json host_result list \<times> 'ch agents_world"

type_synonym ('a, 'ch) outcome = "('a host_result \<times> 'ch agents_world) option"

text \<open>The \<open>?\<close> operator, in pure code and in a call that has reached the world \<open>w\<close>.\<close>

definition bind_result :: "'a host_result \<Rightarrow> ('a \<Rightarrow> 'b host_result) \<Rightarrow> 'b host_result" where
  "bind_result res k = (case res of Inl e \<Rightarrow> Inl e | Inr v \<Rightarrow> k v)"

definition attempt :: "'a host_result \<Rightarrow> 'ch agents_world \<Rightarrow> ('a \<Rightarrow> ('b, 'ch) outcome) \<Rightarrow> ('b, 'ch) outcome" where
  "attempt res w k = (case res of Inl e \<Rightarrow> Some (Inl e, w) | Inr v \<Rightarrow> k v)"

definition ok_or :: "'a option \<Rightarrow> host_error \<Rightarrow> 'a host_result" where
  "ok_or v e = (case v of Some x \<Rightarrow> Inr x | None \<Rightarrow> Inl e)"

fun collect_results :: "'a host_result list \<Rightarrow> 'a list host_result" where
  "collect_results [] = Inr []"
| "collect_results (res # rest) =
     bind_result res (\<lambda>v. bind_result (collect_results rest) (\<lambda>vs. Inr (v # vs)))"

definition json_index :: "json \<Rightarrow> string \<Rightarrow> json" where
  "json_index v k = (case json_get v k of Some x \<Rightarrow> x | None \<Rightarrow> JNull)"

abbreviation (input) MAX_ACTORS_PER_CALL :: nat where "MAX_ACTORS_PER_CALL \<equiv> 8"
abbreviation (input) MAX_CONCURRENT_ACTORS :: nat where "MAX_CONCURRENT_ACTORS \<equiv> 4"
abbreviation (input) MAX_PIPELINE_STAGES :: nat where "MAX_PIPELINE_STAGES \<equiv> 4"
abbreviation (input) MAX_ACTOR_BATCH_TEXT_BYTES :: nat where "MAX_ACTOR_BATCH_TEXT_BYTES \<equiv> 32768"
abbreviation (input) MAX_PIPELINE_INPUT_BYTES :: nat where "MAX_PIPELINE_INPUT_BYTES \<equiv> 32768"
abbreviation (input) MAX_CHILD_CAPABILITIES :: nat where "MAX_CHILD_CAPABILITIES \<equiv> 32"
abbreviation (input) MAX_CHILD_CAPABILITY_BYTES :: nat where "MAX_CHILD_CAPABILITY_BYTES \<equiv> 128"
abbreviation (input) MAX_CHILD_CAPABILITY_TOTAL_BYTES :: nat where
  "MAX_CHILD_CAPABILITY_TOTAL_BYTES \<equiv> 2048"

subsection \<open>Error messages\<close>

fun show_actor_id_error :: "(string \<Rightarrow> string) \<Rightarrow> actor_id_error \<Rightarrow> string" where
  "show_actor_id_error dbg (TooLong n) =
     ''actor id must be '' @ map char_of [226, 137, 164 :: nat] @ ''32 characters, got '' @ show_nat n"
| "show_actor_id_error dbg (InvalidFormat s) =
     ''actor id must be CamelCase (start uppercase, alphanumeric only), got '' @ dbg s"

fun show_registry_error :: "registry_error \<Rightarrow> string" where
  "show_registry_error (SessionActorLimit n) = ''session actor limit of '' @ show_nat n @ '' reached''"
| "show_registry_error (InvalidText m) = ''actor text invalid: '' @ m"

fun show_actor_error :: "actor_error \<Rightarrow> string" where
  "show_actor_error (Execution m) = ''actor execution failed: '' @ m"
| "show_actor_error (InvalidSpec m) = ''actor spec invalid: '' @ m"
| "show_actor_error (ErrDepthExceeded n) = ''actor depth limit '' @ show_nat (unat n) @ '' exceeded''"
| "show_actor_error ErrTimeout = ''actor wall-clock budget exceeded''"
| "show_actor_error ErrCancelled = ''actor cancelled''"

fun cancel_result_str :: "cancel_actor_result \<Rightarrow> string" where
  "cancel_result_str CancelDone = ''cancelled''"
| "cancel_result_str AlreadyCancelled = ''already_cancelled''"
| "cancel_result_str AlreadyTerminated = ''already_terminated''"
| "cancel_result_str CancelNotFound = ''not_found''"

definition registry_result :: "registry_error + 'a \<Rightarrow> 'a host_result" where
  "registry_result res = (case res of Inl e \<Rightarrow> Inl (InvalidArgs (show_registry_error e)) | Inr v \<Rightarrow> Inr v)"

definition redact_actor_diagnostic :: "'ch agents_env \<Rightarrow> actor_error \<Rightarrow> string" where
  "redact_actor_diagnostic e error = report_text (redact_dream_text (env_regex e) (show_actor_error error))"

definition actor_id_arg :: "'ch agents_env \<Rightarrow> string \<Rightarrow> string \<Rightarrow> actor_id host_result" where
  "actor_id_arg e field i =
     (case actor_id_new (env_unicode e) i of
        Inl err \<Rightarrow> Inl (InvalidArgs (field @ '' invalid: '' @ show_actor_id_error (env_debug e) err))
      | Inr a \<Rightarrow> Inr a)"

subsection \<open>Callers\<close>

definition caller_actor_id :: "'ch agents_env \<Rightarrow> 'w invocation_ctx \<Rightarrow> actor_id host_result" where
  "caller_actor_id e ctx =
     (case actor_id ctx of Some i \<Rightarrow> actor_id_arg e ''actor_id'' i | None \<Rightarrow> Inr root_actor_id)"

definition caller_parent_id :: "'ch agents_env \<Rightarrow> 'w invocation_ctx \<Rightarrow> actor_id option host_result" where
  "caller_parent_id e ctx =
     (case actor_id ctx of
        Some i \<Rightarrow> bind_result (actor_id_arg e ''actor_id'' i) (\<lambda>a. Inr (Some a))
      | None \<Rightarrow> Inr None)"

subsection \<open>Argument checks\<close>

definition validate_bounded_text :: "string \<Rightarrow> string \<Rightarrow> nat \<Rightarrow> unit host_result" where
  "validate_bounded_text text field max_bytes =
     (if max_bytes < length text
      then Inl (InvalidArgs (field @ '' must be at most '' @ show_nat max_bytes @ '' UTF-8 bytes, got ''
                @ show_nat (length text)))
      else Inr ())"

definition parse_actor_ref :: "'ch agents_env \<Rightarrow> json \<Rightarrow> string \<Rightarrow> actor_id host_result" where
  "parse_actor_ref e v field =
     bind_result
       (ok_or (case json_as_str v of
                 Some i \<Rightarrow> Some i
               | None \<Rightarrow> Option.bind (json_get v ''id'') json_as_str)
         (InvalidArgs (field @ '' must be an actor id string or handle'')))
       (actor_id_arg e field)"

definition validate_plain_prose_text :: "'ch agents_env \<Rightarrow> string \<Rightarrow> string \<Rightarrow> unit host_result" where
  "validate_plain_prose_text e text field =
     (if str_trim text = [] then Inl (InvalidArgs (field @ '' must be non-empty plain prose''))
      else (case env_json_from_str e (str_trim text) of
          Some (JObject _) \<Rightarrow> Inl (InvalidArgs (field @ '' must be plain prose, not a JSON control payload''))
        | Some (JArray _) \<Rightarrow> Inl (InvalidArgs (field @ '' must be plain prose, not a JSON control payload''))
        | _ \<Rightarrow> Inr ()))"

definition parse_plain_prose_text :: "'ch agents_env \<Rightarrow> json \<Rightarrow> string \<Rightarrow> string host_result" where
  "parse_plain_prose_text e args field =
     bind_result (ok_or (Option.bind (json_get args field) json_as_str)
         (InvalidArgs (field @ '' must be a string'')))
       (\<lambda>text. bind_result (validate_plain_prose_text e text field)
         (\<lambda>_. bind_result (validate_bounded_text text field MAX_ACTOR_MESSAGE_BYTES) (\<lambda>_. Inr text)))"

definition parse_actor_text :: "json \<Rightarrow> string \<Rightarrow> nat \<Rightarrow> string host_result" where
  "parse_actor_text v field limit =
     bind_result (ok_or (json_as_str v) (InvalidArgs (field @ '' must be a string'')))
       (\<lambda>text. if str_trim text = [] then Inl (InvalidArgs (field @ '' must not be empty''))
         else bind_result (validate_bounded_text text field limit) (\<lambda>_. Inr text))"

definition parse_actor_role :: "json \<Rightarrow> string \<Rightarrow> string host_result" where
  "parse_actor_role v field = parse_actor_text v field MAX_ACTOR_ROLE_BYTES"

definition parse_actor_task :: "json \<Rightarrow> string \<Rightarrow> string host_result" where
  "parse_actor_task v field = parse_actor_text v field MAX_ACTOR_TASK_BYTES"

fun checked_total :: "string list \<Rightarrow> nat \<Rightarrow> nat option" where
  "checked_total [] bytes = Some bytes"
| "checked_total (v # vs) bytes =
     (case usize_checked_add bytes (length v) of None \<Rightarrow> None | Some t \<Rightarrow> checked_total vs t)"

definition validate_aggregate_text_bytes :: "string list \<Rightarrow> string \<Rightarrow> unit host_result" where
  "validate_aggregate_text_bytes values field =
     (case checked_total values 0 of
        None \<Rightarrow> Inl (InvalidArgs (field @ '' is too large''))
      | Some bytes \<Rightarrow>
          if MAX_ACTOR_BATCH_TEXT_BYTES < bytes
          then Inl (InvalidArgs (field @ '' must total at most '' @ show_nat MAX_ACTOR_BATCH_TEXT_BYTES
                     @ '' UTF-8 bytes, got '' @ show_nat bytes))
          else Inr ())"

definition parse_timeout_ms :: "json \<Rightarrow> nat \<Rightarrow> nat host_result" where
  "parse_timeout_ms args default_ms =
     (let v = (case json_get args ''timeoutMs'' of
                 Some x \<Rightarrow> Some x
               | None \<Rightarrow> Option.bind (json_get args ''opts'') (\<lambda>opts. json_get opts ''timeoutMs''))
      in (case Option.bind v json_as_u64 of
            Some ms \<Rightarrow> Inr ms
          | None \<Rightarrow> if v \<noteq> None then Inl (InvalidArgs ''timeoutMs must be a non-negative integer'')
                    else Inr default_ms))"

subsection \<open>Delegated capabilities\<close>

definition validate_child_capability_name :: "string \<Rightarrow> nat \<Rightarrow> unit host_result" where
  "validate_child_capability_name capability index =
     (let valid_chars = list_all (\<lambda>b. is_ascii_alphanumeric (byte b) \<or> b \<in> set ''.:_-*'') capability;
          wildcard_count = length (filter (\<lambda>b. b = CHR ''*'') capability);
          valid_wildcard = (wildcard_count = 0 \<or>
            (wildcard_count = 1 \<and> ends_with capability ''.*'' \<and> 2 < length capability))
      in if capability = [] \<or> MAX_CHILD_CAPABILITY_BYTES < length capability
            \<or> \<not> (case capability of b # _ \<Rightarrow> is_ascii_alphanumeric (byte b) | [] \<Rightarrow> False)
            \<or> \<not> valid_chars \<or> \<not> valid_wildcard
         then Inl (InvalidArgs (''opts.capabilities['' @ show_nat index
                @ ''] must be a safe capability name of at most ''
                @ show_nat MAX_CHILD_CAPABILITY_BYTES @ '' ASCII bytes''))
         else Inr ())"

definition is_child_delegable :: "string \<Rightarrow> bool" where
  "is_child_delegable capability \<longleftrightarrow>
     \<not> starts_with capability ''modes.'' \<and> \<not> starts_with capability ''backend.''"

text \<open>The loop over the requested names; \<open>requested\<close> is an ordered set, kept here as a list.\<close>

fun requested_capabilities ::
    "capability_grants \<Rightarrow> nat \<Rightarrow> nat \<Rightarrow> string list \<Rightarrow> json list \<Rightarrow> string list host_result" where
  "requested_capabilities held index sum_bytes requested [] = Inr requested"
| "requested_capabilities held index sum_bytes requested (v # vs) =
     bind_result (ok_or (json_as_str v)
         (InvalidArgs (''opts.capabilities['' @ show_nat index @ ''] must be a string'')))
       (\<lambda>capability. bind_result (validate_child_capability_name capability index)
       (\<lambda>_. bind_result (ok_or (usize_checked_add sum_bytes (length capability))
              (InvalidArgs ''opts.capabilities is too large''))
       (\<lambda>sum_bytes'.
          if MAX_CHILD_CAPABILITY_TOTAL_BYTES < sum_bytes'
          then Inl (InvalidArgs (''opts.capabilities must total at most ''
                 @ show_nat MAX_CHILD_CAPABILITY_TOTAL_BYTES @ '' UTF-8 bytes''))
          else if \<not> is_child_delegable capability
          then Inl (CapabilityDenied (''child capability '' @ capability @ '' is not delegable''))
          else if \<not> permits held capability
          then Inl (CapabilityDenied (''child capability '' @ capability @ '' is not held by the parent''))
          else requested_capabilities held (index + 1) sum_bytes' (capability # requested) vs)))"

definition child_agent_grants :: "'w invocation_ctx \<Rightarrow> json option \<Rightarrow> capability_grants host_result" where
  "child_agent_grants ctx opts =
     (case opts of
        None \<Rightarrow> Inr no_grants
      | Some opts \<Rightarrow>
          bind_result (ok_or (json_as_object opts) (InvalidArgs ''opts must be an object''))
            (\<lambda>object. case map_of object ''capabilities'' of
                None \<Rightarrow> Inr no_grants
              | Some capabilities \<Rightarrow>
                  bind_result (ok_or (json_as_array capabilities)
                      (InvalidArgs ''opts.capabilities must be an array''))
                    (\<lambda>names.
                       if MAX_CHILD_CAPABILITIES < length names
                       then Inl (InvalidArgs (''opts.capabilities must contain at most ''
                              @ show_nat MAX_CHILD_CAPABILITIES @ '' entries''))
                       else bind_result (requested_capabilities (grants ctx) 0 0 [] names)
                              (\<lambda>requested. Inr (allow_many no_grants requested)))))"

subsection \<open>Supervision options\<close>

fun parse_restart_strategy :: "string \<Rightarrow> restart_strategy host_result" where
  "parse_restart_strategy v =
     (if v = ''one_for_one'' then Inr OneForOne
      else if v = ''one_for_all'' then Inr OneForAll
      else if v = ''rest_for_one'' then Inr RestForOne
      else Inl (InvalidArgs (''unknown supervision strategy: '' @ v)))"

definition parse_u32_value :: "json \<Rightarrow> u32 host_result" where
  "parse_u32_value v =
     bind_result (ok_or (json_as_u64 v) (InvalidArgs ''maxRestarts must be a non-negative integer''))
       (\<lambda>n. if n < 2 ^ 32 then Inr (of_nat n) else Inl (InvalidArgs ''maxRestarts is too large''))"

definition hex_digit :: "nat \<Rightarrow> char" where
  "hex_digit n = char_of (if n < 10 then 48 + n else 87 + n)"

text \<open>\<open>{:016x}\<close>\<close>

definition hex16 :: "u64 \<Rightarrow> string" where
  "hex16 w = map (\<lambda>i. hex_digit (unat w div 16 ^ i mod 16)) (rev [0..<16])"

definition spawn_group_supervisor_id ::
    "'ch agents_env \<Rightarrow> actor_id option \<Rightarrow> string \<Rightarrow> actor_id host_result" where
  "spawn_group_supervisor_id e parent_id grp =
     (if str_trim grp = [] then Inl (InvalidArgs ''opts.supervision.group must not be empty'')
      else (case actor_id_new (env_unicode e)
                (''Supervisor'' @ hex16 (env_hash e (map_option as_str parent_id) grp)) of
          Inl err \<Rightarrow> Inl (InvalidArgs (''invalid supervision group: '' @ show_actor_id_error (env_debug e) err))
        | Inr i \<Rightarrow> Inr i))"

definition configure_supervision_from_opts ::
    "'ch agents_env \<Rightarrow> string \<Rightarrow> actor_id option \<Rightarrow> json option \<Rightarrow> 'ch mailbox_registry \<Rightarrow>
     actor_id option host_result \<times> 'ch mailbox_registry" where
  "configure_supervision_from_opts e session parent_id opts r =
     (case Option.bind opts (\<lambda>o'. json_get o' ''supervision'') of
        None \<Rightarrow> (Inr None, r)
      | Some supervision \<Rightarrow>
          (case bind_result
              (ok_or (json_as_object supervision) (InvalidArgs ''opts.supervision must be an object''))
              (\<lambda>object.
                 let group = Option.bind (map_of object ''group'') json_as_str
                 in bind_result
                      (case Option.bind (map_of object ''strategy'') json_as_str of
                         Some s \<Rightarrow> parse_restart_strategy s
                       | None \<Rightarrow> Inr (if group \<noteq> None then OneForAll else OneForOne))
                      (\<lambda>strategy. bind_result
                        (case map_of object ''maxRestarts'' of
                           Some v \<Rightarrow> parse_u32_value v
                         | None \<Rightarrow> Inr (if group \<noteq> None then 0 else 3))
                        (\<lambda>max_restarts. bind_result
                          (case group of
                             Some g \<Rightarrow> spawn_group_supervisor_id e parent_id g
                           | None \<Rightarrow> Inr (case parent_id of Some p \<Rightarrow> p | None \<Rightarrow> root_actor_id))
                          (\<lambda>supervisor_id.
                             Inr (supervisor_id, \<lparr>strategy = strategy, max_restarts = max_restarts\<rparr>))))) of
             Inl err \<Rightarrow> (Inl err, r)
           | Inr (supervisor_id, p) \<Rightarrow>
               (Inr (Some supervisor_id), set_supervision_policy_for_session session supervisor_id p r)))"

subsection \<open>End of an actor\<close>

definition mark_actor_completed ::
    "'ch agents_env \<Rightarrow> string \<Rightarrow> actor_id \<Rightarrow> actor_digest \<Rightarrow> 'ch agents_world \<Rightarrow> bool \<times> 'ch agents_world" where
  "mark_actor_completed e session a digest w =
     (let redact = (\<lambda>s. report_text (redact_dream_text (env_regex e) s));
          d = enforce_text_limits digest;
          d1 = d\<lparr>digest_summary := redact (digest_summary d),
                 digest_history_content := map_option redact (digest_history_content d)\<rparr>;
          r = (case digest_history_content d1 of
                 Some content \<Rightarrow> store_transcript_for_session (env_regex e) session a content (roster w)
               | None \<Rightarrow> roster w);
          (completed, r1) = mark_complete_with_resources_for_session session a
             (digest_artifact_uri d1) (digest_history_uri d1) r
      in if completed
         then
           let (at1, r2) = utc_now r1;
               r3 = emit_lifecycle session (StatusChanged a Terminated at1) r2;
               (at2, r4) = utc_now r3;
               r5 = emit_lifecycle session
                      (Completed a at2 (Some (digest_summary d1)) (digest_artifact_uri d1)
                        (digest_history_uri d1)) r4
           in (True, w\<lparr>roster := r5\<rparr>)
         else (False, w\<lparr>roster := r1\<rparr>))"

definition spawn_restarted_actor ::
    "'ch agents_env \<Rightarrow> string \<Rightarrow> actor_id \<Rightarrow> 'ch agents_world \<Rightarrow> 'ch agents_world" where
  "spawn_restarted_actor e session a w =
     (case env_executor e of
        None \<Rightarrow> w
      | Some _ \<Rightarrow>
          (case prepare_actor_restart_for_session (env_channels e) session a (roster w) of
             (None, r) \<Rightarrow> w\<lparr>roster := r\<rparr>
           | (Some spec, r) \<Rightarrow> w\<lparr>roster := r, threads := threads w @ [spec]\<rparr>))"

fun spawn_restart_actions ::
    "'ch agents_env \<Rightarrow> string \<Rightarrow> supervision_action list \<Rightarrow> 'ch agents_world \<Rightarrow> 'ch agents_world" where
  "spawn_restart_actions e session [] w = w"
| "spawn_restart_actions e session (Restart a # acts) w =
     spawn_restart_actions e session acts (spawn_restarted_actor e session a w)"
| "spawn_restart_actions e session (_ # acts) w = spawn_restart_actions e session acts w"

definition mark_actor_error ::
    "'ch agents_env \<Rightarrow> string \<Rightarrow> actor_id \<Rightarrow> failure_reason \<Rightarrow> 'ch agents_world \<Rightarrow> 'ch agents_world" where
  "mark_actor_error e session a why w =
     (case record_actor_error session a why (roster w) of
        (None, r) \<Rightarrow> w\<lparr>roster := r\<rparr>
      | (Some decision, r) \<Rightarrow> spawn_restart_actions e session (actions decision) (w\<lparr>roster := r\<rparr>))"

definition run_actor_to_digest ::
    "'w actor_runtime \<Rightarrow> actor_spec \<Rightarrow> 'w \<Rightarrow> (actor_error + actor_digest) \<times> 'w" where
  "run_actor_to_digest rt spec w = run_to_digest_with_budget rt spec w"

text \<open>The body of a detached thread, of \<open>agents.spawn\<close> and of a restart.\<close>

definition actor_thread ::
    "'ch agents_env \<Rightarrow> 'ch agents_world actor_runtime \<Rightarrow> actor_spec \<Rightarrow> 'ch agents_world \<Rightarrow> 'ch agents_world" where
  "actor_thread e rt spec w =
     (case run_actor_to_digest rt spec w of
        (Inr digest, w1) \<Rightarrow> snd (mark_actor_completed e (spec_session_id spec) (spec_id spec) digest w1)
      | (Inl err, w1) \<Rightarrow>
          mark_actor_error e (spec_session_id spec) (spec_id spec) (failure_reason_for_error err) w1)"

text \<open>A child awaited by its caller: its digest, or its redacted error put into \<open>wrap\<close>.\<close>

definition opt_string :: "string option \<Rightarrow> json" where
  "opt_string v = (case v of Some s \<Rightarrow> JString s | None \<Rightarrow> JNull)"

definition digest_json :: "actor_id \<Rightarrow> actor_digest \<Rightarrow> json" where
  "digest_json a digest =
     JObject [(''actorId'', JString (as_str a)), (''artifactUri'', opt_string (digest_artifact_uri digest)),
       (''historyUri'', opt_string (digest_history_uri digest)), (''summary'', JString (digest_summary digest))]"

definition await_actor ::
    "'ch agents_env \<Rightarrow> 'ch agents_world actor_runtime \<Rightarrow> (string \<Rightarrow> string) \<Rightarrow> actor_spec \<Rightarrow> 'ch agents_world \<Rightarrow>
     json host_result \<times> 'ch agents_world" where
  "await_actor e rt wrap spec w =
     (case run_actor_to_digest rt spec w of
        (Inr digest, w1) \<Rightarrow>
          (Inr (digest_json (spec_id spec) digest),
           snd (mark_actor_completed e (spec_session_id spec) (spec_id spec) digest w1))
      | (Inl err, w1) \<Rightarrow>
          (Inl (HostCall (wrap (redact_actor_diagnostic e err))),
           mark_actor_error e (spec_session_id spec) (spec_id spec) (failure_reason_for_error err) w1))"

subsection \<open>Guards that cancel when a call is dropped\<close>

datatype cancel_on_drop = CancelActorsOnDrop "token list option"

definition guard_new :: "token list \<Rightarrow> cancel_on_drop" where
  "guard_new ts = CancelActorsOnDrop (Some ts)"

definition guard_disarm :: "cancel_on_drop \<Rightarrow> cancel_on_drop" where
  "guard_disarm g = CancelActorsOnDrop None"

fun guard_drop :: "cancel_on_drop \<Rightarrow> 'ch mailbox_registry \<Rightarrow> 'ch mailbox_registry" where
  "guard_drop (CancelActorsOnDrop (Some ts)) r = fold token_cancel ts r"
| "guard_drop (CancelActorsOnDrop None) r = r"

subsection \<open>agents.run and agents.spawn\<close>

definition new_actor_record ::
    "actor_id \<Rightarrow> actor_id option \<Rightarrow> string \<Rightarrow> actor_budget \<Rightarrow> timestamp \<Rightarrow> actor_record" where
  "new_actor_record a parent_id role b at =
     \<lparr>rec_id = a, parent = parent_id, status = Running, mode = Some role, budget = b, spawned_at = at,
      completed_at = None, cancelled = False, rec_failure_reason = None, artifact_uri = None,
      history_uri = None\<rparr>"

definition new_actor_spec ::
    "'w invocation_ctx \<Rightarrow> actor_id \<Rightarrow> actor_id option \<Rightarrow> capability_grants \<Rightarrow> string \<Rightarrow> string \<Rightarrow> actor_budget \<Rightarrow>
     token \<Rightarrow> actor_spec" where
  "new_actor_spec ctx a parent_id g role task b t =
     \<lparr>spec_id = a, spec_session_id = session_id ctx, spec_project_id = project_id ctx, spec_role = role,
      spec_task = task, spec_mode = None, spec_grants = g, spec_budget = b, spec_parent = parent_id,
      spec_depth = 0, spec_cancellation = t\<rparr>"

text \<open>What follows once a record is tracked: the event, the token, the spec and its template.\<close>

definition announce_actor ::
    "'w invocation_ctx \<Rightarrow> actor_id \<Rightarrow> actor_id option \<Rightarrow> capability_grants \<Rightarrow> string \<Rightarrow> string \<Rightarrow> actor_budget \<Rightarrow>
     timestamp \<Rightarrow> 'ch mailbox_registry \<Rightarrow> actor_spec \<times> 'ch mailbox_registry" where
  "announce_actor ctx a parent_id g role task b at r =
     (let r1 = emit_lifecycle (session_id ctx) (Spawned a parent_id role task 0 b at) r;
          (t, r2) = cancel_token_for_session (session_id ctx) a r1;
          spec = new_actor_spec ctx a parent_id g role task b t
      in (spec, remember_restart_spec spec r2))"

text \<open>
  From the identity to the remembered spec. \<open>configure\<close> is the supervision step, which only
  \<open>agents.spawn\<close> has.
\<close>

definition admit_actor ::
    "'ch agents_env \<Rightarrow> 'w invocation_ctx \<Rightarrow> string \<Rightarrow> string \<Rightarrow> capability_grants \<Rightarrow>
     (actor_id option \<Rightarrow> 'ch mailbox_registry \<Rightarrow> actor_id option host_result \<times> 'ch mailbox_registry) \<Rightarrow>
     'ch agents_world \<Rightarrow> (actor_spec, 'ch) outcome" where
  "admit_actor e ctx role task g configure w =
     (let (named, r1) = next_actor_id (env_unicode e) role (roster w)
      in (case named of
            None \<Rightarrow> None
          | Some a \<Rightarrow>
              attempt (caller_parent_id e ctx) (w\<lparr>roster := r1\<rparr>) (\<lambda>parent_id.
              let (configured, r2) = configure parent_id r1
              in attempt configured (w\<lparr>roster := r2\<rparr>) (\<lambda>supervisor_id.
              let (at, r3) = utc_now r2;
                  rec = new_actor_record a parent_id role default_actor_budget at;
                  (tracked, r4) = (case supervisor_id of
                      Some s \<Rightarrow> track_with_supervisor_for_session (env_channels e) (session_id ctx) rec s r3
                    | None \<Rightarrow> track_for_session (env_channels e) (session_id ctx) rec r3)
              in attempt (registry_result tracked) (w\<lparr>roster := r4\<rparr>) (\<lambda>_.
              let (spec, r5) = announce_actor ctx a parent_id g role task default_actor_budget at r4
              in Some (Inr spec, w\<lparr>roster := r5\<rparr>))))))"

definition executor_of ::
    "'ch agents_env \<Rightarrow> string \<Rightarrow> 'ch agents_world actor_runtime host_result" where
  "executor_of e name =
     ok_or (env_executor e)
       (NotImplemented (name @ '' '' @ map char_of [226, 128, 148 :: nat] @ '' executor not configured''))"

definition agents_run ::
    "'ch agents_env \<Rightarrow> json \<Rightarrow> 'w invocation_ctx \<Rightarrow> 'ch agents_world \<Rightarrow> (json, 'ch) outcome" where
  "agents_run e args ctx w =
     (if \<not> permits (grants ctx) ''agents.run'' then Some (Inl (CapabilityDenied ''agents.run''), w)
      else
        attempt (parse_actor_role (json_index args ''role'') ''role'') w (\<lambda>role.
        attempt (parse_actor_task (json_index args ''task'') ''task'') w (\<lambda>task.
        attempt (child_agent_grants ctx (json_get args ''opts'')) w (\<lambda>g.
        attempt (executor_of e ''agents.run'') w (\<lambda>rt.
        (case admit_actor e ctx role task g (\<lambda>_ r. (Inr None, r)) w of
           None \<Rightarrow> None
         | Some (admitted, w1) \<Rightarrow>
             attempt admitted w1 (\<lambda>spec. Some (await_actor e rt (\<lambda>err. err) spec w1))))))))"

definition agents_spawn ::
    "'ch agents_env \<Rightarrow> json \<Rightarrow> 'w invocation_ctx \<Rightarrow> 'ch agents_world \<Rightarrow> (json, 'ch) outcome" where
  "agents_spawn e args ctx w =
     (if \<not> permits (grants ctx) ''agents.spawn'' then Some (Inl (CapabilityDenied ''agents.spawn''), w)
      else
        attempt (parse_actor_role (json_index args ''role'') ''role'') w (\<lambda>role.
        attempt (parse_actor_task (json_index args ''task'') ''task'') w (\<lambda>task.
        attempt (child_agent_grants ctx (json_get args ''opts'')) w (\<lambda>g.
        attempt (executor_of e ''agents.spawn'') w (\<lambda>_.
        (case admit_actor e ctx role task g
             (\<lambda>parent_id. configure_supervision_from_opts e (session_id ctx) parent_id (json_get args ''opts'')) w of
           None \<Rightarrow> None
         | Some (admitted, w1) \<Rightarrow>
             attempt admitted w1 (\<lambda>spec.
               Some (Inr (JObject [(''id'', JString (as_str (spec_id spec)))]),
                     w1\<lparr>threads := threads w1 @ [spec]\<rparr>))))))))"

subsection \<open>Waves of actors\<close>

record wave_task =
  task_role :: string
  task_text :: string
  task_budget :: actor_budget

fun plan_wave ::
    "'ch agents_env \<Rightarrow> wave_task list \<Rightarrow> 'ch mailbox_registry \<Rightarrow>
     (actor_id \<times> wave_task \<times> timestamp) list option \<times> 'ch mailbox_registry" where
  "plan_wave e [] r = (Some [], r)"
| "plan_wave e (t # ts) r =
     (let (named, r1) = next_actor_id (env_unicode e) (task_role t) r
      in (case named of
            None \<Rightarrow> (None, r1)
          | Some a \<Rightarrow>
              let (at, r2) = utc_now r1; (planned, r3) = plan_wave e ts r2
              in (map_option (\<lambda>p. (a, t, at) # p) planned, r3)))"

fun announce_wave ::
    "'w invocation_ctx \<Rightarrow> actor_id option \<Rightarrow> capability_grants \<Rightarrow> (actor_id \<times> wave_task \<times> timestamp) list \<Rightarrow>
     'ch mailbox_registry \<Rightarrow> actor_spec list \<times> 'ch mailbox_registry" where
  "announce_wave ctx parent_id g [] r = ([], r)"
| "announce_wave ctx parent_id g ((a, t, at) # planned) r =
     (let (spec, r1) = announce_actor ctx a parent_id g (task_role t) (task_text t) (task_budget t) at r;
          (specs, r2) = announce_wave ctx parent_id g planned r1
      in (spec # specs, r2))"

text \<open>The policy of the wave's supervisor, the names, the admission as one batch and the specs.\<close>

definition admit_wave ::
    "'ch agents_env \<Rightarrow> 'w invocation_ctx \<Rightarrow> actor_id option \<Rightarrow> capability_grants \<Rightarrow> string \<Rightarrow> wave_task list \<Rightarrow>
     'ch agents_world \<Rightarrow> (actor_spec list, 'ch) outcome" where
  "admit_wave e ctx parent_id g label tasks w =
     (let (named, r1) = next_supervisor_id (env_unicode e) label (roster w)
      in (case named of
            None \<Rightarrow> None
          | Some supervisor_id \<Rightarrow>
              let r2 = set_supervision_policy_for_session (session_id ctx) supervisor_id
                         \<lparr>strategy = OneForAll, max_restarts = 0\<rparr> r1;
                  (planned, r3) = plan_wave e tasks r2
              in (case planned of
                    None \<Rightarrow> None
                  | Some p \<Rightarrow>
                      let (tracked, r4) = track_batch_for_session (env_channels e) (session_id ctx)
                            (map (\<lambda>(a, t, at).
                               (new_actor_record a parent_id (task_role t) (task_budget t) at, supervisor_id)) p) r3
                      in attempt (registry_result tracked) (w\<lparr>roster := r4\<rparr>) (\<lambda>_.
                           let (specs, r5) = announce_wave ctx parent_id g p r4
                           in Some (Inr specs, w\<lparr>roster := r5\<rparr>)))))"

text \<open>
  The futures of the wave run at most four at a time and answer in order; both guards are disarmed
  when the future and the stream have finished, so that dropping them then has no effect.
\<close>

definition run_wave ::
    "'ch agents_env \<Rightarrow> 'ch agents_world actor_runtime \<Rightarrow> actor_spec list \<Rightarrow> 'ch agents_world \<Rightarrow>
     json list host_result \<times> 'ch agents_world" where
  "run_wave e rt specs w =
     (let batch_cancel = guard_new (map spec_cancellation specs);
          (results, w1) = env_buffered e MAX_CONCURRENT_ACTORS
            (map (\<lambda>spec w.
               let cancel_on_drop = guard_new [spec_cancellation spec];
                   (result, w') = await_actor e rt
                      (\<lambda>error. ''actor '' @ as_str (spec_id spec) @ '' failed: '' @ error) spec w
               in (result, w'\<lparr>roster := guard_drop (guard_disarm cancel_on_drop) (roster w')\<rparr>)) specs) w
      in (collect_results results, w1\<lparr>roster := guard_drop (guard_disarm batch_cancel) (roster w1)\<rparr>))"

subsection \<open>agents.parallel\<close>

definition parse_parallel_budget :: "json \<Rightarrow> nat \<Rightarrow> actor_budget host_result" where
  "parse_parallel_budget item index =
     (let field = ''tasks['' @ show_nat index @ '']'';
          budget_value = json_get item ''budget'';
          b = default_actor_budget
      in if (case budget_value of Some v \<Rightarrow> json_as_object v = None | None \<Rightarrow> False)
         then Inl (InvalidArgs (field @ ''.budget must be an object''))
         else
           bind_result
             (case (case json_get item ''timeoutMs'' of
                      Some v \<Rightarrow> Some v
                    | None \<Rightarrow> Option.bind budget_value (\<lambda>v. json_get v ''wallMs'')) of
                Some v \<Rightarrow> bind_result
                  (ok_or (json_as_u64 v) (InvalidArgs (field @ ''.timeoutMs must be a non-negative integer'')))
                  (\<lambda>ms. Inr (b\<lparr>wall_ms := of_nat ms\<rparr>))
              | None \<Rightarrow> Inr b)
             (\<lambda>b1. case Option.bind budget_value (\<lambda>v. json_get v ''maxDepth'') of
                Some v \<Rightarrow> bind_result
                  (ok_or (json_as_u64 v)
                    (InvalidArgs (field @ ''.budget.maxDepth must be a non-negative integer'')))
                  (\<lambda>d. if d < 2 ^ 32 then Inr (b1\<lparr>max_depth := of_nat d\<rparr>)
                       else Inl (InvalidArgs (field @ ''.budget.maxDepth is too large'')))
              | None \<Rightarrow> Inr b1))"

definition parse_parallel_task :: "nat \<Rightarrow> json \<Rightarrow> wave_task host_result" where
  "parse_parallel_task i item =
     (let field = ''tasks['' @ show_nat i @ '']''
      in bind_result (parse_actor_role (json_index item ''role'') (field @ ''.role'')) (\<lambda>role.
         bind_result (parse_actor_task (json_index item ''task'') (field @ ''.task'')) (\<lambda>task.
         bind_result (parse_parallel_budget item i) (\<lambda>b.
           Inr \<lparr>task_role = role, task_text = task, task_budget = b\<rparr>))))"

definition agents_parallel ::
    "'ch agents_env \<Rightarrow> json \<Rightarrow> 'w invocation_ctx \<Rightarrow> 'ch agents_world \<Rightarrow> (json, 'ch) outcome" where
  "agents_parallel e args ctx w =
     (if \<not> permits (grants ctx) ''agents.parallel''
      then Some (Inl (CapabilityDenied ''agents.parallel''), w)
      else
        attempt (child_agent_grants ctx (json_get args ''opts'')) w (\<lambda>g.
        attempt (ok_or (json_as_array (json_index args ''tasks'')) (InvalidArgs ''tasks must be an array'')) w (\<lambda>tasks.
        if tasks = [] then Some (Inr (JArray []), w)
        else if MAX_ACTORS_PER_CALL < length tasks
        then Some (Inl (InvalidArgs (''tasks must contain at most '' @ show_nat MAX_ACTORS_PER_CALL @ '' items'')), w)
        else
          attempt (collect_results (map (\<lambda>(i, item). parse_parallel_task i item) (enumerate 0 tasks))) w (\<lambda>parsed.
          attempt (validate_aggregate_text_bytes
              (concat (map (\<lambda>t. [task_role t, task_text t]) parsed)) ''tasks role/task text'') w (\<lambda>_.
          attempt (executor_of e ''agents.parallel'') w (\<lambda>rt.
          attempt (caller_parent_id e ctx) w (\<lambda>parent_id.
          (case admit_wave e ctx parent_id g ''ParallelGroup'' parsed w of
             None \<Rightarrow> None
           | Some (admitted, w1) \<Rightarrow>
               attempt admitted w1 (\<lambda>specs.
                 let (results, w2) = run_wave e rt specs w1
                 in attempt results w2 (\<lambda>digests. Some (Inr (JArray digests), w2)))))))))))"

subsection \<open>agents.pipeline\<close>

record pipeline_stage =
  stage_role :: string
  stage_task :: "string option"
  stage_tasks :: "string list option"

definition non_null :: "json option \<Rightarrow> json option" where
  "non_null v = (case v of Some JNull \<Rightarrow> None | _ \<Rightarrow> v)"

definition parse_pipeline_stage :: "nat \<Rightarrow> json \<Rightarrow> pipeline_stage host_result" where
  "parse_pipeline_stage index stage =
     (let field = ''stages['' @ show_nat index @ '']''
      in bind_result (parse_actor_role (json_index stage ''role'') (field @ ''.role'')) (\<lambda>role.
         bind_result (case non_null (json_get stage ''task'') of
             Some v \<Rightarrow> bind_result (parse_actor_task v (field @ ''.task'')) (\<lambda>t. Inr (Some t))
           | None \<Rightarrow> Inr None) (\<lambda>task.
         bind_result (case non_null (json_get stage ''tasks'') of
             Some v \<Rightarrow>
               bind_result (ok_or (json_as_array v) (InvalidArgs (field @ ''.tasks must be an array''))) (\<lambda>items.
                 if MAX_ACTORS_PER_CALL < length items
                 then Inl (InvalidArgs (field @ ''.tasks must contain at most ''
                        @ show_nat MAX_ACTORS_PER_CALL @ '' entries''))
                 else bind_result (collect_results
                        (map (\<lambda>(j, item). parse_actor_task item (field @ ''.tasks['' @ show_nat j @ '']''))
                          (enumerate 0 items))) (\<lambda>ts. Inr (Some ts)))
           | None \<Rightarrow> Inr None) (\<lambda>tasks.
         if task = None \<and> tasks = None
         then Inl (InvalidArgs (field @ '' must include task or tasks''))
         else Inr \<lparr>stage_role = role, stage_task = task, stage_tasks = tasks\<rparr>))))"

definition parse_pipeline_stages :: "json \<Rightarrow> pipeline_stage list host_result" where
  "parse_pipeline_stages args =
     bind_result (ok_or (json_as_array (json_index args ''stages'')) (InvalidArgs ''stages must be an array''))
       (\<lambda>stages.
          if stages = [] then Inl (InvalidArgs ''stages must contain at least one stage'')
          else if MAX_PIPELINE_STAGES < length stages
          then Inl (InvalidArgs (''stages must contain at most '' @ show_nat MAX_PIPELINE_STAGES @ '' entries''))
          else bind_result (collect_results (map (\<lambda>(i, s). parse_pipeline_stage i s) (enumerate 0 stages)))
            (\<lambda>parsed. bind_result (validate_aggregate_text_bytes
               (concat (map (\<lambda>s. [stage_role s]
                   @ (case stage_task s of Some t \<Rightarrow> [t] | None \<Rightarrow> [])
                   @ (case stage_tasks s of Some ts \<Rightarrow> ts | None \<Rightarrow> [])) parsed))
               ''pipeline role/task text'') (\<lambda>_. Inr parsed)))"

definition compact_optional_string :: "json option \<Rightarrow> string" where
  "compact_optional_string v =
     (case Option.bind v json_as_str of Some s \<Rightarrow> s | None \<Rightarrow> ''null'')"

definition compact_pipeline_digest_reference :: "json \<Rightarrow> string \<Rightarrow> string" where
  "compact_pipeline_digest_reference input a =
     (let summary = (case Option.bind (json_get input ''summary'') json_as_str of Some s \<Rightarrow> s | None \<Rightarrow> [])
      in ''digest actorId='' @ a @ ''; agentUri=agent://'' @ a @ ''; historyUri=''
         @ compact_optional_string (json_get input ''historyUri'') @ ''; artifactUri=''
         @ compact_optional_string (json_get input ''artifactUri'') @ ''; summary='' @ summary)"

definition compact_pipeline_input :: "'ch agents_env \<Rightarrow> json \<Rightarrow> string" where
  "compact_pipeline_input e input =
     (case Option.bind (json_get input ''actorId'') json_as_str of
        Some a \<Rightarrow> compact_pipeline_digest_reference input a
      | None \<Rightarrow>
          (case json_as_str input of
             Some s \<Rightarrow> s
           | None \<Rightarrow> (case env_json_to_string e input of Inr s \<Rightarrow> s | Inl _ \<Rightarrow> ''null'')))"

text \<open>\<open>None\<close> is the panic of \<open>expect\<close> on a stage with neither a task nor tasks.\<close>

definition pipeline_wave_tasks ::
    "'ch agents_env \<Rightarrow> nat \<Rightarrow> pipeline_stage \<Rightarrow> json list \<Rightarrow> (string \<times> string) list host_result option" where
  "pipeline_wave_tasks e stage_index stage inputs =
     (case stage_tasks stage of
        Some ts \<Rightarrow>
          Some (if length ts \<noteq> length inputs
                then Inl (InvalidArgs (''stages['' @ show_nat stage_index
                       @ ''].tasks length must match current item count''))
                else Inr (map (\<lambda>t. (stage_role stage, t)) ts))
      | None \<Rightarrow>
          map_option (\<lambda>task. collect_results (map (\<lambda>input.
              let composed = task @ [CHR 0x0A, CHR 0x0A] @ ''Pipeline input: '' @ compact_pipeline_input e input
              in bind_result (validate_bounded_text composed (''stages['' @ show_nat stage_index @ ''].task'')
                     MAX_ACTOR_TASK_BYTES) (\<lambda>_. Inr (stage_role stage, composed))) inputs))
            (stage_task stage))"

definition run_pipeline_wave ::
    "'ch agents_env \<Rightarrow> 'ch agents_world actor_runtime \<Rightarrow> 'w invocation_ctx \<Rightarrow> actor_id option \<Rightarrow>
     capability_grants \<Rightarrow> (string \<times> string) list \<Rightarrow> 'ch agents_world \<Rightarrow> (json list, 'ch) outcome" where
  "run_pipeline_wave e rt ctx parent_id g tasks w =
     (if MAX_ACTORS_PER_CALL < length tasks
      then Some (Inl (InvalidArgs (''pipeline wave must contain at most ''
             @ show_nat MAX_ACTORS_PER_CALL @ '' actors'')), w)
      else
        (case admit_wave e ctx parent_id g ''PipelineWave''
             (map (\<lambda>(role, task). \<lparr>task_role = role, task_text = task, task_budget = default_actor_budget\<rparr>) tasks) w of
           None \<Rightarrow> None
         | Some (admitted, w1) \<Rightarrow> attempt admitted w1 (\<lambda>specs. Some (run_wave e rt specs w1))))"

fun run_pipeline_stages ::
    "'ch agents_env \<Rightarrow> 'ch agents_world actor_runtime \<Rightarrow> 'w invocation_ctx \<Rightarrow> actor_id option \<Rightarrow>
     capability_grants \<Rightarrow> (nat \<times> pipeline_stage) list \<Rightarrow> json list \<Rightarrow> json list \<Rightarrow> 'ch agents_world \<Rightarrow>
     (json, 'ch) outcome" where
  "run_pipeline_stages e rt ctx parent_id g [] inputs outputs w = Some (Inr (JArray outputs), w)"
| "run_pipeline_stages e rt ctx parent_id g ((stage_index, stage) # stages) inputs outputs w =
     (case pipeline_wave_tasks e stage_index stage inputs of
        None \<Rightarrow> None
      | Some wave_tasks \<Rightarrow>
          attempt wave_tasks w (\<lambda>tasks.
          (case run_pipeline_wave e rt ctx parent_id g tasks w of
             None \<Rightarrow> None
           | Some (finished, w1) \<Rightarrow>
               attempt finished w1 (\<lambda>digests.
                 run_pipeline_stages e rt ctx parent_id g stages digests (outputs @ [JArray digests]) w1))))"

definition agents_pipeline ::
    "'ch agents_env \<Rightarrow> json \<Rightarrow> 'w invocation_ctx \<Rightarrow> 'ch agents_world \<Rightarrow> (json, 'ch) outcome" where
  "agents_pipeline e args ctx w =
     (if \<not> permits (grants ctx) ''agents.pipeline''
      then Some (Inl (CapabilityDenied ''agents.pipeline''), w)
      else
        attempt (child_agent_grants ctx (json_get args ''opts'')) w (\<lambda>g.
        attempt (ok_or (json_as_array (json_index args ''items'')) (InvalidArgs ''items must be an array'')) w (\<lambda>inputs.
        if MAX_ACTORS_PER_CALL < length inputs
        then Some (Inl (InvalidArgs (''items must contain at most '' @ show_nat MAX_ACTORS_PER_CALL @ '' entries'')), w)
        else
          attempt (case env_json_to_string e (JArray inputs) of
              Inl error \<Rightarrow> Inl (InvalidArgs (''items are not serializable: '' @ error))
            | Inr s \<Rightarrow>
                if MAX_PIPELINE_INPUT_BYTES < length s
                then Inl (InvalidArgs (''items must total at most '' @ show_nat MAX_PIPELINE_INPUT_BYTES
                       @ '' serialized bytes, got '' @ show_nat (length s)))
                else Inr ()) w (\<lambda>_.
          attempt (parse_pipeline_stages args) w (\<lambda>stages.
          attempt (executor_of e ''agents.pipeline'') w (\<lambda>rt.
          attempt (caller_parent_id e ctx) w (\<lambda>parent_id.
            run_pipeline_stages e rt ctx parent_id g (enumerate 0 stages) inputs [] w)))))))"

subsection \<open>Messages between actors\<close>

definition message_json :: "'ch agents_env \<Rightarrow> actor_message \<Rightarrow> json" where
  "message_json e m =
     JObject [(''from'', JString (as_str (msg_from m))),
       (''replyTo'', opt_string (map_option as_str (msg_reply_to m))),
       (''sentAt'', JString (env_rfc3339 e (msg_sent_at m))), (''text'', JString (msg_text m)),
       (''to'', JString (as_str (msg_to m)))]"

definition receipt_json :: "receipt \<Rightarrow> json" where
  "receipt_json rcpt =
     (if is_delivered rcpt then JObject [(''status'', JString ''delivered'')]
      else JObject
        [(''reason'', JString (case receipt_failure_reason rcpt of Some why \<Rightarrow> why | None \<Rightarrow> ''unknown'')),
         (''status'', JString ''failed'')])"

definition maybe_emit_message ::
    "string \<Rightarrow> actor_message \<Rightarrow> receipt \<Rightarrow> 'ch mailbox_registry \<Rightarrow> 'ch mailbox_registry" where
  "maybe_emit_message session m rcpt r =
     (if is_delivered rcpt
      then emit_lifecycle session (MessageSent (msg_from m) (msg_to m) (msg_reply_to m) (msg_sent_at m)) r
      else r)"

definition reject_descendant_wait ::
    "string \<Rightarrow> actor_id \<Rightarrow> actor_id \<Rightarrow> string \<Rightarrow> 'ch mailbox_registry \<Rightarrow> unit host_result" where
  "reject_descendant_wait session waiter target field r =
     (if would_wait_on_descendant_for_session session waiter target r
      then Inl (InvalidArgs (field @ '' would make actor '' @ as_str waiter
             @ '' wait on itself or its own descendant '' @ as_str target))
      else Inr ())"

text \<open>
  The waiting loop: each round checks for cancellation, reads the clock and waits for at most 50 ms.
  \<open>k\<close> counts the readings of the clock; while the round awaits, other tasks may act.
\<close>

partial_function (option) wait_loop ::
    "'ch agents_env \<Rightarrow> string \<Rightarrow> actor_id \<Rightarrow> actor_id option \<Rightarrow> nat \<Rightarrow> nat \<Rightarrow> 'ch agents_world \<Rightarrow>
     (actor_message option, 'ch) outcome" where
  "wait_loop e session a from deadline k w =
     (if is_cancelled_for_session session a (roster w) then Some (Inl (HostCall ''actor cancelled''), w)
      else if deadline \<le> env_instant e k then Some (Inr None, w)
      else
        let slice = min (deadline - env_instant e k) 50; w1 = env_others e k w
        in (case wait_for_message_for_session (env_channels e) session a from slice
                (env_instant e (k + 1)) (roster w1) of
              None \<Rightarrow> None
            | Some (received, r) \<Rightarrow>
                (case received of
                   Some m \<Rightarrow> Some (Inr (Some m), w1\<lparr>roster := r\<rparr>)
                 | None \<Rightarrow> wait_loop e session a from deadline (k + 2) (w1\<lparr>roster := r\<rparr>))))"

definition wait_for_actor_message_or_cancel ::
    "'ch agents_env \<Rightarrow> string \<Rightarrow> actor_id \<Rightarrow> actor_id option \<Rightarrow> nat \<Rightarrow> 'ch agents_world \<Rightarrow>
     (actor_message option, 'ch) outcome" where
  "wait_for_actor_message_or_cancel e session a from timeout w =
     wait_loop e session a from (env_instant e 0 + timeout) 1 w"

definition message_or_null ::
    "'ch agents_env \<Rightarrow> (actor_message option, 'ch) outcome \<Rightarrow> (json, 'ch) outcome" where
  "message_or_null e waited =
     (case waited of
        None \<Rightarrow> None
      | Some (res, w) \<Rightarrow>
          attempt res w (\<lambda>m. Some (Inr (case m of Some m \<Rightarrow> message_json e m | None \<Rightarrow> JNull), w)))"

definition agents_send ::
    "'ch agents_env \<Rightarrow> json \<Rightarrow> 'w invocation_ctx \<Rightarrow> 'ch agents_world \<Rightarrow> (json, 'ch) outcome" where
  "agents_send e args ctx w =
     (if \<not> permits (grants ctx) ''agents.send'' then Some (Inl (CapabilityDenied ''agents.send''), w)
      else
        attempt (bind_result (ok_or (json_get args ''to'') (InvalidArgs ''to is required''))
            (\<lambda>v. parse_actor_ref e v ''to'')) w (\<lambda>to.
        attempt (parse_plain_prose_text e args ''text'') w (\<lambda>text.
        let do_await = (json_index (json_index args ''opts'') ''await'' = JBool True)
        in attempt (caller_actor_id e ctx) w (\<lambda>from.
        attempt (if do_await then reject_descendant_wait (session_id ctx) from to ''to'' (roster w) else Inr ()) w (\<lambda>_.
        let (at, r1) = utc_now (roster w);
            m = \<lparr>msg_from = from, msg_to = to, msg_text = text,
                 msg_reply_to = (if do_await then Some from else None), msg_sent_at = at\<rparr>;
            (sent, r2) = send_message_for_session (env_channels e) (session_id ctx) m r1
        in attempt (registry_result sent) (w\<lparr>roster := r2\<rparr>) (\<lambda>rcpt.
        let w1 = w\<lparr>roster := maybe_emit_message (session_id ctx) m rcpt r2\<rparr>
        in if \<not> do_await then Some (Inr (receipt_json rcpt), w1)
           else if is_failed rcpt then Some (Inr (receipt_json rcpt), w1)
           else attempt (parse_timeout_ms args 30000) w1 (\<lambda>timeout_ms.
             message_or_null e
               (wait_for_actor_message_or_cancel e (session_id ctx) from (Some to) timeout_ms w1))))))))"

definition agents_wait ::
    "'ch agents_env \<Rightarrow> json \<Rightarrow> 'w invocation_ctx \<Rightarrow> 'ch agents_world \<Rightarrow> (json, 'ch) outcome" where
  "agents_wait e args ctx w =
     (if \<not> permits (grants ctx) ''agents.wait'' then Some (Inl (CapabilityDenied ''agents.wait''), w)
      else
        attempt (caller_actor_id e ctx) w (\<lambda>a.
        attempt (case non_null (json_get args ''from'') of
            Some v \<Rightarrow> bind_result (parse_actor_ref e v ''from'') (\<lambda>f. Inr (Some f))
          | None \<Rightarrow> Inr None) w (\<lambda>from.
        attempt (case from of
            Some f \<Rightarrow> reject_descendant_wait (session_id ctx) a f ''from'' (roster w)
          | None \<Rightarrow> Inr ()) w (\<lambda>_.
        attempt (parse_timeout_ms args 30000) w (\<lambda>timeout_ms.
          message_or_null e (wait_for_actor_message_or_cancel e (session_id ctx) a from timeout_ms w))))))"

definition agents_inbox ::
    "'ch agents_env \<Rightarrow> json \<Rightarrow> 'w invocation_ctx \<Rightarrow> 'ch agents_world \<Rightarrow> (json, 'ch) outcome" where
  "agents_inbox e args ctx w =
     (if \<not> permits (grants ctx) ''agents.inbox'' then Some (Inl (CapabilityDenied ''agents.inbox''), w)
      else
        attempt (caller_actor_id e ctx) w (\<lambda>a.
          map_option (\<lambda>(ms, r). (Inr (JArray (map (message_json e) ms)), w\<lparr>roster := r\<rparr>))
            (drain_inbox_for_session (env_channels e) (session_id ctx) a None (roster w))))"

subsection \<open>agents.broadcast, agents.cancel and agents.list\<close>

fun broadcast_to ::
    "'ch agents_env \<Rightarrow> string \<Rightarrow> actor_id \<Rightarrow> string \<Rightarrow> actor_record list \<Rightarrow> json list \<Rightarrow> 'ch agents_world \<Rightarrow>
     (json, 'ch) outcome" where
  "broadcast_to e session from text [] receipts w = Some (Inr (JArray receipts), w)"
| "broadcast_to e session from text (target # targets) receipts w =
     (let (at, r1) = utc_now (roster w);
          m = \<lparr>msg_from = from, msg_to = rec_id target, msg_text = text, msg_reply_to = None, msg_sent_at = at\<rparr>;
          (sent, r2) = send_message_for_session (env_channels e) session m r1
      in attempt (registry_result sent) (w\<lparr>roster := r2\<rparr>) (\<lambda>rcpt.
         let r3 = maybe_emit_message session m rcpt r2;
             v = (case receipt_json rcpt of
                    JObject object \<Rightarrow> JObject (bt_insert ''actorId'' (JString (as_str (rec_id target))) object)
                  | v \<Rightarrow> v)
         in broadcast_to e session from text targets (receipts @ [v]) (w\<lparr>roster := r3\<rparr>)))"

definition agents_broadcast ::
    "'ch agents_env \<Rightarrow> json \<Rightarrow> 'w invocation_ctx \<Rightarrow> 'ch agents_world \<Rightarrow> (json, 'ch) outcome" where
  "agents_broadcast e args ctx w =
     (if \<not> permits (grants ctx) ''agents.broadcast''
      then Some (Inl (CapabilityDenied ''agents.broadcast''), w)
      else
        attempt (parse_plain_prose_text e args ''text'') w (\<lambda>text.
        attempt (caller_actor_id e ctx) w (\<lambda>from.
        let targets = sort_by (\<lambda>x y. rec_id x \<le> rec_id y)
              (live_direct_children_for_session (session_id ctx) from (roster w))
        in if MAX_ACTORS_PER_CALL < length targets
           then Some (Inl (InvalidArgs (''broadcast has more than '' @ show_nat MAX_ACTORS_PER_CALL
                  @ '' direct live children'')), w)
           else broadcast_to e (session_id ctx) from text targets [] w)))"

definition cancel_json :: "actor_id \<Rightarrow> cancel_actor_result \<Rightarrow> json" where
  "cancel_json a result =
     JObject [(''actorId'', JString (as_str a)), (''status'', JString (cancel_result_str result))]"

definition agents_cancel ::
    "'ch agents_env \<Rightarrow> json \<Rightarrow> 'w invocation_ctx \<Rightarrow> 'ch agents_world \<Rightarrow> (json, 'ch) outcome" where
  "agents_cancel e args ctx w =
     (if \<not> permits (grants ctx) ''agents.cancel'' then Some (Inl (CapabilityDenied ''agents.cancel''), w)
      else
        attempt (bind_result (ok_or (json_get args ''target'') (InvalidArgs ''target is required''))
            (\<lambda>v. parse_actor_ref e v ''target'')) w (\<lambda>target.
        (case get_for_session (session_id ctx) target (roster w) of
           None \<Rightarrow> Some (Inr (cancel_json target CancelNotFound), w)
         | Some rec \<Rightarrow>
             attempt (caller_actor_id e ctx) w (\<lambda>caller.
               let is_direct_child = (case parent rec of
                     Some p \<Rightarrow> p = caller
                   | None \<Rightarrow> as_str caller = ''Root'')
               in if \<not> is_direct_child
                  then Some (Inl (InvalidArgs ''target must be a direct child of the caller''), w)
                  else
                    let (result, r) = cancel_actor (session_id ctx) target (roster w)
                    in Some (Inr (cancel_json target result), w\<lparr>roster := r\<rparr>)))))"

fun status_str :: "actor_status \<Rightarrow> string" where
  "status_str Running = ''running''"
| "status_str Idle = ''idle''"
| "status_str Parked = ''parked''"
| "status_str Terminated = ''terminated''"

definition agents_list ::
    "'ch agents_env \<Rightarrow> json \<Rightarrow> 'w invocation_ctx \<Rightarrow> 'ch agents_world \<Rightarrow> (json, 'ch) outcome" where
  "agents_list e args ctx w =
     (if \<not> permits (grants ctx) ''agents.list'' then Some (Inl (CapabilityDenied ''agents.list''), w)
      else
        Some (Inr (JArray (map (\<lambda>rec. JObject
          [(''artifactUri'', opt_string (artifact_uri rec)),
           (''historyUri'', opt_string (history_uri rec)),
           (''id'', JString (as_str (rec_id rec))),
           (''lastActivity'', opt_string (map_option (env_rfc3339 e)
              (last_activity_for_session (session_id ctx) (rec_id rec) (roster w)))),
           (''mode'', opt_string (mode rec)),
           (''parentId'', opt_string (map_option as_str (parent rec))),
           (''status'', JString (status_str (status rec))),
           (''unread'', JNumber (PosInt (unread_count_for_session (session_id ctx) (rec_id rec) (roster w))))])
          (list_for_session (session_id ctx) (roster w)))), w))"

subsection \<open>Registration\<close>

definition agents_calls ::
    "'ch agents_env \<Rightarrow>
     (string \<times> (json \<Rightarrow> 'w invocation_ctx \<Rightarrow> 'ch agents_world \<Rightarrow> (json, 'ch) outcome)) list" where
  "agents_calls e =
     [(''agents.run'', agents_run e), (''agents.spawn'', agents_spawn e),
      (''agents.parallel'', agents_parallel e), (''agents.pipeline'', agents_pipeline e),
      (''agents.send'', agents_send e), (''agents.broadcast'', agents_broadcast e),
      (''agents.cancel'', agents_cancel e), (''agents.wait'', agents_wait e),
      (''agents.inbox'', agents_inbox e), (''agents.list'', agents_list e)]"

end
