(* ===== verification/Delegation.thy ===== *)
theory Delegation
  imports Orchestrate Registry_Inv Actor_Ids
begin

text \<open>
  What a child actor may do: the capabilities a parent delegates (\<open>child_agent_grants\<close>), the admission of
  children by \<open>agents.run\<close>, \<open>agents.spawn\<close>, \<open>agents.parallel\<close> and \<open>agents.pipeline\<close>, and the authority of
  the callers of \<open>agents.cancel\<close> and of every other call.
\<close>

subsection \<open>The error operator\<close>

lemma bind_result_Inr [rust_simps]:
  "bind_result res k = Inr v \<longleftrightarrow> (\<exists>x. res = Inr x \<and> k x = Inr v)"
  by (auto simp: bind_result_def split: sum.splits)

lemma ok_or_Inr [rust_simps]: "ok_or v e = Inr x \<longleftrightarrow> v = Some x"
  by (auto simp: ok_or_def split: option.splits)

lemma attempt_simps [simp]:
  "attempt (Inl err) w k = Some (Inl err, w)" "attempt (Inr v) w k = k v"
  by (simp_all add: attempt_def)

lemma attempt_Inr [rust_simps]:
  "attempt res w k = Some (Inr v, w') \<longleftrightarrow> (\<exists>x. res = Inr x \<and> k x = Some (Inr v, w'))"
  by (auto simp: attempt_def split: sum.splits)

lemma collect_results_Inr:
  "collect_results res = Inr vs \<longleftrightarrow> res = map Inr vs"
proof (induction res arbitrary: vs)
  case (Cons res rest)
  then show ?case by (cases vs) (auto simp: bind_result_Inr)
qed auto

lemma validate_bounded_text_Inr [rust_simps]:
  "validate_bounded_text text field n = Inr u \<longleftrightarrow> length text \<le> n"
  by (auto simp: validate_bounded_text_def)

lemma parse_actor_role_bound: "parse_actor_role v field = Inr role \<Longrightarrow> length role \<le> MAX_ACTOR_ROLE_BYTES"
  by (auto simp: parse_actor_role_def parse_actor_text_def rust_simps split: if_splits)

lemma parse_actor_task_bound: "parse_actor_task v field = Inr task \<Longrightarrow> length task \<le> MAX_ACTOR_TASK_BYTES"
  by (auto simp: parse_actor_task_def parse_actor_text_def rust_simps split: if_splits)

subsection \<open>Delegated capabilities\<close>

definition delegable :: "capability_grants \<Rightarrow> string \<Rightarrow> bool" where
  "delegable held c \<longleftrightarrow> permits held c \<and> is_child_delegable c \<and> single_star c \<and>
     c \<noteq> [] \<and> length c \<le> MAX_CHILD_CAPABILITY_BYTES"

lemma one_star_last:
  assumes "length (filter (\<lambda>b. b = x) s) = 1" "s = r @ [x]"
  shows "x \<notin> set (butlast s)"
  using assms by (simp add: filter_empty_conv) metis

lemma validate_child_capability_name_single_star:
  assumes "validate_child_capability_name c i = Inr ()"
  shows "single_star c \<and> c \<noteq> [] \<and> length c \<le> MAX_CHILD_CAPABILITY_BYTES"
proof -
  have c: "c \<noteq> []" "length c \<le> MAX_CHILD_CAPABILITY_BYTES"
    and star: "length (filter (\<lambda>b. b = CHR ''*'') c) = 0 \<or>
      length (filter (\<lambda>b. b = CHR ''*'') c) = 1 \<and> ends_with c ''.*''"
    using assms by (auto simp: validate_child_capability_name_def Let_def split: if_splits)
  from star have "CHR ''*'' \<notin> set (butlast c)"
  proof
    assume "length (filter (\<lambda>b. b = CHR ''*'') c) = 0"
    then have "CHR ''*'' \<notin> set c" by (auto simp: filter_empty_conv)
    then show ?thesis by (meson in_set_butlastD)
  next
    assume *: "length (filter (\<lambda>b. b = CHR ''*'') c) = 1 \<and> ends_with c ''.*''"
    then obtain r where "c = (r @ ''.'') @ [CHR ''*'']" by (auto simp: ends_with_iff)
    with * show ?thesis by (intro one_star_last) auto
  qed
  with c show ?thesis by (simp add: single_star_def)
qed

lemma requested_capabilities_delegable:
  assumes "requested_capabilities held i n req vs = Inr names" "\<forall>c \<in> set req. delegable held c"
  shows "(\<forall>c \<in> set names. delegable held c) \<and> length names = length req + length vs"
  using assms
proof (induction held i n req vs rule: requested_capabilities.induct)
  case (2 held i n req v vs)
  then obtain c m where c: "json_as_str v = Some c" "validate_child_capability_name c i = Inr ()"
    "usize_checked_add n (length c) = Some m" "is_child_delegable c" "permits held c"
    "requested_capabilities held (i + 1) m (c # req) vs = Inr names" "\<not> MAX_CHILD_CAPABILITY_TOTAL_BYTES < m"
    by (auto simp: rust_simps split: if_splits)
  have "delegable held c"
    using c validate_child_capability_name_single_star [OF c(2)] by (simp add: delegable_def)
  with 2(1) [OF c(7), of c] c 2(3) show ?case by simp
qed simp

lemma child_agent_grants_delegable:
  assumes "child_agent_grants ctx opts = Inr g"
  shows "(\<forall>c \<in> allowed g. delegable (grants ctx) c) \<and> card (allowed g) \<le> MAX_CHILD_CAPABILITIES"
proof (cases "g = no_grants")
  case True
  then show ?thesis by (simp add: no_grants_def)
next
  case False
  with assms obtain names vs where names: "g = allow_many no_grants names"
    "requested_capabilities (grants ctx) 0 0 [] vs = Inr names" "length vs \<le> MAX_CHILD_CAPABILITIES"
    by (auto simp: child_agent_grants_def rust_simps split: option.splits if_splits)
  with requested_capabilities_delegable [OF names(2)] card_length [of names] show ?thesis
    by (simp add: allowed_allow_many no_grants_def)
qed

lemma delegable_no_control:
  assumes "delegable held c" "grant_covers c name"
  shows "\<not> starts_with name ''modes.'' \<and> \<not> starts_with name ''backend.''"
proof -
  have no: "\<not> starts_with name (q @ ''.'')"
    if q: "\<not> starts_with c (q @ ''.'')" "CHR ''.'' \<notin> set q" for q
  proof (cases "ends_with c ''.*''")
    case False
    with assms q show ?thesis by (simp add: grant_covers_plain)
  next
    case True
    then obtain p where c: "c = p @ ''.*''" by (auto simp: ends_with_iff)
    with assms(2) have "name = p \<or> (\<exists>rest. name = p @ ''.'' @ rest)"
      by (simp add: grant_covers_wildcard)
    then show ?thesis
    proof
      assume "name = p"
      with q(1) show ?thesis by (auto simp: c starts_with_iff)
    next
      assume "\<exists>rest. name = p @ ''.'' @ rest"
      then obtain rest where name: "name = p @ ''.'' @ rest" by blast
      show ?thesis
      proof
        assume "starts_with name (q @ ''.'')"
        then obtain r where eq: "p @ ''.'' @ rest = q @ ''.'' @ r" by (auto simp: name starts_with_iff)
        then obtain us where "p = q @ us \<and> us @ ''.'' @ rest = ''.'' @ r \<or>
            p @ us = q \<and> ''.'' @ rest = us @ ''.'' @ r"
          by (auto simp: append_eq_append_conv2)
        then show False
        proof
          assume *: "p = q @ us \<and> us @ ''.'' @ rest = ''.'' @ r"
          then have "p = q \<or> (\<exists>us'. p = q @ ''.'' @ us')" by (cases us) auto
          then show False using q(1) by (auto simp: c starts_with_iff)
        next
          assume *: "p @ us = q \<and> ''.'' @ rest = us @ ''.'' @ r"
          then have "us = [] \<or> CHR ''.'' \<in> set us" by (cases us) auto
          with * q show False by (auto simp: c starts_with_iff)
        qed
      qed
    qed
  qed
  from assms no [of "''modes''"] no [of "''backend''"] show ?thesis
    by (simp add: delegable_def is_child_delegable_def)
qed

text \<open>C5. A child can do nothing its parent cannot: every capability that the grants delegated by
  \<open>child_agent_grants\<close> permit is permitted to the caller, none of the server's control planes
  (\<open>modes.*\<close>, \<open>backend.*\<close>) is ever permitted, at most 32 names of at most 128 bytes are delegated, and the
  child's own grants again satisfy the assumption on the parent's, so that the bound holds along any
  chain of delegations. The assumption says that a held grant has no star but a final one.
\<close>

theorem child_authority_bounded:
  assumes "child_agent_grants ctx opts = Inr g" "\<forall>c \<in> allowed (grants ctx). single_star c"
  shows "(\<forall>name. permits g name \<longrightarrow> permits (grants ctx) name
            \<and> \<not> starts_with name ''modes.'' \<and> \<not> starts_with name ''backend.'') \<and>
    card (allowed g) \<le> 32 \<and> (\<forall>c \<in> allowed g. length c \<le> 128 \<and> single_star c)"
proof -
  note del = child_agent_grants_delegable [OF assms(1)]
  have "permits (grants ctx) name \<and> \<not> starts_with name ''modes.'' \<and> \<not> starts_with name ''backend.''"
    if "permits g name" for name
  proof -
    from that obtain c where c: "c \<in> allowed g" "grant_covers c name" by (auto simp: permits_def)
    with del have d: "delegable (grants ctx) c" by blast
    then obtain h where h: "h \<in> allowed (grants ctx)" "grant_covers h c"
      by (auto simp: delegable_def permits_def)
    with assms(2) c(2) have "grant_covers h name" using grant_covers_trans by blast
    with h(1) delegable_no_control [OF d c(2)] show ?thesis by (auto simp: permits_def)
  qed
  with del show ?thesis by (simp add: delegable_def)
qed

definition sample_ctx :: "capability_grants \<Rightarrow> string option \<Rightarrow> unit invocation_ctx" where
  "sample_ctx g a = (ctx_new g)\<lparr>session_id := ''s'', actor_id := a\<rparr>"

theorem child_authority_bounded_witness:
  "child_agent_grants (sample_ctx \<lparr>allowed = {''agents.*''}\<rparr> None)
     (Some (JObject [(''capabilities'', JArray [JString ''agents.run''])])) = Inr \<lparr>allowed = {''agents.run''}\<rparr> \<and>
   permits \<lparr>allowed = {''agents.*''}\<rparr> ''agents.run''"
proof -
  let ?ctx = "sample_ctx \<lparr>allowed = {''agents.*''}\<rparr> None"
  have g: "child_agent_grants ?ctx
      (Some (JObject [(''capabilities'', JArray [JString ''agents.run''])])) = Inr \<lparr>allowed = {''agents.run''}\<rparr>"
  proof -
    have "validate_child_capability_name ''agents.run'' 0 = Inr ()" "is_child_delegable ''agents.run''"
      "grant_covers ''agents.*'' ''agents.run''" by code_simp+
    then show ?thesis
      by (simp add: child_agent_grants_def sample_ctx_def ctx_new_def ctx_with_approvals_def bind_result_def
          ok_or_def usize_checked_add_def permits_def allow_many_def no_grants_def)
  qed
  have "grant_covers ''agents.run'' ''agents.run''" by code_simp
  then have "permits \<lparr>allowed = {''agents.run''}\<rparr> ''agents.run''" by (simp add: permits_def)
  with child_authority_bounded [OF g] have "permits (grants ?ctx) ''agents.run''"
    by (simp add: sample_ctx_def ctx_new_def ctx_with_approvals_def single_star_def)
  with g show ?thesis by (simp add: sample_ctx_def ctx_new_def ctx_with_approvals_def)
qed

end
