(* ===== verification/Orchestrate_Steps.thy ===== *)
theory Orchestrate_Steps
  imports Delegation Session_Isolation
begin

text \<open>
  The \<open>agents.*\<close> calls refine the registry: whatever a call of a session does to the registry is a
  sequence of registry operations of that session, so the registry's invariant and the isolation of
  sessions hold of the calls. The executor, the other tasks that run while a call awaits and the
  runtime's \<open>buffered\<close> are parameters; \<open>session_env\<close> names what is relied upon: they act on the registry
  only through its operations.
\<close>

subsection \<open>Sequences of registry operations\<close>

abbreviation steps :: "'ch channel_ops \<Rightarrow> string \<Rightarrow> 'ch mailbox_registry \<Rightarrow> 'ch mailbox_registry \<Rightarrow> bool" where
  "steps ops session \<equiv> rtranclp (registry_step ops session)"

named_theorems step_intros

lemma steps_refl [step_intros]: "steps ops session r r"
  by simp

lemma steps_trans: "steps ops session r r' \<Longrightarrow> steps ops session r' r'' \<Longrightarrow> steps ops session r r''"
  by (rule rtranclp_trans)

lemmas step_then = rtranclp.rtrancl_into_rtrancl [of "registry_step ops session" for ops session]

lemma steps_op [step_intros]:
  assumes "steps ops session r0 r"
  shows "steps ops session r0 (emit_lifecycle session ev r)"
    "steps ops session r0 (snd (utc_now r))"
    "steps ops session r0 (snd (next_actor_id u role r))"
    "steps ops session r0 (snd (next_supervisor_id u role r))"
    "steps ops session r0 (snd (cancel_actor session a r))"
    "steps ops session r0 (snd (cancel_token_for_session session a r))"
    "steps ops session r0 (set_supervision_policy_for_session session a p r)"
    "steps ops session r0 (snd (mark_complete_with_resources_for_session session a art hist r))"
    "steps ops session r0 (snd (record_actor_error session a why r))"
    "steps ops session r0 (snd (prepare_actor_restart_for_session ops session a r))"
    "steps ops session r0 (store_transcript_for_session rx session a text r)"
    "spec_session_id spec = session \<Longrightarrow> steps ops session r0 (remember_restart_spec spec r)"
    "0 < message_bytes m \<Longrightarrow> steps ops session r0 (snd (send_message_for_session ops session m r))"
    "\<forall>(rec, _) \<in> set recs. \<not> cancelled rec \<Longrightarrow>
       steps ops session r0 (snd (track_batch_for_session ops session recs r))"
  by (rule step_then [OF assms], (rule registry_step.intros; assumption?))+

lemma steps_frame: "steps ops session r r' \<Longrightarrow> session_frame session r r'"
  by (induction rule: rtranclp_induct)
    (auto intro: session_frame_refl session_frame_trans [OF _ session_frame_step])

lemma steps_keep_inv:
  "steps ops session r r' \<Longrightarrow> fifo_channel ops queue cap \<Longrightarrow> registry_inv queue cap r \<Longrightarrow> registry_inv queue cap r'"
  by (induction rule: rtranclp_induct) (auto intro: registry_step_inv)

subsection \<open>Tokens stay with their session\<close>

definition owned_token :: "string \<Rightarrow> token \<Rightarrow> 'ch mailbox_registry \<Rightarrow> bool" where
  "owned_token session t r \<longleftrightarrow> t < next_token r \<and> (\<forall>s a. s \<noteq> session \<longrightarrow> cancel_tokens r (s, a) \<noteq> Some t)"

lemma owned_token_steps: "steps ops session r r' \<Longrightarrow> owned_token session t r \<Longrightarrow> owned_token session t r'"
  using session_frameD(1,2) [OF steps_frame [of ops session r r']]
  by (simp add: owned_token_def)

lemma owned_token_new:
  assumes "registry_inv queue cap r" "cancel_token_for_session session a r = (t, r')"
  shows "owned_token session t r'"
proof -
  have inv: "tokens_inv r" using assms(1) by (simp add: registry_inv_def)
  have lt: "cancel_tokens r k = Some t' \<Longrightarrow> t' < next_token r" for k t' by (rule tokens_invD(1) [OF inv])
  show ?thesis
  proof (cases "cancel_tokens r (session, a)")
    case None
    have "cancel_tokens r (s, b) \<noteq> Some (next_token r)" for s b using lt by blast
    with None assms(2) show ?thesis
      by (auto simp: owned_token_def cancel_token_for_session_def ensure_cancel_token_def token_new_def)
  next
    case (Some t')
    with assms(2) have "t = t'" "r' = r" by (auto simp: cancel_token_for_session_def ensure_cancel_token_def)
    moreover have "cancel_tokens r (s, b) \<noteq> Some t'" if "s \<noteq> session" for s b
      using tokens_invD(2) [OF inv Some, of "(s, b)"] that by blast
    ultimately show ?thesis using lt [OF Some] by (simp add: owned_token_def)
  qed
qed

lemma steps_token_cancel:
  "steps ops session r0 r \<Longrightarrow> owned_token session t r \<Longrightarrow> steps ops session r0 (token_cancel t r)"
  by (erule step_then, rule registry_step.intros(9)) (simp add: owned_token_def)

subsection \<open>What is relied upon\<close>

definition executor_steps :: "'ch agents_env \<Rightarrow> string \<Rightarrow> bool" where
  "executor_steps e session \<longleftrightarrow>
     (\<forall>rt. env_executor e = Some rt \<longrightarrow>
        (\<forall>deadline spec w. spec_session_id spec = session \<longrightarrow>
           steps (env_channels e) session (roster w) (roster (snd (timeout_at rt deadline spec w)))) \<and>
        (\<forall>t w. roster (cancel_token rt t w) = token_cancel t (roster w)))"

definition others_steps :: "'ch agents_env \<Rightarrow> string \<Rightarrow> bool" where
  "others_steps e session \<longleftrightarrow>
     (\<forall>k w. steps (env_channels e) session (roster w) (roster (env_others e k w)))"

text \<open>A wave acts only through its futures: what they all keep and compose, the wave does.\<close>

definition buffered_steps :: "'ch agents_env \<Rightarrow> bool" where
  "buffered_steps e \<longleftrightarrow>
     (\<forall>n fs w safe reach.
        reflp reach \<and> transp reach \<and> (\<forall>w w'. safe w \<and> reach w w' \<longrightarrow> safe w') \<and>
        (\<forall>f \<in> set fs. \<forall>w. safe w \<longrightarrow> reach w (snd (f w))) \<and> safe w \<longrightarrow>
        reach w (snd (env_buffered e n fs w)))"

definition session_env :: "'ch agents_env \<Rightarrow> string \<Rightarrow> bool" where
  "session_env e session \<longleftrightarrow> executor_steps e session \<and> others_steps e session \<and> buffered_steps e"

lemma buffered_stepsD:
  assumes "buffered_steps e" "reflp reach" "transp reach" "\<And>w w'. safe w \<Longrightarrow> reach w w' \<Longrightarrow> safe w'"
    and "\<And>f w. f \<in> set fs \<Longrightarrow> safe w \<Longrightarrow> reach w (snd (f w))" "safe w"
  shows "reach w (snd (env_buffered e n fs w))"
proof -
  note law = assms(1) [unfolded buffered_steps_def, THEN spec [where x = n], THEN spec [where x = fs],
      THEN spec [where x = w], THEN spec [where x = safe], THEN spec [where x = reach], THEN mp]
  show ?thesis
  proof (rule law, intro conjI allI ballI impI)
    show "reflp reach" "transp reach" "safe w" by fact+
  qed (use assms(4,5) in blast)+
qed

subsection \<open>The parts of a call\<close>

lemma steps_track [step_intros]:
  assumes "steps ops session r0 r" "\<not> cancelled rec"
  shows "steps ops session r0 (snd (track_with_supervisor_for_session ops session rec sid r))"
    "steps ops session r0 (snd (track_for_session ops session rec r))"
  using assms by (simp_all add: track_for_session_def track_with_supervisor_for_session_def step_intros)

lemma steps_completed [step_intros]:
  assumes "steps (env_channels e) session r0 (roster w)"
  shows "steps (env_channels e) session r0 (roster (snd (mark_actor_completed e session a digest w)))"
  unfolding mark_actor_completed_def Let_def split_beta
  by (simp add: step_intros assms split: option.split)

lemma steps_restarted [step_intros]:
  assumes "steps (env_channels e) session r0 (roster w)"
  shows "steps (env_channels e) session r0 (roster (spawn_restarted_actor e session a w))"
  using steps_op(10) [OF assms, of a] assms
  by (cases "prepare_actor_restart_for_session (env_channels e) session a (roster w)")
    (simp add: spawn_restarted_actor_def split: option.split)

lemma steps_restart_actions [step_intros]:
  "steps (env_channels e) session r0 (roster w) \<Longrightarrow>
   steps (env_channels e) session r0 (roster (spawn_restart_actions e session acts w))"
  by (induction e session acts w rule: spawn_restart_actions.induct) (simp_all add: step_intros)

lemma steps_error [step_intros]:
  assumes "steps (env_channels e) session r0 (roster w)"
  shows "steps (env_channels e) session r0 (roster (mark_actor_error e session a why w))"
  using steps_op(9) [OF assms, of a why]
  by (cases "record_actor_error session a why (roster w)")
    (simp add: mark_actor_error_def step_intros split: option.split)

lemma steps_run:
  assumes env: "executor_steps e session" "env_executor e = Some rt" and spec: "spec_session_id spec = session"
    and own: "owned_token session (spec_cancellation spec) (roster w)"
  shows "steps (env_channels e) session (roster w) (roster (snd (run_actor_to_digest rt spec w)))"
proof -
  have "\<forall>deadline w. steps (env_channels e) session (roster w) (roster (snd (timeout_at rt deadline spec w)))"
    and cancel: "roster (cancel_token rt t w) = token_cancel t (roster w)" for t w
    using env spec by (auto simp: executor_steps_def)
  then have run: "steps (env_channels e) session (roster w) (roster w')"
      "steps (env_channels e) session (roster w) (token_cancel (spec_cancellation spec) (roster w'))"
    if "timeout_at rt deadline spec w = (res, w')" for deadline res w'
    using that own by (metis snd_conv owned_token_steps steps_token_cancel)+
  show ?thesis
    by (auto simp: run_actor_to_digest_def run_to_digest_with_budget_def Let_def cancel
        split: sum.split prod.split option.split dest: run)
qed

lemma steps_await:
  assumes "executor_steps e session" "env_executor e = Some rt" "spec_session_id spec = session"
    and "owned_token session (spec_cancellation spec) (roster w)"
  shows "steps (env_channels e) session (roster w) (roster (snd (await_actor e rt wrap spec w)))"
    and "steps (env_channels e) session (roster w) (roster (actor_thread e rt spec w))"
  using steps_run [OF assms] assms(3)
  by (auto simp: await_actor_def actor_thread_def step_intros split: prod.split sum.split)

lemma announce_actor_steps:
  assumes "announce_actor ctx a parent_id g role task b at r = (spec, r')"
  shows "steps ops (session_id ctx) r r' \<and> spec_session_id spec = session_id ctx \<and> spec_id spec = a \<and>
    spec_grants spec = g \<and> spec_role spec = role \<and> spec_task spec = task \<and> spec_mode spec = None \<and>
    spec_parent spec = parent_id \<and>
    (registry_inv queue cap r \<longrightarrow> owned_token (session_id ctx) (spec_cancellation spec) r')"
proof -
  obtain t r2 where t: "cancel_token_for_session (session_id ctx) a
      (emit_lifecycle (session_id ctx) (Spawned a parent_id role task 0 b at) r) = (t, r2)" by fastforce
  have spec: "spec = new_actor_spec ctx a parent_id g role task b t" "r' = remember_restart_spec spec r2"
    using assms by (auto simp: announce_actor_def t Let_def)
  have "steps ops (session_id ctx) r (snd (cancel_token_for_session (session_id ctx) a
      (emit_lifecycle (session_id ctx) (Spawned a parent_id role task 0 b at) r)))"
    by (simp add: step_intros)
  then have "steps ops (session_id ctx) r r2" by (simp add: t)
  moreover have "owned_token (session_id ctx) t r'" if "registry_inv queue cap r"
    using owned_token_new [OF registry_inv_emit [OF that] t]
    by (simp add: spec owned_token_def remember_restart_spec_def Let_def)
  ultimately show ?thesis by (simp add: spec new_actor_spec_def step_intros)
qed

text \<open>The spec handed on by an admission: who it belongs to and what it may do.\<close>

definition admitted_spec ::
    "'ch agents_env \<Rightarrow> 'w invocation_ctx \<Rightarrow> actor_id option \<Rightarrow> capability_grants \<Rightarrow> string \<Rightarrow> string \<Rightarrow>
     actor_spec \<Rightarrow> bool" where
  "admitted_spec e ctx parent_id g role task spec \<longleftrightarrow>
     spec_session_id spec = session_id ctx \<and> spec_parent spec = parent_id \<and>
     spec_grants spec = g \<and> spec_role spec = role \<and> spec_task spec = task \<and> spec_mode spec = None"

lemma steps_configure [step_intros]:
  assumes "steps ops session r0 r"
  shows "steps ops session r0 (snd (configure_supervision_from_opts e session parent_id opts r))"
  using assms
  by (auto simp: configure_supervision_from_opts_def step_intros split: option.split sum.split)

lemma admit_actor_steps:
  assumes adm: "admit_actor e ctx role task g configure w = Some (res, w')"
    and conf: "\<And>p r. steps (env_channels e) (session_id ctx) r (snd (configure p r))"
    and fifo: "fifo_channel (env_channels e) queue cap" and inv: "registry_inv queue cap (roster w)"
  shows "steps (env_channels e) (session_id ctx) (roster w) (roster w') \<and> threads w' = threads w \<and>
    (\<forall>spec. res = Inr spec \<longrightarrow> owned_token (session_id ctx) (spec_cancellation spec) (roster w') \<and>
       (\<exists>parent_id. caller_parent_id e ctx = Inr parent_id \<and> admitted_spec e ctx parent_id g role task spec))"
proof -
  let ?steps = "steps (env_channels e) (session_id ctx) (roster w)"
  obtain named r1 where n: "next_actor_id (env_unicode e) role (roster w) = (named, r1)" by fastforce
  have s1: "?steps r1" using steps_op(3) [OF steps_refl, of _ _ "roster w"] by (metis n snd_conv)
  from adm obtain a where a: "named = Some a" by (auto simp: admit_actor_def n split: option.splits)
  show ?thesis
  proof (cases "caller_parent_id e ctx")
    case (Inl err)
    with adm s1 show ?thesis by (auto simp: admit_actor_def n a)
  next
    case (Inr p)
    obtain configured r2 where c: "configure p r1 = (configured, r2)" by fastforce
    with conf [of r1 p] s1 have s2: "?steps r2" by (simp add: rtranclp_trans)
    show ?thesis
    proof (cases configured)
      case (Inl err)
      with adm s2 Inr show ?thesis by (auto simp: admit_actor_def n a c)
    next
      case conf: (Inr sid)
      obtain at r3 where u: "utc_now r2 = (at, r3)" by fastforce
      then have s3: "?steps r3" using steps_op(2) [OF s2] by simp
      let ?rec = "new_actor_record a p role default_actor_budget at"
      define tr where "tr = (case sid of
          Some s \<Rightarrow> track_with_supervisor_for_session (env_channels e) (session_id ctx) ?rec s r3
        | None \<Rightarrow> track_for_session (env_channels e) (session_id ctx) ?rec r3)"
      obtain tracked r4 where t: "tr = (tracked, r4)" by fastforce
      have "?steps (snd tr)"
        using s3 by (auto simp: tr_def new_actor_record_def step_intros split: option.split)
      with t have s4: "?steps r4" by simp
      show ?thesis
      proof (cases "registry_result tracked")
        case (Inl err)
        with adm s4 Inr conf show ?thesis by (auto simp: admit_actor_def n a c u tr_def [symmetric] t)
      next
        case (Inr unit)
        obtain spec r5 where an:
          "announce_actor ctx a p g role task default_actor_budget at r4 = (spec, r5)" by fastforce
        have res: "res = Inr spec" "w' = w\<lparr>roster := r5\<rparr>"
          using adm Inr conf \<open>caller_parent_id e ctx = Inr p\<close>
          by (auto simp: admit_actor_def n a c u tr_def [symmetric] t an)
        note ann = announce_actor_steps [OF an, of "env_channels e" queue cap]
        have "registry_inv queue cap r4" using steps_keep_inv [OF s4 fifo inv] .
        with ann res s4 \<open>caller_parent_id e ctx = Inr p\<close> show ?thesis
          by (auto simp: admitted_spec_def intro: steps_trans)
      qed
    qed
  qed
qed

lemma plan_wave_steps:
  "plan_wave e tasks r = (planned, r') \<Longrightarrow> steps ops session r r' \<and>
     (\<forall>p. planned = Some p \<longrightarrow> map (\<lambda>(_, t, _). t) p = tasks)"
proof (induction e tasks r arbitrary: planned r' rule: plan_wave.induct)
  case (2 e t ts r)
  obtain named r1 where n: "next_actor_id (env_unicode e) (task_role t) r = (named, r1)" by fastforce
  have s1: "steps ops session r r1" using steps_op(3) [OF steps_refl] by (metis n snd_conv)
  show ?case
  proof (cases named)
    case None
    with 2(2) s1 show ?thesis by (auto simp: n)
  next
    case (Some a)
    obtain at r2 where u: "utc_now r1 = (at, r2)" by fastforce
    then have s2: "steps ops session r r2" using steps_op(2) [OF s1] by simp
    obtain rest r3 where p: "plan_wave e ts r2 = (rest, r3)" by fastforce
    from 2(1) [OF n [symmetric] refl Some u [symmetric] refl p]
    have "steps ops session r2 r3" "\<forall>p. rest = Some p \<longrightarrow> map (\<lambda>(_, t, _). t) p = ts" by auto
    with 2(2) s2 Some show ?thesis by (auto simp: n u p intro: steps_trans)
  qed
qed simp

text \<open>Which admitted specs belong to which tasks, in order.\<close>

definition wave_specs ::
    "'ch agents_env \<Rightarrow> 'w invocation_ctx \<Rightarrow> actor_id option \<Rightarrow> capability_grants \<Rightarrow> wave_task list \<Rightarrow>
     actor_spec list \<Rightarrow> bool" where
  "wave_specs e ctx parent_id g tasks specs \<longleftrightarrow>
     list_all2 (\<lambda>t spec. admitted_spec e ctx parent_id g (task_role t) (task_text t) spec) tasks specs"

lemma announce_wave_steps:
  "announce_wave ctx parent_id g planned r = (specs, r') \<Longrightarrow> fifo_channel ops queue cap \<Longrightarrow>
   registry_inv queue cap r \<Longrightarrow>
   steps ops (session_id ctx) r r' \<and> wave_specs e ctx parent_id g (map (\<lambda>(_, t, _). t) planned) specs \<and>
   (\<forall>spec \<in> set specs. owned_token (session_id ctx) (spec_cancellation spec) r')"
proof (induction ctx parent_id g planned r arbitrary: specs r' rule: announce_wave.induct)
  case (2 ctx parent_id g a t at planned r)
  obtain spec r1 where an:
    "announce_actor ctx a parent_id g (task_role t) (task_text t) (task_budget t) at r = (spec, r1)" by fastforce
  obtain rest r2 where w: "announce_wave ctx parent_id g planned r1 = (rest, r2)" by fastforce
  note one = announce_actor_steps [OF an, of ops queue cap]
  have "registry_inv queue cap r1" using one steps_keep_inv 2(3,4) by blast
  with 2(1) [OF an [symmetric] refl w 2(3)] have
    rest: "steps ops (session_id ctx) r1 r2" "wave_specs e ctx parent_id g (map (\<lambda>(_, t, _). t) planned) rest"
    "\<forall>spec \<in> set rest. owned_token (session_id ctx) (spec_cancellation spec) r2" by auto
  have "specs = spec # rest" "r' = r2" using 2(2) by (auto simp: an w)
  with one rest 2(4) show ?case
    by (auto simp: wave_specs_def admitted_spec_def intro: steps_trans owned_token_steps)
qed (simp add: wave_specs_def)

lemma admit_wave_steps:
  assumes adm: "admit_wave e ctx parent_id g label tasks w = Some (res, w')"
    and fifo: "fifo_channel (env_channels e) queue cap" and inv: "registry_inv queue cap (roster w)"
  shows "steps (env_channels e) (session_id ctx) (roster w) (roster w') \<and> threads w' = threads w \<and>
    (\<forall>specs. res = Inr specs \<longrightarrow> wave_specs e ctx parent_id g tasks specs \<and>
       (\<forall>spec \<in> set specs. owned_token (session_id ctx) (spec_cancellation spec) (roster w')))"
proof -
  let ?steps = "steps (env_channels e) (session_id ctx) (roster w)"
  let ?policy = "\<lparr>strategy = OneForAll, max_restarts = 0\<rparr>"
  obtain named r1 where n: "next_supervisor_id (env_unicode e) label (roster w) = (named, r1)" by fastforce
  have s1: "?steps r1" using steps_op(4) [OF steps_refl] by (metis n snd_conv)
  from adm obtain sid where sid: "named = Some sid" by (auto simp: admit_wave_def n split: option.splits)
  define r2 where "r2 = set_supervision_policy_for_session (session_id ctx) sid ?policy r1"
  have s2: "?steps r2" unfolding r2_def by (rule steps_op(7) [OF s1])
  obtain planned r3 where p: "plan_wave e tasks r2 = (planned, r3)" by fastforce
  note plan = plan_wave_steps [OF p, of "env_channels e" "session_id ctx"]
  with s2 have s3: "?steps r3" using steps_trans by blast
  from adm obtain pl where pl: "planned = Some pl"
    by (auto simp: admit_wave_def n sid r2_def [symmetric] p Let_def split: option.splits)
  let ?recs = "map (\<lambda>(a, t, at). (new_actor_record a parent_id (task_role t) (task_budget t) at, sid)) pl"
  obtain tracked r4 where t:
    "track_batch_for_session (env_channels e) (session_id ctx) ?recs r3 = (tracked, r4)" by fastforce
  have "?steps (snd (track_batch_for_session (env_channels e) (session_id ctx) ?recs r3))"
    by (rule steps_op(14) [OF s3]) (auto simp: new_actor_record_def)
  with t have s4: "?steps r4" by simp
  note eqs = admit_wave_def n sid r2_def [symmetric] p pl t
  show ?thesis
  proof (cases "registry_result tracked")
    case (Inl err)
    with adm s4 show ?thesis by (auto simp: eqs Let_def)
  next
    case (Inr unit)
    obtain specs r5 where an: "announce_wave ctx parent_id g pl r4 = (specs, r5)" by fastforce
    have res: "res = Inr specs" "w' = w\<lparr>roster := r5\<rparr>" using adm Inr by (auto simp: eqs an Let_def)
    have "registry_inv queue cap r4" using steps_keep_inv [OF s4 fifo inv] .
    from announce_wave_steps [OF an fifo this, of e] res s4 plan pl show ?thesis
      by (auto intro: steps_trans)
  qed
qed

lemma run_wave_steps:
  assumes env: "session_env e session" "env_executor e = Some rt"
    and specs: "\<forall>spec \<in> set specs. spec_session_id spec = session \<and>
      owned_token session (spec_cancellation spec) (roster w)"
  shows "steps (env_channels e) session (roster w) (roster (snd (run_wave e rt specs w)))"
proof -
  let ?reach = "\<lambda>w w'. steps (env_channels e) session (roster w) (roster w')"
  let ?safe = "\<lambda>w. \<forall>spec \<in> set specs. owned_token session (spec_cancellation spec) (roster w)"
  let ?futures = "map (\<lambda>spec w.
      let cancel_on_drop = guard_new [spec_cancellation spec];
          (result, w') = await_actor e rt
            (\<lambda>error. ''actor '' @ as_str (spec_id spec) @ '' failed: '' @ error) spec w
      in (result, w'\<lparr>roster := guard_drop (guard_disarm cancel_on_drop) (roster w')\<rparr>)) specs"
  have ex: "executor_steps e session" "buffered_steps e" using env(1) by (simp_all add: session_env_def)
  have "?reach w (snd (env_buffered e 4 ?futures w))"
  proof (rule buffered_stepsD [OF ex(2), where safe = ?safe and reach = ?reach])
    show "reflp ?reach" by (simp add: reflp_def)
    show "transp ?reach" by (auto simp: transp_def intro: steps_trans)
    show "?safe w" using specs by blast
    show "?safe w'" if "?safe w" "?reach w w'" for w w' using that owned_token_steps by blast
    show "?reach w (snd (f w))" if "f \<in> set ?futures" "?safe w" for f w
    proof -
      from that(1) obtain spec where spec: "spec \<in> set specs" "roster (snd (f w)) =
          roster (snd (await_actor e rt (\<lambda>error. ''actor '' @ as_str (spec_id spec) @ '' failed: '' @ error) spec w))"
        by (auto simp: split_beta Let_def guard_disarm_def)
      with steps_await(1) [OF ex(1) env(2)] specs that(2) show ?thesis by auto
    qed
  qed
  then show ?thesis by (simp add: run_wave_def Let_def split_beta guard_disarm_def)
qed

lemma wave_specs_session:
  assumes "wave_specs e ctx parent_id g tasks specs" "spec \<in> set specs"
  shows "spec_session_id spec = session_id ctx"
  using assms unfolding wave_specs_def
  by (induction rule: list_all2_induct) (auto simp: admitted_spec_def)

lemma pipeline_wave_steps:
  assumes run: "run_pipeline_wave e rt ctx parent_id g tasks w = Some (res, w')"
    and env: "session_env e (session_id ctx)" "env_executor e = Some rt"
    and fifo: "fifo_channel (env_channels e) queue cap" and inv: "registry_inv queue cap (roster w)"
  shows "steps (env_channels e) (session_id ctx) (roster w) (roster w')"
proof (cases "MAX_ACTORS_PER_CALL < length tasks")
  case True
  with run have "w' = w" by (simp only: run_pipeline_wave_def if_True option.inject prod.inject)
  then show ?thesis by simp
next
  case False
  define ts where "ts = map (\<lambda>(role, task).
      \<lparr>task_role = role, task_text = task, task_budget = default_actor_budget\<rparr>) tasks"
  have "(case admit_wave e ctx parent_id g ''PipelineWave'' ts w of None \<Rightarrow> None
      | Some (admitted, w1) \<Rightarrow> attempt admitted w1 (\<lambda>specs. Some (run_wave e rt specs w1))) = Some (res, w')"
    using run False by (simp only: run_pipeline_wave_def ts_def if_False)
  then obtain admitted w1 where adm: "admit_wave e ctx parent_id g ''PipelineWave'' ts w = Some (admitted, w1)"
    "attempt admitted w1 (\<lambda>specs. Some (run_wave e rt specs w1)) = Some (res, w')"
    by (cases "admit_wave e ctx parent_id g ''PipelineWave'' ts w") auto
  note wave = admit_wave_steps [OF adm(1) fifo inv]
  show ?thesis
  proof (cases admitted)
    case (Inl err)
    with adm(2) wave show ?thesis by simp
  next
    case (Inr specs)
    with wave have "wave_specs e ctx parent_id g ts specs"
      "\<forall>spec \<in> set specs. owned_token (session_id ctx) (spec_cancellation spec) (roster w1)" by simp_all
    with wave_specs_session [OF this(1)] run_wave_steps [OF env, of specs w1] adm(2) Inr
    have "steps (env_channels e) (session_id ctx) (roster w1) (roster w')" by simp
    with wave show ?thesis by (meson steps_trans)
  qed
qed

lemma pipeline_stages_steps:
  assumes env: "session_env e (session_id ctx)" "env_executor e = Some rt"
    and fifo: "fifo_channel (env_channels e) queue cap"
  shows "run_pipeline_stages e rt ctx parent_id g stages inputs outputs w = Some (res, w') \<Longrightarrow>
    registry_inv queue cap (roster w) \<Longrightarrow> steps (env_channels e) (session_id ctx) (roster w) (roster w')"
proof (induction stages arbitrary: inputs outputs w)
  case (Cons stage stages)
  obtain i s where stage: "stage = (i, s)" by fastforce
  with Cons(2) obtain tasks where tasks: "pipeline_wave_tasks e i s inputs = Some tasks"
    by (auto split: option.splits)
  show ?case
  proof (cases tasks)
    case (Inl err)
    with Cons(2) show ?thesis by (simp add: stage tasks)
  next
    case (Inr ts)
    with Cons(2) obtain finished w1 where run: "run_pipeline_wave e rt ctx parent_id g ts w = Some (finished, w1)"
      by (auto simp: stage tasks split: option.splits)
    have s1: "steps (env_channels e) (session_id ctx) (roster w) (roster w1)"
      by (rule pipeline_wave_steps [OF run env fifo Cons(3)])
    show ?thesis
    proof (cases finished)
      case (Inl err)
      with Cons(2) s1 Inr show ?thesis by (auto simp: stage tasks run)
    next
      case (Inr digests)
      with Cons(1) [of digests _ w1] Cons(2) \<open>tasks = Inr ts\<close> steps_keep_inv [OF s1 fifo Cons(3)] s1 show ?thesis
        by (auto simp: stage tasks run intro: steps_trans)
    qed
  qed
qed simp

subsection \<open>Messages\<close>

lemma steps_emit_message [step_intros]:
  "steps ops session r0 r \<Longrightarrow> steps ops session r0 (maybe_emit_message session m rcpt r)"
  by (simp add: maybe_emit_message_def step_intros)

lemma text_nonempty:
  assumes "parse_plain_prose_text e args field = Inr text"
  shows "text \<noteq> [] \<and> length text \<le> MAX_ACTOR_MESSAGE_BYTES"
  using assms by (auto simp: parse_plain_prose_text_def validate_plain_prose_text_def rust_simps str_trim_def
      str_of_chars_def split: if_splits)

lemma message_bytes_pos: "msg_text m \<noteq> [] \<Longrightarrow> 0 < message_bytes m"
  by (cases "msg_text m") (auto simp: message_bytes_def usize_sat_add_def split: option.split)

lemma steps_wait:
  assumes "wait_for_message_for_session ops session a from timeout now r = Some (m, r')" "steps ops session r0 r"
  shows "steps ops session r0 r'"
  using assms(2) registry_step.intros(23) [OF assms(1)] by (rule rtranclp.rtrancl_into_rtrancl)

lemma wait_loop_steps:
  "wait_loop e session a from deadline k w = Some y \<Longrightarrow> others_steps e session \<Longrightarrow>
   steps (env_channels e) session (roster w) (roster (snd y))"
proof (induction rule: wait_loop.raw_induct [rotated, consumes 1, case_names step])
  case (step wl e session a sender deadline k w y)
  show ?case
  proof (cases "is_cancelled_for_session session a (roster w) \<or> deadline \<le> env_instant e k")
    case True
    with step(2) show ?thesis by (auto split: if_splits)
  next
    case False
    let ?w1 = "env_others e k w"
    have s1: "steps (env_channels e) session (roster w) (roster ?w1)"
      using step(3) by (simp add: others_steps_def)
    from False step(2) obtain m r where w: "wait_for_message_for_session (env_channels e) session a sender
        (min (deadline - env_instant e k) 50) (env_instant e (k + 1)) (roster ?w1) = Some (m, r)"
      by (auto simp: Let_def split: option.splits)
    have s2: "steps (env_channels e) session (roster w) r" by (rule steps_wait [OF w s1])
    show ?thesis
    proof (cases m)
      case None
      with False step(2) w have "wl e session a sender deadline (k + 2) (?w1\<lparr>roster := r\<rparr>) = Some y"
        by (simp add: Let_def)
      from step(1) [OF this step(3)] s2 show ?thesis by (simp add: rtranclp_trans)
    next
      case (Some msg)
      with False step(2) w s2 show ?thesis by (auto simp: Let_def)
    qed
  qed
qed

lemma broadcast_steps:
  "broadcast_to e session sender text targets receipts w = Some (res, w') \<Longrightarrow> text \<noteq> [] \<Longrightarrow>
   steps (env_channels e) session (roster w) (roster w')"
proof (induction targets arbitrary: receipts w)
  case (Cons target targets)
  obtain at r1 where u: "utc_now (roster w) = (at, r1)" by fastforce
  then have s1: "steps (env_channels e) session (roster w) r1" using steps_op(2) [OF steps_refl] by (metis snd_conv)
  define m where "m = \<lparr>msg_from = sender, msg_to = rec_id target, msg_text = text, msg_reply_to = None,
    msg_sent_at = at\<rparr>"
  obtain sent r2 where s: "send_message_for_session (env_channels e) session m r1 = (sent, r2)" by fastforce
  have "0 < message_bytes m" using Cons(3) by (intro message_bytes_pos) (simp add: m_def)
  from steps_op(13) [OF s1 this] s have s2: "steps (env_channels e) session (roster w) r2" by simp
  show ?case
  proof (cases "registry_result sent")
    case (Inl err)
    with Cons(2) s2 show ?thesis by (auto simp: u m_def [symmetric] s)
  next
    case (Inr rcpt)
    let ?w1 = "w\<lparr>roster := maybe_emit_message session m rcpt r2\<rparr>"
    from Inr Cons(2) obtain receipts' where
      "broadcast_to e session sender text targets receipts' ?w1 = Some (res, w')"
      by (simp add: u m_def [symmetric] s Let_def)
    from Cons(1) [OF this Cons(3)] s2 show ?thesis
      by (simp add: steps_trans [OF steps_emit_message])
  qed
qed simp

subsection \<open>The calls\<close>

lemma attemptE:
  assumes "attempt res w k = Some y"
  obtains (Error) err where "res = Inl err" "y = (Inl err, w)" | (Go) v where "res = Inr v" "k v = Some y"
  using assms by (cases res) auto

lemma agents_run_steps:
  assumes call: "agents_run e args ctx w = Some (res, w')"
    and env: "session_env e (session_id ctx)"
    and fifo: "fifo_channel (env_channels e) queue cap" and inv: "registry_inv queue cap (roster w)"
  shows "steps (env_channels e) (session_id ctx) (roster w) (roster w')"
proof (cases "w' = w")
  case False
  with call obtain role task g rt where args: "executor_of e ''agents.run'' = Inr rt"
    "(case admit_actor e ctx role task g (\<lambda>_ r. (Inr None, r)) w of None \<Rightarrow> None
      | Some (admitted, w1) \<Rightarrow>
          attempt admitted w1 (\<lambda>spec. Some (await_actor e rt (\<lambda>err. err) spec w1))) = Some (res, w')"
    unfolding agents_run_def by (auto elim!: attemptE split: if_splits)
  then obtain admitted w1 where adm: "admit_actor e ctx role task g (\<lambda>_ r. (Inr None, r)) w = Some (admitted, w1)"
    "attempt admitted w1 (\<lambda>spec. Some (await_actor e rt (\<lambda>err. err) spec w1)) = Some (res, w')"
    by (cases "admit_actor e ctx role task g (\<lambda>_ r. (Inr None, r)) w") auto
  have rt: "env_executor e = Some rt" using args(1) by (simp add: executor_of_def rust_simps)
  have ex: "executor_steps e (session_id ctx)" using env by (simp add: session_env_def)
  note admitted = admit_actor_steps [OF adm(1) _ fifo inv, simplified]
  from adm(2) show ?thesis
  proof (cases rule: attemptE)
    case Error
    with admitted show ?thesis by simp
  next
    case (Go spec)
    with admitted have "spec_session_id spec = session_id ctx"
      "owned_token (session_id ctx) (spec_cancellation spec) (roster w1)" by (auto simp: admitted_spec_def)
    from steps_await(1) [OF ex rt this, of "\<lambda>err. err"] Go
    have "steps (env_channels e) (session_id ctx) (roster w1) (roster w')" by simp
    with admitted show ?thesis by (meson steps_trans)
  qed
qed simp

lemma agents_spawn_admitted:
  assumes "agents_spawn e args ctx w = Some (res, w')"
  shows "(\<exists>err. res = Inl err \<and> w' = w) \<or>
    (\<exists>role task g admitted w1.
       parse_actor_role (json_index args ''role'') ''role'' = Inr role \<and>
       parse_actor_task (json_index args ''task'') ''task'' = Inr task \<and>
       child_agent_grants ctx (json_get args ''opts'') = Inr g \<and>
       admit_actor e ctx role task g (\<lambda>parent_id. configure_supervision_from_opts e (session_id ctx) parent_id
           (json_get args ''opts'')) w = Some (admitted, w1) \<and>
       (case admitted of
          Inl err \<Rightarrow> res = Inl err \<and> w' = w1
        | Inr spec \<Rightarrow> res = Inr (JObject [(''id'', JString (as_str (spec_id spec)))]) \<and>
            w' = w1\<lparr>threads := threads w1 @ [spec]\<rparr>))"
proof -
  let ?admit = "\<lambda>role task g. admit_actor e ctx role task g (\<lambda>parent_id.
      configure_supervision_from_opts e (session_id ctx) parent_id (json_get args ''opts'')) w"
  consider (err) err where "res = Inl err" "w' = w" | (go) role task g where
      "parse_actor_role (json_index args ''role'') ''role'' = Inr role"
      "parse_actor_task (json_index args ''task'') ''task'' = Inr task"
      "child_agent_grants ctx (json_get args ''opts'') = Inr g"
      "(case ?admit role task g of None \<Rightarrow> None | Some (admitted, w1) \<Rightarrow>
          attempt admitted w1 (\<lambda>spec. Some (Inr (JObject [(''id'', JString (as_str (spec_id spec)))]),
            w1\<lparr>threads := threads w1 @ [spec]\<rparr>))) = Some (res, w')"
    using assms unfolding agents_spawn_def by (auto elim!: attemptE split: if_splits)
  then show ?thesis
  proof cases
    case go
    then obtain admitted w1 where adm: "?admit role task g = Some (admitted, w1)"
      "attempt admitted w1 (\<lambda>spec. Some (Inr (JObject [(''id'', JString (as_str (spec_id spec)))]),
          w1\<lparr>threads := threads w1 @ [spec]\<rparr>)) = Some (res, w')"
      by (cases "?admit role task g") auto
    from adm(2) have "case admitted of Inl err \<Rightarrow> res = Inl err \<and> w' = w1
        | Inr spec \<Rightarrow> res = Inr (JObject [(''id'', JString (as_str (spec_id spec)))]) \<and>
            w' = w1\<lparr>threads := threads w1 @ [spec]\<rparr>"
      by (cases rule: attemptE) auto
    with go(1-3) adm(1) show ?thesis by blast
  qed simp
qed

lemma agents_spawn_steps:
  assumes call: "agents_spawn e args ctx w = Some (res, w')"
    and fifo: "fifo_channel (env_channels e) queue cap" and inv: "registry_inv queue cap (roster w)"
  shows "steps (env_channels e) (session_id ctx) (roster w) (roster w')"
proof (cases "w' = w")
  case False
  with agents_spawn_admitted [OF call] obtain role task g admitted w1 where
    adm: "admit_actor e ctx role task g (\<lambda>parent_id. configure_supervision_from_opts e (session_id ctx) parent_id
           (json_get args ''opts'')) w = Some (admitted, w1)"
    "case admitted of Inl err \<Rightarrow> res = Inl err \<and> w' = w1
      | Inr spec \<Rightarrow> res = Inr (JObject [(''id'', JString (as_str (spec_id spec)))]) \<and>
          w' = w1\<lparr>threads := threads w1 @ [spec]\<rparr>" by blast
  from adm(2) have "roster w' = roster w1" by (cases admitted) auto
  with admit_actor_steps [OF adm(1) _ fifo inv] show ?thesis by (simp add: step_intros)
qed simp

lemma agents_parallel_admitted:
  assumes "agents_parallel e args ctx w = Some (res, w')"
  shows "((\<exists>err. res = Inl err) \<or> res = Inr (JArray [])) \<and> w' = w \<or>
    (\<exists>g tasks parsed rt parent_id admitted w1.
       child_agent_grants ctx (json_get args ''opts'') = Inr g \<and>
       json_as_array (json_index args ''tasks'') = Some tasks \<and> length tasks \<le> MAX_ACTORS_PER_CALL \<and>
       collect_results (map (\<lambda>(i, item). parse_parallel_task i item) (enumerate 0 tasks)) = Inr parsed \<and>
       env_executor e = Some rt \<and> caller_parent_id e ctx = Inr parent_id \<and>
       admit_wave e ctx parent_id g ''ParallelGroup'' parsed w = Some (admitted, w1) \<and>
       (case admitted of
          Inl err \<Rightarrow> res = Inl err \<and> w' = w1
        | Inr specs \<Rightarrow> w' = snd (run_wave e rt specs w1) \<and>
            (case fst (run_wave e rt specs w1) of
               Inl err \<Rightarrow> res = Inl err
             | Inr digests \<Rightarrow> res = Inr (JArray digests))))"
proof -
  let ?admit = "\<lambda>g parent_id parsed. admit_wave e ctx parent_id g ''ParallelGroup'' parsed w"
  let ?rest = "\<lambda>rt admitted w1. attempt admitted w1 (\<lambda>specs.
      let (results, w2) = run_wave e rt specs w1
      in attempt results w2 (\<lambda>digests. Some (Inr (JArray digests), w2)))"
  consider (early) "(\<exists>err. res = Inl err) \<or> res = Inr (JArray [])" "w' = w"
    | (go) g tasks parsed rt parent_id where
      "child_agent_grants ctx (json_get args ''opts'') = Inr g"
      "json_as_array (json_index args ''tasks'') = Some tasks" "\<not> MAX_ACTORS_PER_CALL < length tasks"
      "collect_results (map (\<lambda>(i, item). parse_parallel_task i item) (enumerate 0 tasks)) = Inr parsed"
      "executor_of e ''agents.parallel'' = Inr rt" "caller_parent_id e ctx = Inr parent_id"
      "(case ?admit g parent_id parsed of None \<Rightarrow> None | Some (admitted, w1) \<Rightarrow> ?rest rt admitted w1) = Some (res, w')"
    using assms unfolding agents_parallel_def by (auto simp: ok_or_Inr elim!: attemptE split: if_splits)
  then show ?thesis
  proof cases
    case go
    then obtain admitted w1 where adm: "?admit g parent_id parsed = Some (admitted, w1)"
      "?rest rt admitted w1 = Some (res, w')" by (cases "?admit g parent_id parsed") auto
    from adm(2) have "case admitted of Inl err \<Rightarrow> res = Inl err \<and> w' = w1
        | Inr specs \<Rightarrow> w' = snd (run_wave e rt specs w1) \<and>
            (case fst (run_wave e rt specs w1) of
               Inl err \<Rightarrow> res = Inl err | Inr digests \<Rightarrow> res = Inr (JArray digests))"
      by (auto simp: split_beta Let_def elim!: attemptE)
    moreover have "env_executor e = Some rt" "length tasks \<le> MAX_ACTORS_PER_CALL"
      using go(3,5) by (simp_all add: executor_of_def rust_simps)
    ultimately show ?thesis using go(1,2,4,6) adm(1) by blast
  qed simp
qed

lemma agents_parallel_steps:
  assumes call: "agents_parallel e args ctx w = Some (res, w')" and env: "session_env e (session_id ctx)"
    and fifo: "fifo_channel (env_channels e) queue cap" and inv: "registry_inv queue cap (roster w)"
  shows "steps (env_channels e) (session_id ctx) (roster w) (roster w')"
  using agents_parallel_admitted [OF call]
proof (elim disjE exE conjE)
  fix g tasks parsed rt parent_id admitted w1
  assume rt: "env_executor e = Some rt"
    and adm: "admit_wave e ctx parent_id g ''ParallelGroup'' parsed w = Some (admitted, w1)"
    and res: "case admitted of Inl err \<Rightarrow> res = Inl err \<and> w' = w1
      | Inr specs \<Rightarrow> w' = snd (run_wave e rt specs w1) \<and>
          (case fst (run_wave e rt specs w1) of
             Inl err \<Rightarrow> res = Inl err | Inr digests \<Rightarrow> res = Inr (JArray digests))"
  note wave = admit_wave_steps [OF adm fifo inv]
  show ?thesis
  proof (cases admitted)
    case (Inl err)
    with res wave show ?thesis by simp
  next
    case (Inr specs)
    with wave have "wave_specs e ctx parent_id g parsed specs"
      "\<forall>spec \<in> set specs. owned_token (session_id ctx) (spec_cancellation spec) (roster w1)" by simp_all
    with wave_specs_session [OF this(1)] run_wave_steps [OF env rt, of specs w1] Inr res
    have "steps (env_channels e) (session_id ctx) (roster w1) (roster w')" by simp
    with wave show ?thesis by (meson steps_trans)
  qed
qed simp_all

lemma agents_pipeline_started:
  assumes "agents_pipeline e args ctx w = Some (res, w')"
  shows "(\<exists>err. res = Inl err) \<and> w' = w \<or>
    (\<exists>g inputs stages rt parent_id.
       child_agent_grants ctx (json_get args ''opts'') = Inr g \<and>
       json_as_array (json_index args ''items'') = Some inputs \<and> length inputs \<le> MAX_ACTORS_PER_CALL \<and>
       parse_pipeline_stages args = Inr stages \<and> env_executor e = Some rt \<and>
       run_pipeline_stages e rt ctx parent_id g (enumerate 0 stages) inputs [] w = Some (res, w'))"
proof -
  consider (early) "\<exists>err. res = Inl err" "w' = w" | (go) g inputs stages rt parent_id where
      "child_agent_grants ctx (json_get args ''opts'') = Inr g"
      "json_as_array (json_index args ''items'') = Some inputs" "\<not> MAX_ACTORS_PER_CALL < length inputs"
      "parse_pipeline_stages args = Inr stages" "executor_of e ''agents.pipeline'' = Inr rt"
      "run_pipeline_stages e rt ctx parent_id g (enumerate 0 stages) inputs [] w = Some (res, w')"
    using assms unfolding agents_pipeline_def by (auto simp: ok_or_Inr elim!: attemptE split: if_splits)
  then show ?thesis
  proof cases
    case go
    then have "env_executor e = Some rt" "length inputs \<le> MAX_ACTORS_PER_CALL"
      by (simp_all add: executor_of_def rust_simps)
    with go show ?thesis by blast
  qed simp
qed

lemma agents_pipeline_steps:
  assumes call: "agents_pipeline e args ctx w = Some (res, w')" and env: "session_env e (session_id ctx)"
    and fifo: "fifo_channel (env_channels e) queue cap" and inv: "registry_inv queue cap (roster w)"
  shows "steps (env_channels e) (session_id ctx) (roster w) (roster w')"
  using agents_pipeline_started [OF call] pipeline_stages_steps [OF env _ fifo _ inv] by auto

lemma message_or_null_world:
  "message_or_null e waited = Some (res, w') \<Longrightarrow> \<exists>out. waited = Some (out, w')"
  by (auto simp: message_or_null_def elim!: attemptE split: option.splits)

lemma agents_send_steps:
  assumes call: "agents_send e args ctx w = Some (res, w')" and env: "session_env e (session_id ctx)"
  shows "steps (env_channels e) (session_id ctx) (roster w) (roster w')"
proof (cases "w' = w")
  case False
  let ?steps = "steps (env_channels e) (session_id ctx) (roster w)"
  obtain at r1 where u: "utc_now (roster w) = (at, r1)" by fastforce
  then have s1: "?steps r1" using steps_op(2) [OF steps_refl] by (metis snd_conv)
  from False call obtain to body sender reply sent r2 where
    body: "parse_plain_prose_text e args ''text'' = Inr body"
    and send: "send_message_for_session (env_channels e) (session_id ctx) \<lparr>msg_from = sender, msg_to = to,
      msg_text = body, msg_reply_to = reply, msg_sent_at = at\<rparr> r1 = (sent, r2)"
    and rest: "w' = w\<lparr>roster := r2\<rparr> \<or>
      (\<exists>rcpt m w1. w1 = w\<lparr>roster := maybe_emit_message (session_id ctx) m rcpt r2\<rparr> \<and>
      (w' = w1 \<or> (\<exists>out ms. wait_for_actor_message_or_cancel e (session_id ctx) sender (Some to) ms w1 = Some (out, w'))))"
    unfolding agents_send_def
    by (auto simp: u Let_def elim!: attemptE split: if_splits prod.splits dest!: message_or_null_world) blast+
  have "0 < message_bytes \<lparr>msg_from = sender, msg_to = to, msg_text = body, msg_reply_to = reply, msg_sent_at = at\<rparr>"
    using text_nonempty [OF body] by (intro message_bytes_pos) simp
  from steps_op(13) [OF s1 this] send have s2: "?steps r2" by simp
  have others: "others_steps e (session_id ctx)" using env by (simp add: session_env_def)
  from rest s2 show ?thesis
    by (auto simp: wait_for_actor_message_or_cancel_def step_intros
        dest!: wait_loop_steps [OF _ others] intro: steps_trans [OF steps_emit_message])
qed simp

lemma agents_wait_steps:
  assumes call: "agents_wait e args ctx w = Some (res, w')" and env: "session_env e (session_id ctx)"
  shows "steps (env_channels e) (session_id ctx) (roster w) (roster w')"
proof (cases "w' = w")
  case False
  with call obtain a sender ms out where
    "wait_for_actor_message_or_cancel e (session_id ctx) a sender ms w = Some (out, w')"
    unfolding agents_wait_def by (auto elim!: attemptE split: if_splits dest!: message_or_null_world)
  with env show ?thesis
    by (auto simp: wait_for_actor_message_or_cancel_def session_env_def dest: wait_loop_steps)
qed simp

lemma agents_inbox_steps:
  assumes call: "agents_inbox e args ctx w = Some (res, w')"
  shows "steps (env_channels e) (session_id ctx) (roster w) (roster w')"
proof (cases "w' = w")
  case False
  with call obtain a ms r where
    "drain_inbox_for_session (env_channels e) (session_id ctx) a None (roster w) = Some (ms, r)" "roster w' = r"
    unfolding agents_inbox_def by (auto elim!: attemptE split: if_splits)
  with registry_step.intros(22) [OF this(1)] show ?thesis by auto
qed simp

lemma agents_broadcast_steps:
  assumes call: "agents_broadcast e args ctx w = Some (res, w')"
  shows "steps (env_channels e) (session_id ctx) (roster w) (roster w')"
proof (cases "w' = w")
  case False
  with call obtain body sender targets where "parse_plain_prose_text e args ''text'' = Inr body"
    "broadcast_to e (session_id ctx) sender body targets [] w = Some (res, w')"
    unfolding agents_broadcast_def by (auto simp: Let_def elim!: attemptE split: if_splits)
  then show ?thesis using broadcast_steps text_nonempty by blast
qed simp

lemma agents_cancel_cases:
  assumes "agents_cancel e args ctx w = Some (res, w')"
  shows "w' = w \<or> (\<exists>target rec caller. get_for_session (session_id ctx) target (roster w) = Some rec \<and>
    caller_actor_id e ctx = Inr caller \<and>
    (case parent rec of Some p \<Rightarrow> p = caller | None \<Rightarrow> as_str caller = ''Root'') \<and>
    permits (grants ctx) ''agents.cancel'' \<and>
    w' = w\<lparr>roster := snd (cancel_actor (session_id ctx) target (roster w))\<rparr> \<and>
    res = Inr (cancel_json target (fst (cancel_actor (session_id ctx) target (roster w)))))"
proof (cases "w' = w")
  case False
  with assms obtain target rec caller where t: "get_for_session (session_id ctx) target (roster w) = Some rec"
    "caller_actor_id e ctx = Inr caller" "permits (grants ctx) ''agents.cancel''"
    "case parent rec of Some p \<Rightarrow> p = caller | None \<Rightarrow> as_str caller = ''Root''"
    "(let (result, r) = cancel_actor (session_id ctx) target (roster w)
      in Some (Inr (cancel_json target result), w\<lparr>roster := r\<rparr>)) = Some (res, w')"
    unfolding agents_cancel_def
    by (simp add: Let_def split: if_splits) (erule attemptE; auto split: option.splits if_splits elim!: attemptE)
  then show ?thesis by (auto simp: split_beta)
qed simp

lemma agents_cancel_steps:
  assumes "agents_cancel e args ctx w = Some (res, w')"
  shows "steps (env_channels e) (session_id ctx) (roster w) (roster w')"
  using agents_cancel_cases [OF assms] by (auto simp: step_intros)

lemma agents_call_steps:
  assumes "(name, call) \<in> set (agents_calls e)" "call args ctx w = Some (res, w')"
    and "session_env e (session_id ctx)" "fifo_channel (env_channels e) queue cap"
    and "registry_inv queue cap (roster w)"
  shows "steps (env_channels e) (session_id ctx) (roster w) (roster w')"
proof -
  have "w' = w" if "agents_list e args ctx w = Some (res, w')"
    using that by (auto simp: agents_list_def split: if_splits)
  with assms show ?thesis
    using agents_run_steps [of e args ctx w res w'] agents_spawn_steps [of e args ctx w res w']
      agents_parallel_steps [of e args ctx w res w'] agents_pipeline_steps [of e args ctx w res w']
      agents_send_steps [of e args ctx w res w'] agents_wait_steps [of e args ctx w res w']
      agents_inbox_steps [of e args ctx w res w'] agents_broadcast_steps [of e args ctx w res w']
      agents_cancel_steps [of e args ctx w res w']
    by (auto simp: agents_calls_def)
qed

end
