(* ===== verification/Orchestrate_Props.thy ===== *)
theory Orchestrate_Props
  imports Orchestrate_Steps
begin

text \<open>
  The properties of the \<open>agents.*\<close> calls: they refine the registry, are mediated by the caller's
  grants, admit children with bounded text and authority, answer waves in order, cancel only direct
  children, and stop waiting at the deadline.
\<close>

subsection \<open>A sample environment\<close>

text \<open>An executor that answers at once, no other task, and futures run one after the other.\<close>

fun run_in_order ::
    "('w \<Rightarrow> json host_result \<times> 'w) list \<Rightarrow> 'w \<Rightarrow> json host_result list \<times> 'w" where
  "run_in_order [] w = ([], w)"
| "run_in_order (f # fs) w =
     (let (x, w1) = f w; (xs, w2) = run_in_order fs w1 in (x # xs, w2))"

definition sample_executor :: "(actor_message list \<times> nat) agents_world actor_runtime" where
  "sample_executor =
     \<lparr>instant_now = (\<lambda>_. 0),
      timeout_at = (\<lambda>_ spec w. (Some (Inr \<lparr>digest_actor_id = spec_id spec, digest_summary = ''done'',
        digest_artifact_uri = None, digest_history_uri = None, digest_history_content = None\<rparr>), w)),
      cancel_token = (\<lambda>t w. w\<lparr>roster := token_cancel t (roster w)\<rparr>)\<rparr>"

definition sample_env :: "(actor_message list \<times> nat) agents_env" where
  "sample_env =
     \<lparr>env_unicode = \<lparr>uni_alphabetic = (\<lambda>_. False), uni_numeric = (\<lambda>_. False),
        uni_uppercase = (\<lambda>_. False), uni_to_upper = (\<lambda>_. [])\<rparr>,
      env_channels = list_channel, env_regex = last_byte_engine, env_json_from_str = (\<lambda>_. None),
      env_json_to_string = (\<lambda>_. Inr []), env_debug = (\<lambda>s. s), env_hash = (\<lambda>_ _. 0),
      env_rfc3339 = (\<lambda>_. []), env_executor = Some sample_executor, env_instant = (\<lambda>k. 10 * k),
      env_others = (\<lambda>_ w. w), env_buffered = (\<lambda>_. run_in_order)\<rparr>"

lemma run_in_order_reach:
  "reflp reach \<Longrightarrow> transp reach \<Longrightarrow> (\<And>w w'. safe w \<Longrightarrow> reach w w' \<Longrightarrow> safe w') \<Longrightarrow>
   (\<And>f w. f \<in> set fs \<Longrightarrow> safe w \<Longrightarrow> reach w (snd (f w))) \<Longrightarrow> safe w \<Longrightarrow> reach w (snd (run_in_order fs w))"
proof (induction fs arbitrary: w)
  case Nil
  then show ?case by (simp add: reflp_def)
next
  case (Cons f fs)
  have "reach w (snd (f w))" using Cons.prems by simp
  moreover have "reach (snd (f w)) (snd (run_in_order fs (snd (f w))))"
    by (rule Cons.IH [OF Cons.prems(1-3)]) (use Cons.prems calculation in auto)
  ultimately show ?case using Cons.prems(2) by (simp add: split_beta) (meson transpD)
qed

lemma sample_env_session: "session_env sample_env session"
proof -
  have "buffered_steps sample_env"
    unfolding buffered_steps_def
  proof (intro allI impI, elim conjE)
    fix n :: nat and fs :: "((actor_message list \<times> nat) agents_world \<Rightarrow>
        json host_result \<times> (actor_message list \<times> nat) agents_world) list" and w safe reach
    assume "reflp reach" "transp reach" "\<forall>w w'. safe w \<and> reach w w' \<longrightarrow> safe w'"
      "\<forall>f \<in> set fs. \<forall>w. safe w \<longrightarrow> reach w (snd (f w))" "safe w"
    then have "reach w (snd (run_in_order fs w))" by (intro run_in_order_reach [of reach safe]) auto
    then show "reach w (snd (env_buffered sample_env n fs w))" by (simp add: sample_env_def)
  qed
  then show ?thesis
    by (simp add: session_env_def executor_steps_def others_steps_def sample_env_def sample_executor_def)
qed

definition sample_world :: "(actor_message list \<times> nat) agents_world" where
  "sample_world = \<lparr>roster = sample_registry, threads = []\<rparr>"

subsection \<open>Refinement\<close>

text \<open>C3. Every \<open>agents.*\<close> call refines the registry: what it does to the registry is a sequence of
  registry operations of the calling session. So it keeps the registry's invariant, and it leaves
  every record, token, inbox and transcript of every other session as it was. Relied upon: the
  executor, concurrent tasks and \<open>buffered\<close> act on the registry through its operations, and the
  channels are FIFO.
\<close>

theorem agents_calls_refine_registry:
  assumes "(name, call) \<in> set (agents_calls e)" "call args ctx w = Some (res, w')"
    and "session_env e (session_id ctx)" "fifo_channel (env_channels e) queue cap"
    and "registry_inv queue cap (roster w)"
  shows "steps (env_channels e) (session_id ctx) (roster w) (roster w') \<and>
    registry_inv queue cap (roster w') \<and>
    (\<forall>other a. other \<noteq> session_id ctx \<longrightarrow>
       get_for_session other a (roster w') = get_for_session other a (roster w) \<and>
       inboxes (roster w') (other, a) = inboxes (roster w) (other, a) \<and>
       is_cancelled_for_session other a (roster w') = is_cancelled_for_session other a (roster w) \<and>
       get_transcript_for_session other a (roster w') = get_transcript_for_session other a (roster w))"
proof -
  have s: "steps (env_channels e) (session_id ctx) (roster w) (roster w')"
    by (rule agents_call_steps [OF assms])
  from session_frame_isolates [OF assms(5) steps_frame [OF s]] steps_keep_inv [OF s assms(4,5)] s
  show ?thesis by blast
qed

lemma sample_cancel:
  "agents_cancel sample_env (JObject [(''target'', JString ''B1'')])
     (sample_ctx \<lparr>allowed = {''agents.cancel''}\<rparr> (Some ''A0'')) sample_world =
   Some (Inr (cancel_json (ActorId ''B1'') CancelDone),
     sample_world\<lparr>roster := snd (cancel_actor ''s'' (ActorId ''B1'') sample_registry)\<rparr>)"
proof -
  have "actor_id_new (env_unicode sample_env) ''B1'' = Inr (ActorId ''B1'')"
    "actor_id_new (env_unicode sample_env) ''A0'' = Inr (ActorId ''A0'')"
    "grant_covers ''agents.cancel'' ''agents.cancel''" by code_simp+
  moreover have "fst (cancel_actor ''s'' (ActorId ''B1'') sample_registry) = CancelDone"
    using sample_registry_get(2)
    by (simp add: cancel_actor_def Let_def split_beta get_for_session_def frame_simps sample_record_def utc_now_def)
  ultimately show ?thesis using sample_registry_get(2)
    by (simp add: agents_cancel_def sample_ctx_def ctx_new_def ctx_with_approvals_def permits_def
        bind_result_def ok_or_def parse_actor_ref_def actor_id_arg_def caller_actor_id_def sample_world_def
        sample_record_def split_beta)
qed

theorem agents_calls_refine_registry_witness:
  "registry_inv fst snd (snd (cancel_actor ''s'' (ActorId ''B1'') sample_registry))"
proof -
  have "(''agents.cancel'', agents_cancel sample_env) \<in> set (agents_calls sample_env)"
    by (simp add: agents_calls_def)
  from agents_calls_refine_registry [OF this sample_cancel sample_env_session, of fst snd]
    fifo_list_channel sample_registry_inv
  show ?thesis by (simp add: sample_world_def sample_env_def)
qed

subsection \<open>Authority\<close>

text \<open>Every \<open>agents.*\<close> call is mediated by its own capability: without a grant for the name under
  which it is registered a call is refused with that name and changes nothing, and the ten names are
  distinct.
\<close>

lemma agents_calls_mediated:
  assumes "(name, call) \<in> set (agents_calls e)" "\<not> permits (grants ctx) name"
  shows "call args ctx w = Some (Inl (CapabilityDenied name), w) \<and> distinct (map fst (agents_calls e))"
  using assms
  by (auto simp: agents_calls_def agents_run_def agents_spawn_def agents_parallel_def agents_pipeline_def
      agents_send_def agents_broadcast_def agents_cancel_def agents_wait_def agents_inbox_def agents_list_def)

lemma agents_calls_mediated_example:
  "agents_spawn sample_env JNull (sample_ctx no_grants None) sample_world =
     Some (Inl (CapabilityDenied ''agents.spawn''), sample_world)"
proof -
  have "(''agents.spawn'', agents_spawn sample_env) \<in> set (agents_calls sample_env)"
    by (simp add: agents_calls_def)
  moreover have "\<not> permits (grants (sample_ctx no_grants None)) ''agents.spawn''"
    by (simp add: sample_ctx_def ctx_new_def ctx_with_approvals_def)
  ultimately show ?thesis using agents_calls_mediated by blast
qed

text \<open>C19. \<open>agents.cancel\<close> changes the registry only for a caller that holds the grant and is the direct
  parent of the target (the root for a target without a parent); then it cancels that actor and no
  other: every other record stays as it was, and the target is stopped or was already.
\<close>

theorem agents_cancel_authority:
  assumes "agents_cancel e args ctx w = Some (res, w')" "w' \<noteq> w"
  shows "\<exists>target rec caller. permits (grants ctx) ''agents.cancel'' \<and>
    caller_actor_id e ctx = Inr caller \<and> get_for_session (session_id ctx) target (roster w) = Some rec \<and>
    (parent rec = Some caller \<or> parent rec = None \<and> as_str caller = ''Root'') \<and>
    threads w' = threads w \<and>
    (\<forall>session a. (session, a) \<noteq> (session_id ctx, target) \<longrightarrow>
       get_for_session session a (roster w') = get_for_session session a (roster w)) \<and>
    (cancelled rec \<or> (\<exists>rec'. get_for_session (session_id ctx) target (roster w') = Some rec' \<and>
       status rec' = Terminated \<and> parent rec' = parent rec))"
proof -
  from agents_cancel_cases [OF assms(1)] assms(2) obtain target rec caller where
    t: "get_for_session (session_id ctx) target (roster w) = Some rec" "caller_actor_id e ctx = Inr caller"
      "case parent rec of Some p \<Rightarrow> p = caller | None \<Rightarrow> as_str caller = ''Root''"
      "permits (grants ctx) ''agents.cancel''"
    and w': "w' = w\<lparr>roster := snd (cancel_actor (session_id ctx) target (roster w))\<rparr>" by blast
  have "get_for_session session a (roster w') = get_for_session session a (roster w)"
    if "(session, a) \<noteq> (session_id ctx, target)" for session a
    using that by (auto simp: w' cancel_actor_def Let_def split_beta get_for_session_def frame_simps
        split: option.split)
  moreover have "cancelled rec \<or> (\<exists>rec'. get_for_session (session_id ctx) target (roster w') = Some rec' \<and>
      status rec' = Terminated \<and> parent rec' = parent rec)"
    using t(1) by (auto simp: w' cancel_actor_def Let_def split_beta get_for_session_def frame_simps)
  moreover have "parent rec = Some caller \<or> parent rec = None \<and> as_str caller = ''Root''"
    using t(3) by (simp split: option.splits)
  moreover have "threads w' = threads w" by (simp add: w')
  ultimately show ?thesis using t(1,2,4) by blast
qed

theorem agents_cancel_authority_witness:
  "\<exists>w'. agents_cancel sample_env (JObject [(''target'', JString ''B1'')])
      (sample_ctx \<lparr>allowed = {''agents.cancel''}\<rparr> (Some ''A0'')) sample_world =
      Some (Inr (cancel_json (ActorId ''B1'') CancelDone), w') \<and> w' \<noteq> sample_world \<and>
    threads w' = threads sample_world"
proof -
  let ?w' = "sample_world\<lparr>roster := snd (cancel_actor ''s'' (ActorId ''B1'') sample_registry)\<rparr>"
  have "cancelled (the (get_for_session ''s'' (ActorId ''B1'') (roster ?w')))"
    using sample_registry_get(2)
    by (simp add: cancel_actor_def Let_def split_beta get_for_session_def frame_simps sample_record_def utc_now_def)
  then have "?w' \<noteq> sample_world"
    using sample_registry_get(2) by (auto simp: sample_world_def sample_record_def)
  with agents_cancel_authority [OF sample_cancel] sample_cancel show ?thesis by blast
qed

subsection \<open>Admission of a child\<close>

lemma text_limits_ok:
  "length (spec_role spec) \<le> MAX_ACTOR_ROLE_BYTES \<Longrightarrow> length (spec_task spec) \<le> MAX_ACTOR_TASK_BYTES \<Longrightarrow>
   spec_mode spec = None \<Longrightarrow> validate_text_limits spec = Inr ()"
  by (simp add: validate_text_limits_def validate_text_bytes_def)

lemma next_actor_id_frame [frame_simps]:
  "actors (snd (next_actor_id u role r)) = actors r"
  by (simp add: next_actor_id_def Let_def)

lemma configure_frame [frame_simps]:
  "actors (snd (configure_supervision_from_opts e session p opts r)) = actors r"
  by (auto simp: configure_supervision_from_opts_def set_supervision_policy_for_session_def Let_def
      split: option.split sum.split)

lemma announce_frame:
  assumes "announce_actor ctx a p g role task b at r = (spec, r')"
  shows "actors r' = actors r \<and> spec_id spec = a \<and>
    (\<exists>sid. restart_templates r' (session_id ctx, a) = Some (from_spec spec sid)) \<and>
    cancel_tokens r' (session_id ctx, a) = Some (spec_cancellation spec)"
  using assms
  by (auto simp: announce_actor_def Let_def split_beta cancel_token_for_session_def frame_simps
      remember_restart_spec_def new_actor_spec_def ensure_cancel_token_def token_new_def split: option.splits)

lemma track_one_record:
  "map_of (actors (track_one ops session (rec, sid) r)) (session, rec_id rec) = Some rec"
  by (auto simp: track_one_def Let_def frame_simps put_actor_def update_conv' split: option.split)

lemma track_single:
  assumes "track_with_supervisor_for_session ops session rec sid r = (res, r')"
  shows "(\<exists>err. res = Inl err) \<and> actors r' = actors r \<or>
    res = Inr () \<and> map_of (actors r') (session, rec_id rec) = Some rec"
proof (cases "validate_modes [(rec, sid)]")
  case (Inl err)
  with assms have "(Inl err, r) = (res, r')"
    by (simp add: track_with_supervisor_for_session_def track_batch_for_session_def del: validate_modes.simps)
  then show ?thesis by blast
next
  case (Inr unit)
  with assms show ?thesis
    by (auto simp: track_with_supervisor_for_session_def track_batch_for_session_def track_one_record
        simp del: validate_modes.simps split: if_splits)
qed

lemma admit_actor_roster:
  assumes adm: "admit_actor e ctx role task g configure w = Some (res, w')"
    and conf: "\<And>p r. actors (snd (configure p r)) = actors r"
  shows "case res of
      Inl err \<Rightarrow> actors (roster w') = actors (roster w)
    | Inr spec \<Rightarrow>
        (\<exists>at. get_for_session (session_id ctx) (spec_id spec) (roster w') =
           Some (new_actor_record (spec_id spec) (spec_parent spec) role default_actor_budget at)) \<and>
        (\<exists>sid. restart_templates (roster w') (session_id ctx, spec_id spec) = Some (from_spec spec sid)) \<and>
        cancel_tokens (roster w') (session_id ctx, spec_id spec) = Some (spec_cancellation spec)"
proof -
  obtain named r1 where n: "next_actor_id (env_unicode e) role (roster w) = (named, r1)" by fastforce
  have f1: "actors r1 = actors (roster w)" using next_actor_id_frame [of "env_unicode e" role "roster w"] n by simp
  from adm obtain a where a: "named = Some a" by (auto simp: admit_actor_def n split: option.splits)
  show ?thesis
  proof (cases "caller_parent_id e ctx")
    case (Inl err)
    with adm f1 show ?thesis by (auto simp: admit_actor_def n a)
  next
    case p: (Inr p)
    obtain configured r2 where c: "configure p r1 = (configured, r2)" by fastforce
    obtain at r3 where u: "utc_now r2 = (at, r3)" by fastforce
    have f3: "actors r2 = actors (roster w)" "actors r3 = actors (roster w)"
      using conf [of p r1] c f1 utc_now_frame(1) [of r2] u by simp_all
    show ?thesis
    proof (cases configured)
      case (Inl err)
      with adm f3 p show ?thesis by (auto simp: admit_actor_def n a c)
    next
      case conf: (Inr sid)
      let ?rec = "new_actor_record a p role default_actor_budget at"
      obtain tracked r4 where t: "(case sid of
          Some s \<Rightarrow> track_with_supervisor_for_session (env_channels e) (session_id ctx) ?rec s r3
        | None \<Rightarrow> track_for_session (env_channels e) (session_id ctx) ?rec r3) = (tracked, r4)" by fastforce
      then obtain s where
        "track_with_supervisor_for_session (env_channels e) (session_id ctx) ?rec s r3 = (tracked, r4)"
        by (auto simp: track_for_session_def split: option.splits)
      note tr = track_single [OF this]
      show ?thesis
      proof (cases tracked)
        case (Inl err)
        with adm conf p tr f3 show ?thesis
          by (auto simp: admit_actor_def n a c u t registry_result_def)
      next
        case (Inr unit)
        obtain spec r5 where an:
          "announce_actor ctx a p g role task default_actor_budget at r4 = (spec, r5)" by fastforce
        have "res = Inr spec" "w' = w\<lparr>roster := r5\<rparr>"
          using adm Inr conf p by (auto simp: admit_actor_def n a c u t an registry_result_def)
        moreover have "map_of (actors r4) (session_id ctx, a) = Some ?rec"
          using tr Inr by (auto simp: new_actor_record_def)
        moreover have "spec_parent spec = p" using an by (auto simp: announce_actor_def Let_def split_beta new_actor_spec_def)
        ultimately show ?thesis using announce_frame [OF an] by (auto simp: get_for_session_def)
      qed
    qed
  qed
qed

text \<open>C36. \<open>agents.spawn\<close> either fails and leaves the roster and the threads as they were, or starts exactly
  one child: its role and task pass the executor's limits, it runs for the caller's session under the
  caller, its authority is what \<open>child_agent_grants\<close> delegated, its record is on the roster as running
  and not cancelled, with the token the child polls, and it can be restarted from a template of the
  same spec.
\<close>

theorem agents_spawn_admits:
  assumes "agents_spawn e args ctx w = Some (res, w')"
    and "fifo_channel (env_channels e) queue cap" "registry_inv queue cap (roster w)"
  shows "case res of
      Inl err \<Rightarrow> actors (roster w') = actors (roster w) \<and> threads w' = threads w
    | Inr v \<Rightarrow> \<exists>spec rec sid. threads w' = threads w @ [spec] \<and>
        v = JObject [(''id'', JString (as_str (spec_id spec)))] \<and>
        validate_text_limits spec = Inr () \<and> spec_session_id spec = session_id ctx \<and>
        caller_parent_id e ctx = Inr (spec_parent spec) \<and>
        child_agent_grants ctx (json_get args ''opts'') = Inr (spec_grants spec) \<and>
        get_for_session (session_id ctx) (spec_id spec) (roster w') = Some rec \<and>
        status rec = Running \<and> \<not> cancelled rec \<and> parent rec = spec_parent spec \<and>
        cancel_tokens (roster w') (session_id ctx, spec_id spec) = Some (spec_cancellation spec) \<and>
        restart_templates (roster w') (session_id ctx, spec_id spec) = Some (from_spec spec sid)"
proof -
  from agents_spawn_admitted [OF assms(1)] show ?thesis
  proof (elim disjE exE conjE)
    fix err assume "res = Inl err" "w' = w"
    then show ?thesis by simp
  next
    fix role task g admitted w1
    let ?conf = "\<lambda>parent_id. configure_supervision_from_opts e (session_id ctx) parent_id (json_get args ''opts'')"
    assume role: "parse_actor_role (json_index args ''role'') ''role'' = Inr role"
      and task: "parse_actor_task (json_index args ''task'') ''task'' = Inr task"
      and g: "child_agent_grants ctx (json_get args ''opts'') = Inr g"
      and adm: "admit_actor e ctx role task g ?conf w = Some (admitted, w1)"
      and res: "case admitted of Inl err \<Rightarrow> res = Inl err \<and> w' = w1
        | Inr spec \<Rightarrow> res = Inr (JObject [(''id'', JString (as_str (spec_id spec)))]) \<and>
            w' = w1\<lparr>threads := threads w1 @ [spec]\<rparr>"
    note roster = admit_actor_roster [OF adm configure_frame]
    have steps: "threads w1 = threads w" "\<And>spec. admitted = Inr spec \<Longrightarrow> \<exists>p. caller_parent_id e ctx = Inr p \<and>
        admitted_spec e ctx p g role task spec"
      using admit_actor_steps [OF adm _ assms(2,3)] by (auto simp: step_intros)
    show ?thesis
    proof (cases admitted)
      case (Inl err)
      with res roster steps show ?thesis by simp
    next
      case (Inr spec)
      from steps(2) [OF Inr] have spec: "caller_parent_id e ctx = Inr (spec_parent spec)"
        "spec_session_id spec = session_id ctx" "spec_grants spec = g" "spec_role spec = role"
        "spec_task spec = task" "spec_mode spec = None" by (auto simp: admitted_spec_def)
      have "validate_text_limits spec = Inr ()"
        using parse_actor_role_bound [OF role] parse_actor_task_bound [OF task] spec
        by (intro text_limits_ok) simp_all
      with Inr res roster steps(1) g spec show ?thesis by (auto simp: new_actor_record_def get_for_session_def)
    qed
  qed
qed

definition empty_world :: "(actor_message list \<times> nat) agents_world" where
  "empty_world = \<lparr>roster = registry_new (\<lambda>_. 7), threads = []\<rparr>"

lemma sample_next_id:
  assumes "next_seq r = 0"
  shows "next_actor_id (env_unicode sample_env) ''worker'' r = (Some (ActorId ''Worker0''), r\<lparr>next_seq := 1\<rparr>)"
proof -
  have "actor_id_new (env_unicode sample_env) (str_of_chars (take 31 (str_chars
      (str_of_chars (to_uppercase (env_unicode sample_env) 119) @ str_of_chars (take 15 [111, 114, 107, 101, 114])))) @ ''0'')
    = Inr (ActorId ''Worker0'')"
    "show_nat 0 = ''0''"
    "filter (is_alphabetic (env_unicode sample_env)) (str_chars ''worker'') = [119, 111, 114, 107, 101, 114]"
    by code_simp+
  with assms show ?thesis by (simp add: next_actor_id_def Let_def)
qed

lemma sample_texts:
  "parse_actor_role (JString ''worker'') field = Inr ''worker''"
  "parse_actor_task (JString ''sort'') field = Inr ''sort''"
proof -
  have "str_trim ''worker'' \<noteq> []" "str_trim ''sort'' \<noteq> []"
    by (simp_all add: str_trim_def str_chars_ascii is_whitespace_def str_of_chars_ascii)
  then show "parse_actor_role (JString ''worker'') field = Inr ''worker''"
    "parse_actor_task (JString ''sort'') field = Inr ''sort''"
    by (simp_all add: parse_actor_role_def parse_actor_task_def parse_actor_text_def bind_result_def ok_or_def
        validate_bounded_text_def)
qed

lemma sample_spawn:
  "\<exists>w'. agents_spawn sample_env
      (JObject [(''role'', JString ''worker''), (''task'', JString ''sort'')])
      (sample_ctx \<lparr>allowed = {''agents.spawn''}\<rparr> None) empty_world =
   Some (Inr (JObject [(''id'', JString ''Worker0'')]), w')"
proof -
  have "grant_covers ''agents.spawn'' ''agents.spawn''" by code_simp
  moreover have "executor_of sample_env ''agents.spawn'' = Inr sample_executor"
    by (simp add: executor_of_def sample_env_def ok_or_def)
  moreover have "\<exists>spec w'. admit_actor sample_env (sample_ctx \<lparr>allowed = {''agents.spawn''}\<rparr> None) ''worker'' ''sort''
      no_grants (\<lambda>parent_id. configure_supervision_from_opts sample_env ''s'' parent_id None) empty_world =
      Some (Inr spec, w') \<and> spec_id spec = ActorId ''Worker0''"
  proof -
    let ?r = "(roster empty_world)\<lparr>next_seq := 1\<rparr>"
    let ?rec = "new_actor_record (ActorId ''Worker0'') None ''worker'' default_actor_budget (fst (utc_now ?r))"
    obtain r4 where t: "track_for_session (env_channels sample_env) ''s'' ?rec (snd (utc_now ?r)) = (Inr (), r4)"
      by (simp add: track_for_session_def track_with_supervisor_for_session_def track_batch_for_session_def
          new_actor_record_def validate_text_bytes_def live_count_def new_live_count_def usize_sat_add_def
          frame_simps empty_world_def registry_new_def)
    obtain spec r5 where a: "announce_actor (sample_ctx \<lparr>allowed = {''agents.spawn''}\<rparr> None) (ActorId ''Worker0'') None
        no_grants ''worker'' ''sort'' default_actor_budget (fst (utc_now ?r)) r4 = (spec, r5)" by fastforce
    show ?thesis using announce_frame [OF a] t a
      by (simp add: admit_actor_def sample_next_id empty_world_def registry_new_def caller_parent_id_def configure_supervision_from_opts_def
          registry_result_def split_beta sample_ctx_def ctx_new_def ctx_with_approvals_def)
  qed
  ultimately show ?thesis
    by (auto simp: agents_spawn_def sample_ctx_def ctx_new_def ctx_with_approvals_def permits_def json_index_def
        child_agent_grants_def sample_texts)
qed

theorem agents_spawn_admits_witness:
  "\<exists>spec w'. agents_spawn sample_env
      (JObject [(''role'', JString ''worker''), (''task'', JString ''sort'')])
      (sample_ctx \<lparr>allowed = {''agents.spawn''}\<rparr> None) empty_world =
      Some (Inr (JObject [(''id'', JString ''Worker0'')]), w') \<and>
    threads w' = [spec] \<and> validate_text_limits spec = Inr () \<and> spec_id spec = ActorId ''Worker0''"
proof -
  obtain w' where w': "agents_spawn sample_env
      (JObject [(''role'', JString ''worker''), (''task'', JString ''sort'')])
      (sample_ctx \<lparr>allowed = {''agents.spawn''}\<rparr> None) empty_world =
      Some (Inr (JObject [(''id'', JString ''Worker0'')]), w')" using sample_spawn by blast
  have "fifo_channel (env_channels sample_env) fst snd" by (simp add: sample_env_def fifo_list_channel)
  moreover have "registry_inv fst snd (roster empty_world)" by (simp add: empty_world_def registry_inv_new)
  ultimately obtain spec where "threads w' = threads empty_world @ [spec]" "validate_text_limits spec = Inr ()"
    "as_str (spec_id spec) = ''Worker0''" using agents_spawn_admits [OF w', of fst snd] by auto
  then have "threads w' = [spec]" "spec_id spec = ActorId ''Worker0''" "validate_text_limits spec = Inr ()"
    by (simp_all add: empty_world_def actor_id.expand)
  with w' show ?thesis by blast
qed

subsection \<open>Waves answer in order\<close>

text \<open>\<open>buffered\<close> answers one result per future, in the order of the futures.\<close>

definition buffered_results :: "'ch agents_env \<Rightarrow> bool" where
  "buffered_results e \<longleftrightarrow> (\<forall>n fs w. length (fst (env_buffered e n fs w)) = length fs \<and>
     (\<forall>i < length fs. \<exists>w'. fst (env_buffered e n fs w) ! i = fst ((fs ! i) w')))"

lemma run_wave_digests:
  assumes "buffered_results e" "fst (run_wave e rt specs w) = Inr digests"
  shows "length digests = length specs \<and>
    (\<forall>i < length specs. \<exists>d. digests ! i = digest_json (spec_id (specs ! i)) d)"
proof -
  define fs where "fs = map (\<lambda>spec w.
      let cancel_on_drop = guard_new [spec_cancellation spec];
          (result, w') = await_actor e rt
            (\<lambda>error. ''actor '' @ as_str (spec_id spec) @ '' failed: '' @ error) spec w
      in (result, w'\<lparr>roster := guard_drop (guard_disarm cancel_on_drop) (roster w')\<rparr>)) specs"
  have "collect_results (fst (env_buffered e 4 fs w)) = Inr digests"
    using assms(2) by (simp add: run_wave_def Let_def split_beta fs_def)
  then have d: "fst (env_buffered e 4 fs w) = map Inr digests" by (simp add: collect_results_Inr)
  have law: "length (fst (env_buffered e 4 fs w)) = length fs"
    "\<forall>i < length fs. \<exists>w'. fst (env_buffered e 4 fs w) ! i = fst ((fs ! i) w')"
    using assms(1) unfolding buffered_results_def by blast+
  from law(1) d have len: "length digests = length specs" by (simp add: fs_def)
  have "\<exists>x. digests ! i = digest_json (spec_id (specs ! i)) x" if i: "i < length specs" for i
  proof -
    from law(2) i obtain w' where "fst (env_buffered e 4 fs w) ! i = fst ((fs ! i) w')" by (auto simp: fs_def)
    with d i len have "Inr (digests ! i) = fst ((fs ! i) w')" by simp
    with i show ?thesis
      by (auto simp: fs_def await_actor_def Let_def split_beta split: prod.splits sum.splits)
  qed
  with len show ?thesis by blast
qed

lemma parse_parallel_task_text:
  assumes "parse_parallel_task i item = Inr t"
  shows "json_as_str (json_index item ''role'') = Some (task_role t) \<and>
    json_as_str (json_index item ''task'') = Some (task_text t) \<and>
    length (task_role t) \<le> MAX_ACTOR_ROLE_BYTES \<and> length (task_text t) \<le> MAX_ACTOR_TASK_BYTES"
  using assms by (auto simp: parse_parallel_task_def parse_actor_role_def parse_actor_task_def
      parse_actor_text_def rust_simps Let_def split: if_splits)


lemma run_in_order_results:
  "length (fst (run_in_order fs w)) = length fs \<and>
   (\<forall>i < length fs. \<exists>w'. fst (run_in_order fs w) ! i = fst ((fs ! i) w'))"
proof (induction fs arbitrary: w)
  case (Cons f fs)
  from Cons [of "snd (f w)"] show ?case by (auto simp: split_beta less_Suc_eq_0_disj)
qed simp

lemma sample_env_results: "buffered_results sample_env"
  by (simp add: buffered_results_def sample_env_def run_in_order_results)

lemma sample_wave:
  "\<exists>spec w1. admit_wave sample_env (sample_ctx \<lparr>allowed = {''agents.parallel''}\<rparr> None) None no_grants
      ''ParallelGroup'' [\<lparr>task_role = ''worker'', task_text = ''sort'', task_budget = default_actor_budget\<rparr>]
      empty_world = Some (Inr [spec], w1) \<and> validate_text_limits spec = Inr () \<and>
      spec_budget spec = default_actor_budget"
proof -
  let ?t = "\<lparr>task_role = ''worker'', task_text = ''sort'', task_budget = default_actor_budget\<rparr>"
  let ?ctx = "sample_ctx \<lparr>allowed = {''agents.parallel''}\<rparr> None"
  obtain sid r1 where s: "next_supervisor_id (env_unicode sample_env) ''ParallelGroup'' (roster empty_world) =
      (Some sid, r1)" "next_seq r1 = 0" "actors r1 = []"
  proof -
    have "fst (next_supervisor_id (env_unicode sample_env) ''ParallelGroup'' (roster empty_world)) =
        Some (ActorId ''ParallelGroup0'')"
      unfolding next_supervisor_id_def Let_def fst_conv empty_world_def registry_new_def by code_simp
    moreover have "next_seq (snd (next_supervisor_id u l (roster empty_world))) = 0"
      "actors (snd (next_supervisor_id u l (roster empty_world))) = []" for u l
      by (simp_all add: next_supervisor_id_def Let_def empty_world_def registry_new_def)
    ultimately show thesis using that by (metis prod.collapse)
  qed
  let ?r2 = "set_supervision_policy_for_session ''s'' sid \<lparr>strategy = OneForAll, max_restarts = 0\<rparr> r1"
  have r2: "next_seq ?r2 = 0" "actors ?r2 = []"
    using s by (simp_all add: set_supervision_policy_for_session_def Let_def)
  obtain at r3 where u: "utc_now (?r2\<lparr>next_seq := 1\<rparr>) = (at, r3)" by fastforce
  then have r3: "actors r3 = []" using r2 utc_now_frame(1) [of "?r2\<lparr>next_seq := 1\<rparr>"] by simp
  have plan: "plan_wave sample_env [?t] ?r2 = (Some [(ActorId ''Worker0'', ?t, at)], r3)"
    using r2 u by (simp add: sample_next_id)
  obtain r4 where t: "track_batch_for_session (env_channels sample_env) ''s''
      [(new_actor_record (ActorId ''Worker0'') None ''worker'' default_actor_budget at, sid)] r3 = (Inr (), r4)"
    using r3 by (simp add: track_batch_for_session_def new_actor_record_def validate_text_bytes_def live_count_def
        new_live_count_def usize_sat_add_def)
  obtain spec r5 where a: "announce_actor ?ctx (ActorId ''Worker0'') None no_grants ''worker'' ''sort''
      default_actor_budget at r4 = (spec, r5)" by fastforce
  then have "spec_role spec = ''worker''" "spec_task spec = ''sort''" "spec_mode spec = None"
    "spec_budget spec = default_actor_budget"
    by (auto simp: announce_actor_def Let_def split_beta new_actor_spec_def)
  then have "validate_text_limits spec = Inr ()" "spec_budget spec = default_actor_budget"
    by (simp_all add: text_limits_ok)
  moreover have "session_id ?ctx = ''s''" by (simp add: sample_ctx_def)
  ultimately show ?thesis using s(1) plan t a
    by (simp add: admit_wave_def Let_def registry_result_def)
qed

lemma sample_parallel:
  "\<exists>d w'. agents_parallel sample_env
      (JObject [(''tasks'', JArray [JObject [(''role'', JString ''worker''), (''task'', JString ''sort'')]])])
      (sample_ctx \<lparr>allowed = {''agents.parallel''}\<rparr> None) empty_world = Some (Inr (JArray [d]), w')"
proof -
  let ?ctx = "sample_ctx \<lparr>allowed = {''agents.parallel''}\<rparr> None"
  obtain spec w1 where w: "admit_wave sample_env ?ctx None no_grants ''ParallelGroup''
      [\<lparr>task_role = ''worker'', task_text = ''sort'', task_budget = default_actor_budget\<rparr>] empty_world =
      Some (Inr [spec], w1)" "validate_text_limits spec = Inr ()" "spec_budget spec = default_actor_budget"
    using sample_wave by blast
  have buffered: "env_buffered sample_env n = run_in_order" for n by (simp add: sample_env_def)
  obtain d where "fst (await_actor sample_env sample_executor
      (\<lambda>error. ''actor '' @ as_str (spec_id spec) @ '' failed: '' @ error) spec w1) = Inr d"
    using w(2,3) by (simp add: await_actor_def run_actor_to_digest_def run_to_digest_with_budget_def
        sample_executor_def Let_def default_actor_budget_def)
  then have "fst (run_wave sample_env sample_executor [spec] w1) = Inr [d]"
    by (simp add: run_wave_def buffered Let_def split_beta bind_result_def)
  then obtain w2 where run: "run_wave sample_env sample_executor [spec] w1 = (Inr [d], w2)"
    by (metis prod.collapse)
  have "grant_covers ''agents.parallel'' ''agents.parallel''" by code_simp
  moreover have "executor_of sample_env ''agents.parallel'' = Inr sample_executor"
    by (simp add: executor_of_def sample_env_def ok_or_def)
  moreover have "validate_aggregate_text_bytes [''worker'', ''sort''] field = Inr ()" for field
    by (simp add: validate_aggregate_text_bytes_def usize_checked_add_def)
  moreover have "permits (grants ?ctx) ''agents.parallel''" "caller_parent_id sample_env ?ctx = Inr None"
    using calculation(1)
    by (simp_all add: sample_ctx_def ctx_new_def ctx_with_approvals_def permits_def caller_parent_id_def)
  moreover have "parse_parallel_task 0 (JObject [(''role'', JString ''worker''), (''task'', JString ''sort'')]) =
      Inr \<lparr>task_role = ''worker'', task_text = ''sort'', task_budget = default_actor_budget\<rparr>"
    by (simp add: parse_parallel_task_def json_index_def sample_texts bind_result_def parse_parallel_budget_def Let_def)
  ultimately show ?thesis using w(1) run
    by (simp add: agents_parallel_def json_index_def child_agent_grants_def ok_or_def bind_result_def)
qed


subsection \<open>Waiting ends\<close>

lemma wait_for_message_returns:
  assumes "fifo_channel ops queue cap" "registry_inv queue cap r" "0 < timeout"
  shows "\<exists>m r'. wait_for_message_for_session ops session a sender timeout now r = Some (m, r') \<and>
    registry_inv queue cap r' \<and> (\<forall>x. m = Some x \<longrightarrow> message_matches_from sender x)"
proof -
  obtain i r1 where ens: "ensure_inbox ops session a r = (i, r1)" by fastforce
  note i = ensure_inbox_inv [OF assms(1,2) ens]
  have "\<exists>m i'. wait ops sender timeout now i = Some (m, i') \<and> (\<forall>x. m = Some x \<longrightarrow> message_matches_from sender x)"
  proof (cases "dropWhile (\<lambda>m. \<not> message_matches_from sender m) (contents queue i)")
    case Nil
    with wait_result [OF assms(1) i(1) assms(3), of sender now] show ?thesis by auto
  next
    case (Cons m rest)
    with wait_result [OF assms(1) i(1) assms(3), of sender now] show ?thesis by auto
  qed
  then obtain m i' where w: "wait ops sender timeout now i = Some (m, i')"
    "\<forall>x. m = Some x \<longrightarrow> message_matches_from sender x" by blast
  have eq: "wait_for_message_for_session ops session a sender timeout now r =
      Some (m, put_inbox session a i' r1)" using w(1) by (simp add: wait_for_message_for_session_def ens)
  with w(2) registry_inv_wait [OF assms(1,2) eq] show ?thesis by simp
qed

lemma wait_loop_returns:
  assumes fifo: "fifo_channel (env_channels e) queue cap" and others: "others_steps e session"
    and clock: "mono (env_instant e)" "deadline \<le> env_instant e n"
  shows "registry_inv queue cap (roster w) \<Longrightarrow> \<exists>res w'.
    wait_loop e session a sender deadline k w = Some (res, w') \<and> registry_inv queue cap (roster w') \<and>
    (case res of
       Inl err \<Rightarrow> is_cancelled_for_session session a (roster w')
     | Inr None \<Rightarrow> \<exists>k'. deadline \<le> env_instant e k'
     | Inr (Some m) \<Rightarrow> message_matches_from sender m)"
proof (induction "n - k" arbitrary: k w rule: less_induct)
  case less
  show ?case
  proof (cases "is_cancelled_for_session session a (roster w) \<or> deadline \<le> env_instant e k")
    case True
    then show ?thesis using less.prems by (auto simp: wait_loop.simps)
  next
    case False
    then have k: "k < n" using clock by (meson monoD not_le order_trans)
    let ?w1 = "env_others e k w"
    have "registry_inv queue cap (roster ?w1)"
      using others by (intro steps_keep_inv [OF _ fifo less.prems, of session]) (simp add: others_steps_def)
    moreover have "0 < min (deadline - env_instant e k) 50" using False by simp
    ultimately obtain m r where w: "wait_for_message_for_session (env_channels e) session a sender
        (min (deadline - env_instant e k) 50) (env_instant e (k + 1)) (roster ?w1) = Some (m, r)"
      "registry_inv queue cap r" "\<forall>x. m = Some x \<longrightarrow> message_matches_from sender x"
      using wait_for_message_returns [OF fifo] by meson
    have unfold: "wait_loop e session a sender deadline k w = (case m of
        Some x \<Rightarrow> Some (Inr (Some x), ?w1\<lparr>roster := r\<rparr>)
      | None \<Rightarrow> wait_loop e session a sender deadline (k + 2) (?w1\<lparr>roster := r\<rparr>))"
      using False w(1) by (subst wait_loop.simps) (simp add: Let_def)
    show ?thesis
    proof (cases m)
      case None
      with less.hyps [of "k + 2" "?w1\<lparr>roster := r\<rparr>"] k w(2) unfold show ?thesis by simp
    next
      case (Some x)
      with w(2,3) unfold show ?thesis by simp
    qed
  qed
qed



end
