(* ===== verification/Egress_State.thy ===== *)
theory Egress_State
  imports Capability
begin

text \<open>
  The durable state behind outgoing HTTP requests: \<open>tm-egress/src/error.rs\<close>, \<open>budget.rs\<close> (the
  budget book: reserve before a request is sent, settle after it) and \<open>state.rs\<close> (usage and
  limits, the effect records of mutating requests, and the in-memory store that holds both).

  \<^item> \<open>reserve\<close>, \<open>settle\<close> and \<open>clear_session\<close> return the new book; the book is returned changed also
    where the code changes it before it reports an error.
  \<^item> \<open>accounts\<close> states what a usage record means: each counter is the sum, over the reservations of
    the session, of what they hold or have spent. \<open>book_step\<close> is one call on the book under a fixed
    policy, and \<open>book_inv\<close> its invariant.
\<close>

subsection \<open>Errors\<close>

datatype egress_error =
    EgDisabled
  | EgInvalidConfig string
  | EgInvalidRequest string
  | EgDenied string
  | EgRevoked string
  | EgBudget string
  | EgTimeout
  | EgDns
  | EgTransport
  | EgNonUtf8
  | EgInvalidSecretHandle
  | EgSecretUnavailable
  | EgAudit
  | EgDurability string

type_synonym 'a egress_result = "egress_error + 'a"

fun egress_code :: "egress_error \<Rightarrow> string" where
  "egress_code EgDisabled = ''disabled''"
| "egress_code (EgInvalidConfig _) = ''invalid_config''"
| "egress_code (EgInvalidRequest _) = ''invalid_request''"
| "egress_code (EgDenied _) = ''denied''"
| "egress_code (EgRevoked _) = ''revoked''"
| "egress_code (EgBudget _) = ''budget_exceeded''"
| "egress_code EgTimeout = ''timeout''"
| "egress_code EgDns = ''dns_failed''"
| "egress_code EgTransport = ''transport_failed''"
| "egress_code EgNonUtf8 = ''non_utf8_response''"
| "egress_code EgInvalidSecretHandle = ''invalid_secret_handle''"
| "egress_code EgSecretUnavailable = ''secret_unavailable''"
| "egress_code EgAudit = ''audit_failed''"
| "egress_code (EgDurability _) = ''durability_failed''"

fun egress_to_string :: "egress_error \<Rightarrow> string" where
  "egress_to_string EgDisabled = ''egress is disabled''"
| "egress_to_string (EgInvalidConfig m) = ''invalid egress configuration: '' @ m"
| "egress_to_string (EgInvalidRequest m) = ''invalid egress request: '' @ m"
| "egress_to_string (EgDenied m) = ''egress policy denied: '' @ m"
| "egress_to_string (EgRevoked m) = ''egress target is revoked: '' @ m"
| "egress_to_string (EgBudget m) = ''egress budget exceeded: '' @ m"
| "egress_to_string EgTimeout = ''egress request timed out''"
| "egress_to_string EgDns = ''egress DNS resolution failed''"
| "egress_to_string EgTransport = ''egress transport failed''"
| "egress_to_string EgNonUtf8 = ''egress response was not UTF-8 text''"
| "egress_to_string EgInvalidSecretHandle =
     ''secret handle is invalid for this session or destination''"
| "egress_to_string EgSecretUnavailable = ''configured secret is unavailable''"
| "egress_to_string EgAudit = ''egress audit persistence failed''"
| "egress_to_string (EgDurability m) = ''egress durable state failed: '' @ m"

fun into_host :: "egress_error \<Rightarrow> host_error" where
  "into_host (EgInvalidConfig m) = InvalidArgs m"
| "into_host (EgInvalidRequest m) = InvalidArgs m"
| "into_host (EgBudget m) = QuotaExceeded m"
| "into_host EgTimeout = Timeout ''http request''"
| "into_host EgAudit = HostCall ''egress audit persistence failed''"
| "into_host (EgDurability _) = HostCall ''egress durable state failed''"
| "into_host EgTransport = HostCall (egress_to_string EgTransport)"
| "into_host EgDns = HostCall (egress_to_string EgDns)"
| "into_host EgNonUtf8 = HostCall (egress_to_string EgNonUtf8)"
| "into_host e = CapabilityDenied (egress_to_string e)"

subsection \<open>Usage and limits\<close>

record egress_usage_limits =
  el_max_requests :: u64
  el_max_request_bytes :: u64
  el_max_response_bytes :: u64
  el_max_time_ms :: u64

record egress_usage =
  eu_requests :: u64
  eu_request_bytes :: u64
  eu_response_bytes :: u64
  eu_response_reserved :: u64
  eu_time_ms :: u64
  eu_time_reserved_ms :: u64

definition egress_usage_default :: egress_usage where
  "egress_usage_default =
     \<lparr>eu_requests = 0, eu_request_bytes = 0, eu_response_bytes = 0, eu_response_reserved = 0,
      eu_time_ms = 0, eu_time_reserved_ms = 0\<rparr>"

definition validate_reservation ::
    "egress_usage \<Rightarrow> egress_usage_limits \<Rightarrow> u64 \<Rightarrow> u64 \<Rightarrow> u64 \<Rightarrow> unit egress_result" where
  "validate_reservation u limits rb rr tr =
     (if el_max_requests limits \<le> eu_requests u then Inl (EgBudget ''session request cap'')
      else if el_max_request_bytes limits < sat_add (eu_request_bytes u) rb
      then Inl (EgBudget ''session request-byte cap'')
      else if el_max_response_bytes limits
              < sat_add (sat_add (eu_response_bytes u) (eu_response_reserved u)) rr
      then Inl (EgBudget ''session response-byte cap'')
      else if el_max_time_ms limits < sat_add (sat_add (eu_time_ms u) (eu_time_reserved_ms u)) tr
      then Inl (EgBudget ''session time cap'')
      else Inr ())"

record egress_budget_request =
  eq_reservation_id :: string
  eq_session_id :: string
  eq_destination_id :: string
  eq_request_bytes :: u64
  eq_response_reserved :: u64
  eq_time_reserved_ms :: u64
  eq_session_limits :: egress_usage_limits
  eq_destination_limits :: egress_usage_limits

record egress_budget_reservation =
  ev_reservation_id :: string
  ev_session_id :: string
  ev_destination_id :: string
  ev_response_reserved :: u64
  ev_time_reserved_ms :: u64

record reservation_record =
  rr_reservation :: egress_budget_reservation
  rr_request_bytes :: u64
  rr_settled :: bool
  rr_response_bytes :: u64
  rr_elapsed_ms :: u64

record session_usage =
  su_total :: egress_usage
  su_destinations :: "string \<rightharpoonup> egress_usage"
  su_reservations :: "(string \<times> reservation_record) list"

definition session_usage_default :: session_usage where
  "session_usage_default =
     \<lparr>su_total = egress_usage_default, su_destinations = Map.empty, su_reservations = []\<rparr>"

record budget_book =
  bb_sessions :: "string \<rightharpoonup> session_usage"

definition budget_book_default :: budget_book where
  "budget_book_default = \<lparr>bb_sessions = Map.empty\<rparr>"

subsection \<open>The budget book\<close>

definition reserve_usage :: "egress_usage \<Rightarrow> u64 \<Rightarrow> u64 \<Rightarrow> u64 \<Rightarrow> egress_usage" where
  "reserve_usage u rb rr tr =
     u\<lparr>eu_requests := sat_add (eu_requests u) 1,
       eu_request_bytes := sat_add (eu_request_bytes u) rb,
       eu_response_reserved := sat_add (eu_response_reserved u) rr,
       eu_time_reserved_ms := sat_add (eu_time_reserved_ms u) tr\<rparr>"

definition settle_usage :: "egress_usage \<Rightarrow> u64 \<Rightarrow> u64 \<Rightarrow> u64 \<Rightarrow> u64 \<Rightarrow> egress_usage" where
  "settle_usage u rr tr response_bytes elapsed_ms =
     u\<lparr>eu_response_reserved := sat_sub (eu_response_reserved u) rr,
       eu_time_reserved_ms := sat_sub (eu_time_reserved_ms u) tr,
       eu_response_bytes := sat_add (eu_response_bytes u) response_bytes,
       eu_time_ms := sat_add (eu_time_ms u) (min elapsed_ms tr)\<rparr>"

text \<open>\<open>entry(k).or_default()\<close> on the two hash maps.\<close>

definition usage_or_default :: "(string \<rightharpoonup> egress_usage) \<Rightarrow> string \<Rightarrow> egress_usage" where
  "usage_or_default m k = (case m k of None \<Rightarrow> egress_usage_default | Some u \<Rightarrow> u)"

definition session_or_default :: "budget_book \<Rightarrow> string \<Rightarrow> session_usage" where
  "session_or_default b sid =
     (case bb_sessions b sid of None \<Rightarrow> session_usage_default | Some u \<Rightarrow> u)"

definition put_session :: "budget_book \<Rightarrow> string \<Rightarrow> session_usage \<Rightarrow> budget_book" where
  "put_session b sid u = b\<lparr>bb_sessions := (bb_sessions b)(sid \<mapsto> u)\<rparr>"

definition reservation_of :: "egress_budget_request \<Rightarrow> egress_budget_reservation" where
  "reservation_of q =
     \<lparr>ev_reservation_id = eq_reservation_id q, ev_session_id = eq_session_id q,
      ev_destination_id = eq_destination_id q, ev_response_reserved = eq_response_reserved q,
      ev_time_reserved_ms = eq_time_reserved_ms q\<rparr>"

definition reserved_session :: "session_usage \<Rightarrow> egress_budget_request \<Rightarrow> session_usage" where
  "reserved_session u q =
     \<lparr>su_total = reserve_usage (su_total u) (eq_request_bytes q) (eq_response_reserved q)
                   (eq_time_reserved_ms q),
      su_destinations = (su_destinations u)(eq_destination_id q \<mapsto>
        reserve_usage (usage_or_default (su_destinations u) (eq_destination_id q))
          (eq_request_bytes q) (eq_response_reserved q) (eq_time_reserved_ms q)),
      su_reservations = AList.update (eq_reservation_id q)
        \<lparr>rr_reservation = reservation_of q, rr_request_bytes = eq_request_bytes q,
         rr_settled = False, rr_response_bytes = 0, rr_elapsed_ms = 0\<rparr> (su_reservations u)\<rparr>"

definition reserve ::
    "budget_book \<Rightarrow> egress_budget_request \<Rightarrow> egress_budget_reservation egress_result \<times> budget_book" where
  "reserve b q =
     (let sid = eq_session_id q;
          usage = session_or_default b sid;
          b0 = put_session b sid usage
      in case map_of (su_reservations usage) (eq_reservation_id q) of
           Some existing \<Rightarrow>
             (if ev_session_id (rr_reservation existing) = eq_session_id q
                 \<and> ev_destination_id (rr_reservation existing) = eq_destination_id q
                 \<and> ev_response_reserved (rr_reservation existing) = eq_response_reserved q
                 \<and> ev_time_reserved_ms (rr_reservation existing) = eq_time_reserved_ms q
                 \<and> rr_request_bytes existing = eq_request_bytes q
              then (Inr (rr_reservation existing), b0)
              else (Inl (EgDurability ''egress budget reservation id collision''), b0))
         | None \<Rightarrow>
             (case validate_reservation (su_total usage) (eq_session_limits q)
                     (eq_request_bytes q) (eq_response_reserved q) (eq_time_reserved_ms q) of
                Inl e \<Rightarrow> (Inl e, b0)
              | Inr _ \<Rightarrow>
                  (case validate_reservation
                          (usage_or_default (su_destinations usage) (eq_destination_id q))
                          (eq_destination_limits q)
                          (eq_request_bytes q) (eq_response_reserved q) (eq_time_reserved_ms q) of
                     Inl e \<Rightarrow> (Inl e, b0)
                   | Inr _ \<Rightarrow> (Inr (reservation_of q), put_session b sid (reserved_session usage q)))))"

definition settled_record :: "reservation_record \<Rightarrow> u64 \<Rightarrow> u64 \<Rightarrow> reservation_record" where
  "settled_record r response_bytes elapsed_ms =
     r\<lparr>rr_settled := True, rr_response_bytes := response_bytes, rr_elapsed_ms := elapsed_ms\<rparr>"

definition settle ::
    "budget_book \<Rightarrow> egress_budget_reservation \<Rightarrow> u64 \<Rightarrow> u64 \<Rightarrow> unit egress_result \<times> budget_book" where
  "settle b v response_bytes elapsed_ms =
     (let sid = ev_session_id v; rid = ev_reservation_id v; did = ev_destination_id v
      in case bb_sessions b sid of
           None \<Rightarrow> (Inl (EgDurability ''egress budget session reservation is missing''), b)
         | Some s \<Rightarrow>
             (case map_of (su_reservations s) rid of
                None \<Rightarrow> (Inl (EgDurability ''egress budget reservation is missing''), b)
              | Some r \<Rightarrow>
                  if rr_reservation r \<noteq> v
                  then (Inl (EgDurability ''egress budget settlement collision''), b)
                  else if rr_settled r
                  then (if rr_response_bytes r = response_bytes \<and> rr_elapsed_ms r = elapsed_ms
                        then (Inr (), b)
                        else (Inl (EgDurability
                                ''egress budget reservation already settled differently''), b))
                  else
                    let settled = (\<lambda>u. settle_usage u (ev_response_reserved v)
                                     (ev_time_reserved_ms v) response_bytes elapsed_ms);
                        s' = s\<lparr>su_total := settled (su_total s)\<rparr>
                    in case su_destinations s did of
                         None \<Rightarrow> (Inl (EgDurability ''egress destination usage is missing''),
                                   put_session b sid s')
                       | Some d \<Rightarrow>
                           (Inr (), put_session b sid
                              (s'\<lparr>su_destinations := (su_destinations s)(did \<mapsto> settled d),
                                  su_reservations := AList.update rid
                                    (settled_record r response_bytes elapsed_ms)
                                    (su_reservations s)\<rparr>))))"

definition budget_clear_session :: "budget_book \<Rightarrow> string \<Rightarrow> budget_book" where
  "budget_clear_session b sid = b\<lparr>bb_sessions := (bb_sessions b)(sid := None)\<rparr>"

subsection \<open>Effect records of mutating requests\<close>

record egress_mutation_intent =
  mi_effect_id :: string
  mi_session_id :: string
  mi_effect_scope_id :: string
  mi_session_digest :: string
  mi_actor_digest :: string
  mi_destination_id :: string
  mi_destination_version :: u64
  mi_target_digest :: string
  mi_request_digest :: string
  mi_request_bytes :: nat

definition same_effect_identity :: "egress_mutation_intent \<Rightarrow> egress_mutation_intent \<Rightarrow> bool" where
  "same_effect_identity a b \<longleftrightarrow> a = b"

datatype egress_mutation_status = MStarted | MSucceeded | MFailed | MUncertain

definition is_terminal :: "egress_mutation_status \<Rightarrow> bool" where
  "is_terminal s \<longleftrightarrow> s \<noteq> MStarted"

record egress_mutation_record =
  mr_intent :: egress_mutation_intent
  mr_status :: egress_mutation_status
  mr_result_digest :: "string option"
  mr_result_bytes :: "nat option"
  mr_error_code :: "string option"
  mr_error_digest :: "string option"

definition mutation_started :: "egress_mutation_intent \<Rightarrow> egress_mutation_record" where
  "mutation_started intent =
     \<lparr>mr_intent = intent, mr_status = MStarted, mr_result_digest = None, mr_result_bytes = None,
      mr_error_code = None, mr_error_digest = None\<rparr>"

record egress_mutation_claim =
  mc_record :: egress_mutation_record
  mc_created :: bool

record egress_store =
  vs_effects :: "(string \<times> egress_mutation_record) list"
  vs_budgets :: budget_book

definition egress_store_default :: egress_store where
  "egress_store_default = \<lparr>vs_effects = [], vs_budgets = budget_book_default\<rparr>"

definition store_begin_mutation ::
    "egress_store \<Rightarrow> egress_mutation_intent \<Rightarrow> egress_mutation_claim egress_result \<times> egress_store" where
  "store_begin_mutation st intent =
     (case map_of (vs_effects st) (mi_effect_id intent) of
        Some existing \<Rightarrow>
          (if \<not> same_effect_identity (mr_intent existing) intent
           then (Inl (EgDurability ''egress mutation effect id collision''), st)
           else (Inr \<lparr>mc_record = existing, mc_created = False\<rparr>, st))
      | None \<Rightarrow>
          let record = mutation_started intent
          in (Inr \<lparr>mc_record = record, mc_created = True\<rparr>,
              st\<lparr>vs_effects := bt_insert (mi_effect_id (mr_intent record)) record (vs_effects st)\<rparr>))"

definition store_finish_mutation ::
    "egress_store \<Rightarrow> string \<Rightarrow> egress_mutation_status \<Rightarrow> string option \<Rightarrow> nat option \<Rightarrow> string option
     \<Rightarrow> string option \<Rightarrow> egress_mutation_record egress_result \<times> egress_store" where
  "store_finish_mutation st effect_id status result_digest result_bytes error_code error_digest =
     (if \<not> is_terminal status
      then (Inl (EgDurability ''egress mutation terminal status required''), st)
      else case map_of (vs_effects st) effect_id of
             None \<Rightarrow> (Inl (EgDurability ''egress mutation effect was not persisted''), st)
           | Some record \<Rightarrow>
               let requested =
                     \<lparr>mr_intent = mr_intent record, mr_status = status,
                      mr_result_digest = result_digest, mr_result_bytes = result_bytes,
                      mr_error_code = error_code, mr_error_digest = error_digest\<rparr>
               in if is_terminal (mr_status record)
                  then (if record = requested then (Inr record, st)
                        else (Inl (EgDurability
                                ''egress mutation already has a different terminal state''), st))
                  else (Inr requested,
                        st\<lparr>vs_effects := bt_insert effect_id requested (vs_effects st)\<rparr>))"

definition store_reserve_budget ::
    "egress_store \<Rightarrow> egress_budget_request \<Rightarrow> egress_budget_reservation egress_result \<times> egress_store" where
  "store_reserve_budget st q =
     (let r = reserve (vs_budgets st) q in (fst r, st\<lparr>vs_budgets := snd r\<rparr>))"

definition store_settle_budget ::
    "egress_store \<Rightarrow> egress_budget_reservation \<Rightarrow> u64 \<Rightarrow> u64 \<Rightarrow> unit egress_result \<times> egress_store" where
  "store_settle_budget st v response_bytes elapsed_ms =
     (let r = settle (vs_budgets st) v response_bytes elapsed_ms
      in (fst r, st\<lparr>vs_budgets := snd r\<rparr>))"

definition store_clear_session :: "egress_store \<Rightarrow> string \<Rightarrow> egress_store" where
  "store_clear_session st sid = st\<lparr>vs_budgets := budget_clear_session (vs_budgets st) sid\<rparr>"

subsection \<open>What the counters mean\<close>

definition held :: "(reservation_record \<Rightarrow> u64) \<Rightarrow> reservation_record list \<Rightarrow> nat" where
  "held f rs = sum_list (map (\<lambda>r. unat (f r)) (filter (\<lambda>r. \<not> rr_settled r) rs))"

definition spent :: "(reservation_record \<Rightarrow> u64) \<Rightarrow> reservation_record list \<Rightarrow> nat" where
  "spent f rs = sum_list (map (\<lambda>r. unat (f r)) (filter rr_settled rs))"

definition charged_ms :: "reservation_record \<Rightarrow> u64" where
  "charged_ms r = min (rr_elapsed_ms r) (ev_time_reserved_ms (rr_reservation r))"

definition accounts :: "egress_usage \<Rightarrow> reservation_record list \<Rightarrow> bool" where
  "accounts u rs \<longleftrightarrow>
     unat (eu_requests u) = length rs
     \<and> unat (eu_request_bytes u) = sum_list (map (\<lambda>r. unat (rr_request_bytes r)) rs)
     \<and> unat (eu_response_reserved u) = held (\<lambda>r. ev_response_reserved (rr_reservation r)) rs
     \<and> unat (eu_time_reserved_ms u) = held (\<lambda>r. ev_time_reserved_ms (rr_reservation r)) rs
     \<and> unat (eu_response_bytes u) = spent rr_response_bytes rs
     \<and> unat (eu_time_ms u) = spent charged_ms rs"

definition within_limits :: "egress_usage \<Rightarrow> egress_usage_limits \<Rightarrow> bool" where
  "within_limits u limits \<longleftrightarrow>
     unat (eu_requests u) \<le> unat (el_max_requests limits)
     \<and> unat (eu_request_bytes u) \<le> unat (el_max_request_bytes limits)
     \<and> unat (eu_response_bytes u) + unat (eu_response_reserved u) \<le> unat (el_max_response_bytes limits)
     \<and> unat (eu_time_ms u) + unat (eu_time_reserved_ms u) \<le> unat (el_max_time_ms limits)"

text \<open>Saturation is unobservable as long as no limit is the largest 64-bit number.\<close>

definition limits_finite :: "egress_usage_limits \<Rightarrow> bool" where
  "limits_finite limits \<longleftrightarrow>
     el_max_request_bytes limits \<noteq> - 1 \<and> el_max_response_bytes limits \<noteq> - 1
     \<and> el_max_time_ms limits \<noteq> - 1"

definition session_ledger :: "session_usage \<Rightarrow> reservation_record list" where
  "session_ledger s = map snd (su_reservations s)"

definition destination_ledger :: "session_usage \<Rightarrow> string \<Rightarrow> reservation_record list" where
  "destination_ledger s d =
     filter (\<lambda>r. ev_destination_id (rr_reservation r) = d) (session_ledger s)"

definition session_inv ::
    "egress_usage_limits \<Rightarrow> (string \<Rightarrow> egress_usage_limits) \<Rightarrow> string \<Rightarrow> session_usage \<Rightarrow> bool" where
  "session_inv SL DL sid s \<longleftrightarrow>
     al_wf (su_reservations s)
     \<and> (\<forall>(k, r) \<in> set (su_reservations s).
          ev_reservation_id (rr_reservation r) = k \<and> ev_session_id (rr_reservation r) = sid
          \<and> su_destinations s (ev_destination_id (rr_reservation r)) \<noteq> None)
     \<and> accounts (su_total s) (session_ledger s) \<and> within_limits (su_total s) SL
     \<and> (\<forall>d. accounts (usage_or_default (su_destinations s) d) (destination_ledger s d)
            \<and> within_limits (usage_or_default (su_destinations s) d) (DL d))"

definition book_inv ::
    "egress_usage_limits \<Rightarrow> (string \<Rightarrow> egress_usage_limits) \<Rightarrow> budget_book \<Rightarrow> bool" where
  "book_inv SL DL b \<longleftrightarrow> (\<forall>sid s. bb_sessions b sid = Some s \<longrightarrow> session_inv SL DL sid s)"

text \<open>
  One call on the book while the policy stays the same: the limits of a request are those of the
  policy, and no response is larger than what was reserved for it (the transport stops reading at
  the destination's cap, which is the amount reserved).
\<close>

inductive book_step ::
    "egress_usage_limits \<Rightarrow> (string \<Rightarrow> egress_usage_limits) \<Rightarrow> budget_book \<Rightarrow> budget_book \<Rightarrow> bool"
  for SL DL where
  book_reserve: "eq_session_limits q = SL \<Longrightarrow> eq_destination_limits q = DL (eq_destination_id q)
    \<Longrightarrow> limits_finite SL \<Longrightarrow> limits_finite (DL (eq_destination_id q))
    \<Longrightarrow> book_step SL DL b (snd (reserve b q))"
| book_settle: "response_bytes \<le> ev_response_reserved v
    \<Longrightarrow> book_step SL DL b (snd (settle b v response_bytes elapsed_ms))"
| book_clear: "book_step SL DL b (budget_clear_session b sid)"

subsection \<open>The accounting is exact\<close>

lemma held_simps [simp]:
  "held f [] = 0"
  "held f (r # rs) = (if rr_settled r then 0 else unat (f r)) + held f rs"
  "held f (xs @ ys) = held f xs + held f ys"
  by (simp_all add: held_def)

lemma spent_simps [simp]:
  "spent f [] = 0"
  "spent f (r # rs) = (if rr_settled r then unat (f r) else 0) + spent f rs"
  "spent f (xs @ ys) = spent f xs + spent f ys"
  by (simp_all add: spent_def)

lemma not_max_word: "(x :: u64) \<noteq> - 1 \<Longrightarrow> unat x < 2 ^ 64 - 1"
proof -
  assume "x \<noteq> - 1"
  then have "unat x \<noteq> unat (- 1 :: u64)" by (simp add: word_unat_eq_iff [symmetric])
  then show ?thesis using unat_bound [of x] by (simp add: unsigned_minus_1_eq_mask mask_eq_exp_minus_1)
qed

lemma sat_add_exact:
  fixes a b c :: u64
  assumes "\<not> c < sat_add a b" and "c \<noteq> - 1"
  shows "unat (sat_add a b) = unat a + unat b" and "unat a + unat b \<le> unat c"
  using assms not_max_word [of c]
  by (auto simp: word_less_nat_alt rust_simps min_def split: if_splits)

lemma sat_add3_exact:
  fixes a b d c :: u64
  assumes "\<not> c < sat_add (sat_add a b) d" and "c \<noteq> - 1"
  shows "unat a + unat b + unat d \<le> unat c"
  using assms not_max_word [of c] by (auto simp: word_less_nat_alt rust_simps min_def split: if_splits)

lemma sat_add_small: "unat (a :: u64) + unat b \<le> unat (c :: u64) \<Longrightarrow> unat (sat_add a b) = unat a + unat b"
  using unat_bound [of c] by (simp add: rust_simps)

definition unsettled_record :: "egress_budget_request \<Rightarrow> reservation_record" where
  "unsettled_record q =
     \<lparr>rr_reservation = reservation_of q, rr_request_bytes = eq_request_bytes q,
      rr_settled = False, rr_response_bytes = 0, rr_elapsed_ms = 0\<rparr>"

lemma unsettled_record_simps [simp]:
  "rr_reservation (unsettled_record q) = reservation_of q"
  "rr_request_bytes (unsettled_record q) = eq_request_bytes q"
  "\<not> rr_settled (unsettled_record q)"
  by (simp_all add: unsettled_record_def)

lemma settled_record_simps [simp]:
  "rr_reservation (settled_record r n t) = rr_reservation r"
  "rr_request_bytes (settled_record r n t) = rr_request_bytes r"
  "rr_settled (settled_record r n t)"
  "rr_response_bytes (settled_record r n t) = n"
  "charged_ms (settled_record r n t) = min t (ev_time_reserved_ms (rr_reservation r))"
  by (simp_all add: settled_record_def charged_ms_def)

lemma reservation_of_simps [simp]:
  "ev_reservation_id (reservation_of q) = eq_reservation_id q"
  "ev_session_id (reservation_of q) = eq_session_id q"
  "ev_destination_id (reservation_of q) = eq_destination_id q"
  "ev_response_reserved (reservation_of q) = eq_response_reserved q"
  "ev_time_reserved_ms (reservation_of q) = eq_time_reserved_ms q"
  by (simp_all add: reservation_of_def)

lemma validate_reservation_Inr:
  "validate_reservation u limits rb rr tr = Inr x \<longleftrightarrow>
     eu_requests u < el_max_requests limits
     \<and> \<not> el_max_request_bytes limits < sat_add (eu_request_bytes u) rb
     \<and> \<not> el_max_response_bytes limits < sat_add (sat_add (eu_response_bytes u) (eu_response_reserved u)) rr
     \<and> \<not> el_max_time_ms limits < sat_add (sat_add (eu_time_ms u) (eu_time_reserved_ms u)) tr"
  by (auto simp: validate_reservation_def)

lemma reserve_usage_exact:
  assumes v: "validate_reservation u limits rb rr tr = Inr x" and fin: "limits_finite limits"
  defines "u' \<equiv> reserve_usage u rb rr tr"
  shows "unat (eu_requests u') = unat (eu_requests u) + 1"
    and "unat (eu_request_bytes u') = unat (eu_request_bytes u) + unat rb"
    and "unat (eu_response_reserved u') = unat (eu_response_reserved u) + unat rr"
    and "unat (eu_time_reserved_ms u') = unat (eu_time_reserved_ms u) + unat tr"
    and "eu_response_bytes u' = eu_response_bytes u" and "eu_time_ms u' = eu_time_ms u"
    and "within_limits u' limits"
proof -
  from v have lt: "unat (eu_requests u) < unat (el_max_requests limits)"
    by (simp add: validate_reservation_Inr word_less_nat_alt)
  show n: "unat (eu_requests u') = unat (eu_requests u) + 1"
    using lt unat_bound [of "el_max_requests limits"] by (simp add: u'_def reserve_usage_def rust_simps)
  from v fin have rb: "unat (sat_add (eu_request_bytes u) rb) = unat (eu_request_bytes u) + unat rb"
      "unat (eu_request_bytes u) + unat rb \<le> unat (el_max_request_bytes limits)"
    using sat_add_exact by (auto simp: validate_reservation_Inr limits_finite_def)
  from v fin have rr: "unat (eu_response_bytes u) + unat (eu_response_reserved u) + unat rr
      \<le> unat (el_max_response_bytes limits)"
    using sat_add3_exact by (auto simp: validate_reservation_Inr limits_finite_def)
  from v fin have tr: "unat (eu_time_ms u) + unat (eu_time_reserved_ms u) + unat tr
      \<le> unat (el_max_time_ms limits)"
    using sat_add3_exact by (auto simp: validate_reservation_Inr limits_finite_def)
  show "unat (eu_request_bytes u') = unat (eu_request_bytes u) + unat rb"
    using rb by (simp add: u'_def reserve_usage_def)
  moreover show rr': "unat (eu_response_reserved u') = unat (eu_response_reserved u) + unat rr"
    using rr by (simp add: u'_def reserve_usage_def sat_add_small [of _ _ "el_max_response_bytes limits"])
  moreover show tr': "unat (eu_time_reserved_ms u') = unat (eu_time_reserved_ms u) + unat tr"
    using tr by (simp add: u'_def reserve_usage_def sat_add_small [of _ _ "el_max_time_ms limits"])
  moreover show "eu_response_bytes u' = eu_response_bytes u" "eu_time_ms u' = eu_time_ms u"
    by (simp_all add: u'_def reserve_usage_def)
  ultimately show "within_limits u' limits"
    using n lt rb rr tr by (simp add: within_limits_def)
qed

lemma accounts_reserve:
  assumes "accounts u rs"
    and "validate_reservation u limits (eq_request_bytes q) (eq_response_reserved q) (eq_time_reserved_ms q) = Inr x"
    and "limits_finite limits"
  shows "accounts (reserve_usage u (eq_request_bytes q) (eq_response_reserved q) (eq_time_reserved_ms q))
           (rs @ [unsettled_record q])"
  using assms reserve_usage_exact [OF assms(2,3)] by (simp add: accounts_def)

lemma accounts_settle:
  fixes n t :: u64
  assumes acc: "accounts u (xs @ r # ys)" and win: "within_limits u limits" and un: "\<not> rr_settled r"
    and n: "n \<le> ev_response_reserved (rr_reservation r)"
  defines "u' \<equiv> settle_usage u (ev_response_reserved (rr_reservation r))
             (ev_time_reserved_ms (rr_reservation r)) n t"
  shows "accounts u' (xs @ settled_record r n t # ys)" and "within_limits u' limits"
proof -
  let ?R = "ev_response_reserved (rr_reservation r)" and ?T = "ev_time_reserved_ms (rr_reservation r)"
  from n have n': "unat n \<le> unat ?R" by (simp add: word_le_nat_alt)
  have t': "unat (min t ?T) \<le> unat ?T" by (simp add: min_def word_le_nat_alt)
  from acc un have R: "unat ?R \<le> unat (eu_response_reserved u)" and T: "unat ?T \<le> unat (eu_time_reserved_ms u)"
    by (simp_all add: accounts_def)
  from n' R win have a: "unat (sat_add (eu_response_bytes u) n) = unat (eu_response_bytes u) + unat n"
    by (intro sat_add_small [of _ _ "el_max_response_bytes limits"]) (simp add: within_limits_def)
  from t' T win have b: "unat (sat_add (eu_time_ms u) (min t ?T)) = unat (eu_time_ms u) + unat (min t ?T)"
    by (intro sat_add_small [of _ _ "el_max_time_ms limits"]) (simp add: within_limits_def)
  show "accounts u' (xs @ settled_record r n t # ys)"
    using acc un a b by (simp add: accounts_def u'_def settle_usage_def rust_simps)
  show "within_limits u' limits"
    using win a b n' t' R T
    unfolding within_limits_def u'_def settle_usage_def by (simp add: unat_sat_sub) linarith
qed

lemma accounts_default [simp]: "accounts egress_usage_default []"
  by (simp add: accounts_def egress_usage_default_def)

lemma within_limits_default [simp]: "within_limits egress_usage_default limits"
  by (simp add: within_limits_def egress_usage_default_def)

lemma usage_or_default_simps [simp]:
  "usage_or_default Map.empty d = egress_usage_default"
  "usage_or_default (m(k \<mapsto> u)) d = (if d = k then u else usage_or_default m d)"
  "m d = Some u \<Longrightarrow> usage_or_default m d = u"
  by (simp_all add: usage_or_default_def)

lemma session_inv_default: "session_inv SL DL sid session_usage_default"
  by (simp add: session_inv_def session_usage_default_def session_ledger_def destination_ledger_def)

lemma session_inv_reserved:
  assumes inv: "session_inv SL DL (eq_session_id q) s"
    and fresh: "map_of (su_reservations s) (eq_reservation_id q) = None"
    and lim: "limits_finite SL" "limits_finite (DL (eq_destination_id q))"
    and total_ok: "validate_reservation (su_total s) SL (eq_request_bytes q) (eq_response_reserved q)
               (eq_time_reserved_ms q) = Inr x"
    and destination_ok: "validate_reservation (usage_or_default (su_destinations s) (eq_destination_id q))
               (DL (eq_destination_id q)) (eq_request_bytes q) (eq_response_reserved q)
               (eq_time_reserved_ms q) = Inr y"
  shows "session_inv SL DL (eq_session_id q) (reserved_session s q)"
proof -
  have res: "su_reservations (reserved_session s q) = su_reservations s @ [(eq_reservation_id q, unsettled_record q)]"
    using update_fresh [OF fresh] by (simp add: reserved_session_def unsettled_record_def)
  from fresh have "eq_reservation_id q \<notin> fst ` set (su_reservations s)"
    by (simp add: map_of_eq_None_iff)
  with inv show ?thesis
    using accounts_reserve [OF _ total_ok lim(1)] reserve_usage_exact(7) [OF total_ok lim(1)]
      accounts_reserve [OF _ destination_ok lim(2)] reserve_usage_exact(7) [OF destination_ok lim(2)]
    unfolding session_inv_def session_ledger_def destination_ledger_def res
    by (auto simp: reserved_session_def)
qed

lemma session_inv_settled:
  fixes n t :: u64
  assumes inv: "session_inv SL DL (ev_session_id v) s"
    and r: "map_of (su_reservations s) (ev_reservation_id v) = Some r" "rr_reservation r = v" "\<not> rr_settled r"
    and d: "su_destinations s (ev_destination_id v) = Some u"
    and n: "n \<le> ev_response_reserved v"
  defines "st \<equiv> \<lambda>w. settle_usage w (ev_response_reserved v) (ev_time_reserved_ms v) n t"
  shows "session_inv SL DL (ev_session_id v)
    (s\<lparr>su_total := st (su_total s),
       su_destinations := (su_destinations s)(ev_destination_id v \<mapsto> st u),
       su_reservations := AList.update (ev_reservation_id v) (settled_record r n t) (su_reservations s)\<rparr>)"
proof -
  obtain xs ys where xy: "su_reservations s = xs @ (ev_reservation_id v, r) # ys"
      "AList.update (ev_reservation_id v) (settled_record r n t) (su_reservations s)
         = xs @ (ev_reservation_id v, settled_record r n t) # ys"
    using update_present [OF r(1)] by blast
  let ?f = "\<lambda>d. filter (\<lambda>r. ev_destination_id (rr_reservation r) = d)"
  have tot: "accounts (st (su_total s)) (map snd xs @ settled_record r n t # map snd ys)"
      "within_limits (st (su_total s)) SL"
    using inv xy(1) r(2,3) n accounts_settle [of "su_total s" "map snd xs" r "map snd ys" SL n t]
    by (simp_all add: session_inv_def session_ledger_def st_def)
  have "accounts u (?f (ev_destination_id v) (map snd xs) @ r # ?f (ev_destination_id v) (map snd ys))"
      "within_limits u (DL (ev_destination_id v))"
    using inv xy(1) r(2) d unfolding session_inv_def destination_ledger_def session_ledger_def
    by (auto dest: spec [of _ "ev_destination_id v"])
  then have dst: "accounts (st u) (?f (ev_destination_id v) (map snd xs) @ settled_record r n t
        # ?f (ev_destination_id v) (map snd ys))"
      "within_limits (st u) (DL (ev_destination_id v))"
    using accounts_settle [where u = u and r = r and n = n and t = t] r(2,3) n by (auto simp: st_def)
  have own: "\<forall>(k, r) \<in> set (xs @ ys). ev_reservation_id (rr_reservation r) = k
        \<and> ev_session_id (rr_reservation r) = ev_session_id v
        \<and> su_destinations s (ev_destination_id (rr_reservation r)) \<noteq> None"
      and wf: "al_wf (xs @ (ev_reservation_id v, settled_record r n t) # ys)"
    using inv xy(1) unfolding session_inv_def by auto
  have other: "accounts (usage_or_default (su_destinations s) d) (?f d (map snd xs @ settled_record r n t # map snd ys))
        \<and> within_limits (usage_or_default (su_destinations s) d) (DL d)" if "d \<noteq> ev_destination_id v" for d
    using inv xy(1) r(2) that
    unfolding session_inv_def session_ledger_def destination_ledger_def by (auto dest: spec [of _ d])
  show ?thesis
    unfolding session_inv_def session_ledger_def destination_ledger_def
    using own wf tot dst other r(2) by (auto simp: xy(2) split: prod.splits)
qed

lemma book_inv_put: "book_inv SL DL b \<Longrightarrow> session_inv SL DL sid s \<Longrightarrow> book_inv SL DL (put_session b sid s)"
  by (simp add: book_inv_def put_session_def)

lemma book_inv_session: "book_inv SL DL b \<Longrightarrow> session_inv SL DL sid (session_or_default b sid)"
  by (auto simp: book_inv_def session_or_default_def session_inv_default split: option.split)

lemma book_inv_reserve:
  assumes inv: "book_inv SL DL b" and lim: "limits_finite SL" "limits_finite (DL (eq_destination_id q))"
    and q: "eq_session_limits q = SL" "eq_destination_limits q = DL (eq_destination_id q)"
  shows "book_inv SL DL (snd (reserve b q))"
  using book_inv_put [OF inv book_inv_session [OF inv]]
    book_inv_put [OF inv session_inv_reserved [OF book_inv_session [OF inv] _ lim]] q
  by (auto simp: reserve_def Let_def split: option.split sum.split)

lemma book_inv_settle:
  assumes inv: "book_inv SL DL b" and n: "n \<le> ev_response_reserved v"
  shows "book_inv SL DL (snd (settle b v n t))"
proof (cases "bb_sessions b (ev_session_id v)")
  case None
  with inv show ?thesis by (simp add: settle_def)
next
  case (Some s)
  with inv have sinv: "session_inv SL DL (ev_session_id v) s" by (simp add: book_inv_def)
  show ?thesis
  proof (cases "\<exists>r. map_of (su_reservations s) (ev_reservation_id v) = Some r
      \<and> rr_reservation r = v \<and> \<not> rr_settled r")
    case False
    with Some inv show ?thesis by (auto simp: settle_def Let_def split: option.split)
  next
    case True
    then obtain r where r: "map_of (su_reservations s) (ev_reservation_id v) = Some r"
      "rr_reservation r = v" "\<not> rr_settled r" by blast
    then obtain u where u: "su_destinations s (ev_destination_id v) = Some u"
      using sinv map_of_SomeD [OF r(1)] unfolding session_inv_def by fastforce
    from book_inv_put [OF inv session_inv_settled [OF sinv r u n]] show ?thesis
      using Some r u by (simp add: settle_def Let_def)
  qed
qed

lemma book_inv_clear: "book_inv SL DL b \<Longrightarrow> book_inv SL DL (budget_clear_session b sid)"
  by (simp add: book_inv_def budget_clear_session_def)

interpretation bud: invariant_system "\<lambda>b. b = budget_book_default" "book_step SL DL" "book_inv SL DL"
proof
  fix b assume "b = budget_book_default"
  then show "book_inv SL DL b" by (simp add: book_inv_def budget_book_default_def)
next
  fix b b' assume "book_inv SL DL b" "book_step SL DL b b'"
  from this(2,1) show "book_inv SL DL b'"
    by (cases rule: book_step.cases)
      (auto intro: book_inv_reserve book_inv_settle book_inv_clear)
qed

lemma book_inv_accounts:
  assumes "book_inv SL DL b" "bb_sessions b sid = Some s"
  shows "accounts (su_total s) (session_ledger s)" "within_limits (su_total s) SL"
    "accounts (usage_or_default (su_destinations s) d) (destination_ledger s d)"
    "within_limits (usage_or_default (su_destinations s) d) (DL d)"
  using assms by (auto simp: book_inv_def session_inv_def)

subsection \<open>Calls on the store\<close>

datatype store_op =
    BeginMutation egress_mutation_intent
  | FinishMutation string egress_mutation_status "string option" "nat option" "string option" "string option"
  | ReserveBudget egress_budget_request
  | SettleBudget egress_budget_reservation u64 u64
  | ClearSession string

datatype store_reply =
    Claimed "egress_mutation_claim egress_result"
  | Finished "egress_mutation_record egress_result"
  | Reserved "egress_budget_reservation egress_result"
  | Settled "unit egress_result"
  | Cleared

fun store_apply :: "egress_store \<Rightarrow> store_op \<Rightarrow> store_reply \<times> egress_store" where
  "store_apply st (BeginMutation intent) = apfst Claimed (store_begin_mutation st intent)"
| "store_apply st (FinishMutation i s rd rb ec ed) = apfst Finished (store_finish_mutation st i s rd rb ec ed)"
| "store_apply st (ReserveBudget q) = apfst Reserved (store_reserve_budget st q)"
| "store_apply st (SettleBudget v n t) = apfst Settled (store_settle_budget st v n t)"
| "store_apply st (ClearSession sid) = (Cleared, store_clear_session st sid)"

fun store_run :: "egress_store \<Rightarrow> store_op list \<Rightarrow> store_reply list \<times> egress_store" where
  "store_run st [] = ([], st)"
| "store_run st (c # cs) =
     (let r = store_apply st c; rest = store_run (snd r) cs in (fst r # fst rest, snd rest))"

fun creates :: "string \<Rightarrow> store_reply \<Rightarrow> bool" where
  "creates i (Claimed (Inr c)) \<longleftrightarrow> mc_created c \<and> mi_effect_id (mr_intent (mc_record c)) = i"
| "creates i _ \<longleftrightarrow> False"

definition store_wf :: "egress_store \<Rightarrow> bool" where
  "store_wf st \<longleftrightarrow> bt_wf (vs_effects st) \<and> (\<forall>(k, r) \<in> set (vs_effects st). mi_effect_id (mr_intent r) = k)"

definition effect :: "egress_store \<Rightarrow> string \<Rightarrow> egress_mutation_record option" where
  "effect st i = map_of (vs_effects st) i"

text \<open>How the record of one effect may develop: appear, and become terminal once.\<close>

definition effect_step :: "egress_mutation_record option \<Rightarrow> egress_mutation_record option \<Rightarrow> bool" where
  "effect_step a b \<longleftrightarrow>
     a = b
     \<or> (a = None \<and> (\<exists>intent. b = Some (mutation_started intent)))
     \<or> (\<exists>r r'. a = Some r \<and> b = Some r' \<and> mr_status r = MStarted \<and> is_terminal (mr_status r')
              \<and> mr_intent r' = mr_intent r)"

lemma store_wf_default: "store_wf egress_store_default"
  by (simp add: store_wf_def egress_store_default_def bt_wf_def)

lemma store_wf_insert:
  assumes "store_wf st" "mi_effect_id (mr_intent r) = i"
  shows "store_wf (st\<lparr>vs_effects := bt_insert i r (vs_effects st)\<rparr>)"
proof -
  have "map_of (bt_insert i r (vs_effects st)) = (map_of (vs_effects st))(i \<mapsto> r)"
    using assms(1) by (simp add: store_wf_def bt.get_put)
  moreover have "bt_wf (bt_insert i r (vs_effects st))" using assms(1) by (simp add: store_wf_def bt_wf_insert)
  moreover have "mi_effect_id (mr_intent x) = k" if "(k, x) \<in> set (bt_insert i r (vs_effects st))" for k x
  proof -
    from that calculation have "((map_of (vs_effects st))(i \<mapsto> r)) k = Some x"
      by (metis bt_wf_distinct map_of_is_SomeI)
    with assms show ?thesis by (auto simp: store_wf_def dest!: map_of_SomeD split: if_splits)
  qed
  ultimately show ?thesis by (auto simp: store_wf_def)
qed

lemma effect_insert: "store_wf st \<Longrightarrow>
    effect (st\<lparr>vs_effects := bt_insert i r (vs_effects st)\<rparr>) j = (if j = i then Some r else effect st j)"
  by (simp add: effect_def store_wf_def bt.get_put)

lemma effect_id: "store_wf st \<Longrightarrow> effect st i = Some r \<Longrightarrow> mi_effect_id (mr_intent r) = i"
  by (auto simp: store_wf_def effect_def dest!: map_of_SomeD)

lemma store_begin_cases:
  assumes wf: "store_wf st"
  obtains r where "effect st (mi_effect_id intent) = Some r" "snd (store_begin_mutation st intent) = st"
      "\<And>i. \<not> creates i (Claimed (fst (store_begin_mutation st intent)))"
  | "effect st (mi_effect_id intent) = None" "store_wf (snd (store_begin_mutation st intent))"
      "\<And>j. effect (snd (store_begin_mutation st intent)) j
          = (if j = mi_effect_id intent then Some (mutation_started intent) else effect st j)"
      "\<And>i. creates i (Claimed (fst (store_begin_mutation st intent))) \<longleftrightarrow> i = mi_effect_id intent"
proof (cases "effect st (mi_effect_id intent)")
  case (Some r)
  then show ?thesis by (intro that(1) [of r]) (simp_all add: store_begin_mutation_def effect_def)
next
  case None
  have "mi_effect_id (mr_intent (mutation_started intent)) = mi_effect_id intent"
    by (simp add: mutation_started_def)
  with None show ?thesis
    using store_wf_insert [OF wf, of "mutation_started intent" "mi_effect_id intent"]
      effect_insert [OF wf, of "mi_effect_id intent" "mutation_started intent"]
    by (intro that(2)) (auto simp: store_begin_mutation_def effect_def Let_def)
qed

lemma store_finish_cases:
  assumes wf: "store_wf st"
  obtains "snd (store_finish_mutation st i s rd rb ec ed) = st"
  | r r' where "effect st i = Some r" "mr_status r = MStarted" "is_terminal (mr_status r')"
      "mr_intent r' = mr_intent r" "store_wf (snd (store_finish_mutation st i s rd rb ec ed))"
      "\<And>j. effect (snd (store_finish_mutation st i s rd rb ec ed)) j = (if j = i then Some r' else effect st j)"
proof (cases "is_terminal s \<and> (\<exists>r. effect st i = Some r \<and> \<not> is_terminal (mr_status r))")
  case False
  then show ?thesis
    by (intro that(1)) (auto simp: store_finish_mutation_def effect_def Let_def split: option.split)
next
  case True
  then obtain r where s: "is_terminal s" and r: "effect st i = Some r" "mr_status r = MStarted"
    by (auto simp: is_terminal_def)
  let ?r' = "\<lparr>mr_intent = mr_intent r, mr_status = s, mr_result_digest = rd, mr_result_bytes = rb,
    mr_error_code = ec, mr_error_digest = ed\<rparr>"
  have "snd (store_finish_mutation st i s rd rb ec ed) = st\<lparr>vs_effects := bt_insert i ?r' (vs_effects st)\<rparr>"
    using s r by (simp add: store_finish_mutation_def effect_def is_terminal_def Let_def)
  then show ?thesis
    using r s store_wf_insert [OF wf, of ?r'] effect_insert [OF wf, of i ?r'] effect_id [OF wf r(1)]
    by (intro that(2) [of r ?r']) auto
qed

lemma effect_budget [simp]:
  "effect (snd (store_reserve_budget st q)) j = effect st j"
  "effect (snd (store_settle_budget st v n t)) j = effect st j"
  "effect (store_clear_session st sid) j = effect st j"
  "store_wf (snd (store_reserve_budget st q)) = store_wf st"
  "store_wf (snd (store_settle_budget st v n t)) = store_wf st"
  "store_wf (store_clear_session st sid) = store_wf st"
  by (simp_all add: effect_def store_wf_def store_reserve_budget_def store_settle_budget_def
      store_clear_session_def Let_def)

lemma store_apply_effect:
  assumes wf: "store_wf st"
  shows "store_wf (snd (store_apply st c))
    \<and> effect_step (effect st i) (effect (snd (store_apply st c)) i)
    \<and> (creates i (fst (store_apply st c)) \<longrightarrow> effect st i = None \<and> effect (snd (store_apply st c)) i \<noteq> None)"
proof (cases c)
  case (BeginMutation intent)
  from wf show ?thesis
  proof (cases rule: store_begin_cases [of st intent])
    case 1
    then show ?thesis using BeginMutation wf by (simp add: effect_step_def)
  next
    case 2
    then show ?thesis using BeginMutation by (simp add: effect_step_def) blast
  qed
next
  case (FinishMutation k s rd rb ec ed)
  from wf show ?thesis
  proof (cases rule: store_finish_cases [of st k s rd rb ec ed])
    case 1
    then show ?thesis using FinishMutation wf by (simp add: effect_step_def)
  next
    case (2 r r')
    then show ?thesis using FinishMutation by (simp add: effect_step_def)
  qed
qed (use wf in \<open>simp_all add: effect_step_def\<close>)

lemma store_run_wf: "store_wf st \<Longrightarrow> store_wf (snd (store_run st cs))"
  by (induction cs arbitrary: st) (simp_all add: Let_def store_apply_effect)

lemma effect_step_terminal:
  "effect_step (Some r) b \<Longrightarrow> is_terminal (mr_status r) \<Longrightarrow> b = Some r"
  by (auto simp: effect_step_def is_terminal_def)

lemma store_run_terminal:
  "store_wf st \<Longrightarrow> effect st i = Some r \<Longrightarrow> is_terminal (mr_status r)
   \<Longrightarrow> effect (snd (store_run st cs)) i = Some r"
proof (induction cs arbitrary: st)
  case (Cons c cs)
  from store_apply_effect [OF Cons.prems(1), of c i] Cons.prems
  have "store_wf (snd (store_apply st c))" "effect (snd (store_apply st c)) i = Some r"
    by (auto dest: effect_step_terminal)
  from Cons.IH [OF this Cons.prems(3)] show ?case by (simp add: Let_def)
qed simp

lemma store_run_creates:
  "store_wf st \<Longrightarrow> length (filter (creates i) (fst (store_run st cs)))
     = (if effect st i = None \<and> effect (snd (store_run st cs)) i \<noteq> None then 1 else 0)
   \<and> (effect st i \<noteq> None \<longrightarrow> effect (snd (store_run st cs)) i \<noteq> None)"
proof (induction cs arbitrary: st)
  case (Cons c cs)
  let ?st = "snd (store_apply st c)"
  note s = store_apply_effect [OF Cons.prems, of c i]
  have "effect st i = None \<Longrightarrow> effect ?st i \<noteq> None \<Longrightarrow> creates i (fst (store_apply st c))"
  proof (cases c)
    case (BeginMutation intent)
    from Cons.prems show "effect st i = None \<Longrightarrow> effect ?st i \<noteq> None \<Longrightarrow> ?thesis"
      by (cases rule: store_begin_cases [of st intent]) (auto simp: BeginMutation split: if_splits)
  next
    case (FinishMutation k s rd rb ec ed)
    from Cons.prems show "effect st i = None \<Longrightarrow> effect ?st i \<noteq> None \<Longrightarrow> ?thesis"
      by (cases rule: store_finish_cases [of st k s rd rb ec ed]) (auto simp: FinishMutation split: if_splits)
  qed simp_all
  moreover have "effect st i \<noteq> None \<Longrightarrow> effect ?st i \<noteq> None"
    using s by (auto simp: effect_step_def)
  ultimately show ?case
    using s Cons.IH [of ?st] by (auto simp: Let_def)
qed auto

subsection \<open>Properties\<close>

text \<open>C6. The egress budget of a session is accounted for exactly and never overdrawn. In every
  budget book that any sequence of reservations, settlements and session resets can produce under a
  fixed policy (with limits below the largest 64-bit number, and responses no larger than what was
  reserved for them), the six counters of a session, and those of each of its destinations, are the
  sums of what its reservations hold or have spent, and what is spent plus what is held stays within
  the limits of the session and of the destination: no interleaving of concurrent requests can
  spend a byte or a millisecond twice.\<close>

theorem budget_exact_within_limits:
  assumes "reachable (\<lambda>b. b = budget_book_default) (book_step SL DL) b"
    and "bb_sessions b sid = Some s"
  shows "accounts (su_total s) (session_ledger s)
    \<and> within_limits (su_total s) SL
    \<and> accounts (usage_or_default (su_destinations s) d) (destination_ledger s d)
    \<and> within_limits (usage_or_default (su_destinations s) d) (DL d)"
  using book_inv_accounts [OF bud.reachable_inv [OF assms(1)] assms(2)] by blast

text \<open>C12. A mutating HTTP request is claimed for execution at most once, and its outcome is final.
  Over any sequence of calls on a fresh egress store, the number of claims that tell their caller to
  execute the effect \<open>i\<close> is one when the store knows the effect and zero otherwise; and once the
  effect has a terminal record, no further calls, session resets included, change it.\<close>

theorem mutation_effect_once:
  assumes "store_run egress_store_default cs = (replies, st)"
  shows "length (filter (creates i) replies) = (if effect st i = None then 0 else 1)
    \<and> (\<forall>r ds. effect st i = Some r \<and> is_terminal (mr_status r)
           \<longrightarrow> effect (snd (store_run st ds)) i = Some r)"
proof -
  have "effect egress_store_default i = None" by (simp add: effect_def egress_store_default_def)
  with store_run_creates [OF store_wf_default, of i cs] assms
  have "length (filter (creates i) replies) = (if effect st i = None then 0 else 1)" by simp
  moreover have "store_wf st" using store_run_wf [OF store_wf_default, of cs] assms by simp
  ultimately show ?thesis by (auto intro: store_run_terminal)
qed

subsection \<open>Sample runs\<close>

definition sample_limits :: egress_usage_limits where
  "sample_limits = \<lparr>el_max_requests = 2, el_max_request_bytes = 100, el_max_response_bytes = 1000,
     el_max_time_ms = 5000\<rparr>"

definition sample_budget_request :: egress_budget_request where
  "sample_budget_request = \<lparr>eq_reservation_id = ''r1'', eq_session_id = ''s1'', eq_destination_id = ''api'',
     eq_request_bytes = 40, eq_response_reserved = 600, eq_time_reserved_ms = 3000,
     eq_session_limits = sample_limits, eq_destination_limits = sample_limits\<rparr>"

definition sample_book :: budget_book where
  "sample_book = snd (reserve budget_book_default sample_budget_request)"

lemma sample_book_reachable:
  "reachable (\<lambda>b. b = budget_book_default) (book_step sample_limits (\<lambda>_. sample_limits)) sample_book"
proof -
  have "book_step sample_limits (\<lambda>_. sample_limits) budget_book_default sample_book"
    unfolding sample_book_def
    by (rule book_reserve) (simp_all add: sample_budget_request_def limits_finite_def sample_limits_def)
  with reachable_init show ?thesis by (metis (mono_tags) reachable_step)
qed

lemma sample_book_session:
  "bb_sessions sample_book ''s1'' = Some (reserved_session session_usage_default sample_budget_request)"
  by (simp add: sample_book_def reserve_def session_or_default_def budget_book_default_def
      session_usage_default_def validate_reservation_def egress_usage_default_def
      sample_budget_request_def sample_limits_def put_session_def usage_or_default_def
      sat_add_def Let_def word_less_nat_alt)

theorem budget_exact_within_limits_witness:
  "bb_sessions sample_book ''s1'' = Some (reserved_session session_usage_default sample_budget_request)
   \<and> accounts (su_total (reserved_session session_usage_default sample_budget_request))
       (session_ledger (reserved_session session_usage_default sample_budget_request))
   \<and> within_limits (su_total (reserved_session session_usage_default sample_budget_request)) sample_limits"
  using budget_exact_within_limits [OF sample_book_reachable sample_book_session] sample_book_session
  by blast

definition sample_intent :: egress_mutation_intent where
  "sample_intent = \<lparr>mi_effect_id = ''e1'', mi_session_id = ''s1'', mi_effect_scope_id = ''scope'',
     mi_session_digest = ''sd'', mi_actor_digest = ''ad'', mi_destination_id = ''api'',
     mi_destination_version = 1, mi_target_digest = ''td'', mi_request_digest = ''rd'', mi_request_bytes = 40\<rparr>"

definition sample_calls :: "store_op list" where
  "sample_calls = [BeginMutation sample_intent, BeginMutation sample_intent,
     FinishMutation ''e1'' MSucceeded (Some ''digest'') (Some 12) None None]"

theorem mutation_effect_once_witness:
  "length (filter (creates ''e1'') (fst (store_run egress_store_default sample_calls)))
     = (if effect (snd (store_run egress_store_default sample_calls)) ''e1'' = None then 0 else 1)
   \<and> effect (snd (store_run egress_store_default sample_calls)) ''e1'' \<noteq> None"
proof -
  have "effect (snd (store_run egress_store_default sample_calls)) ''e1'' \<noteq> None"
    by (simp add: sample_calls_def sample_intent_def store_begin_mutation_def egress_store_default_def
        mutation_started_def same_effect_identity_def store_finish_mutation_def effect_def is_terminal_def
        Let_def)
  with mutation_effect_once [of sample_calls "fst (store_run egress_store_default sample_calls)"
      "snd (store_run egress_store_default sample_calls)" "''e1''"]
  show ?thesis by simp
qed

end
