(* ===== verification/Egress_Resolver.thy ===== *)
theory Egress_Resolver
  imports Egress_State "HOL-Library.Product_Lexorder"
begin

text \<open>
  The address checks in front of every outgoing connection, \<open>tm-egress/src/resolver.rs\<close>. An
  address is a 32-bit or a 128-bit word; the predicates of \<open>std::net\<close> the code uses are written out
  (octets and segments), and a network of the deny list contains the addresses that share its
  leading bits. A socket address is an address and a port: the code builds every socket address it
  returns from these two.
\<close>

unbundle bit_operations_syntax

subsection \<open>Addresses\<close>

datatype ip_addr = V4 "32 word" | V6 "128 word"

type_synonym socket_addr = "ip_addr \<times> u16"

instantiation ip_addr :: linorder
begin

fun less_eq_ip_addr :: "ip_addr \<Rightarrow> ip_addr \<Rightarrow> bool" where
  "V4 a \<le> V4 b \<longleftrightarrow> a \<le> b"
| "V4 _ \<le> V6 _ \<longleftrightarrow> True"
| "V6 _ \<le> V4 _ \<longleftrightarrow> False"
| "V6 a \<le> V6 b \<longleftrightarrow> a \<le> b"

definition less_ip_addr :: "ip_addr \<Rightarrow> ip_addr \<Rightarrow> bool" where
  "a < b \<longleftrightarrow> a \<le> b \<and> a \<noteq> (b :: ip_addr)"

instance
proof
  fix a b c :: ip_addr
  show "a < b \<longleftrightarrow> a \<le> b \<and> \<not> b \<le> a" by (cases a; cases b) (auto simp: less_ip_addr_def)
  show "a \<le> a" by (cases a) auto
  show "a \<le> b \<Longrightarrow> b \<le> c \<Longrightarrow> a \<le> c" by (cases a; cases b; cases c) auto
  show "a \<le> b \<Longrightarrow> b \<le> a \<Longrightarrow> a = b" by (cases a; cases b) auto
  show "a \<le> b \<or> b \<le> a" by (cases a; cases b) auto
qed

end

definition ipv4 :: "nat \<Rightarrow> nat \<Rightarrow> nat \<Rightarrow> nat \<Rightarrow> 32 word" where
  "ipv4 a b c d = of_nat (((a * 256 + b) * 256 + c) * 256 + d)"

definition ipv6 :: "nat list \<Rightarrow> 128 word" where
  "ipv6 segments = of_nat (foldl (\<lambda>n s. n * 65536 + s) 0 segments)"

definition v4_octet :: "nat \<Rightarrow> 32 word \<Rightarrow> nat" where
  "v4_octet i ip = unat ip div 256 ^ (3 - i) mod 256"

definition v6_segment :: "nat \<Rightarrow> 128 word \<Rightarrow> nat" where
  "v6_segment i ip = unat ip div 65536 ^ (7 - i) mod 65536"

text \<open>The predicates of \<open>Ipv4Addr\<close> and \<open>Ipv6Addr\<close>.\<close>

definition v4_is_unspecified :: "32 word \<Rightarrow> bool" where
  "v4_is_unspecified ip \<longleftrightarrow> ip = 0"

definition v4_is_broadcast :: "32 word \<Rightarrow> bool" where
  "v4_is_broadcast ip \<longleftrightarrow> ip = ipv4 255 255 255 255"

definition v4_is_multicast :: "32 word \<Rightarrow> bool" where
  "v4_is_multicast ip \<longleftrightarrow> 224 \<le> v4_octet 0 ip \<and> v4_octet 0 ip \<le> 239"

definition v4_is_link_local :: "32 word \<Rightarrow> bool" where
  "v4_is_link_local ip \<longleftrightarrow> v4_octet 0 ip = 169 \<and> v4_octet 1 ip = 254"

definition v4_is_private :: "32 word \<Rightarrow> bool" where
  "v4_is_private ip \<longleftrightarrow>
     v4_octet 0 ip = 10
     \<or> (v4_octet 0 ip = 172 \<and> 16 \<le> v4_octet 1 ip \<and> v4_octet 1 ip \<le> 31)
     \<or> (v4_octet 0 ip = 192 \<and> v4_octet 1 ip = 168)"

definition v4_is_loopback :: "32 word \<Rightarrow> bool" where
  "v4_is_loopback ip \<longleftrightarrow> v4_octet 0 ip = 127"

definition v4_is_documentation :: "32 word \<Rightarrow> bool" where
  "v4_is_documentation ip \<longleftrightarrow>
     (v4_octet 0 ip, v4_octet 1 ip, v4_octet 2 ip) \<in> {(192, 0, 2), (198, 51, 100), (203, 0, 113)}"

definition v6_is_unspecified :: "128 word \<Rightarrow> bool" where
  "v6_is_unspecified ip \<longleftrightarrow> ip = 0"

definition v6_is_loopback :: "128 word \<Rightarrow> bool" where
  "v6_is_loopback ip \<longleftrightarrow> ip = 1"

definition v6_is_multicast :: "128 word \<Rightarrow> bool" where
  "v6_is_multicast ip \<longleftrightarrow> v6_segment 0 ip AND 0xff00 = 0xff00"

definition to_ipv4_mapped :: "128 word \<Rightarrow> 32 word option" where
  "to_ipv4_mapped ip =
     (if list_all (\<lambda>i. v6_segment i ip = 0) [0, 1, 2, 3, 4] \<and> v6_segment 5 ip = 0xffff
      then Some (ucast ip) else None)"

subsection \<open>The deny list\<close>

datatype ip_net = Net4 "32 word" nat | Net6 "128 word" nat

fun net_contains :: "ip_net \<Rightarrow> ip_addr \<Rightarrow> bool" where
  "net_contains (Net4 base n) (V4 ip) \<longleftrightarrow> drop_bit (32 - n) ip = drop_bit (32 - n) base"
| "net_contains (Net6 base n) (V6 ip) \<longleftrightarrow> drop_bit (128 - n) ip = drop_bit (128 - n) base"
| "net_contains _ _ \<longleftrightarrow> False"

definition DENIED_NETWORKS :: "ip_net list" where
  "DENIED_NETWORKS =
     [Net4 (ipv4 0 0 0 0) 8,
      Net4 (ipv4 10 0 0 0) 8,
      Net4 (ipv4 100 64 0 0) 10,
      Net4 (ipv4 127 0 0 0) 8,
      Net4 (ipv4 169 254 0 0) 16,
      Net4 (ipv4 172 16 0 0) 12,
      Net4 (ipv4 192 0 0 0) 24,
      Net4 (ipv4 192 0 2 0) 24,
      Net4 (ipv4 192 168 0 0) 16,
      Net4 (ipv4 198 18 0 0) 15,
      Net4 (ipv4 198 51 100 0) 24,
      Net4 (ipv4 203 0 113 0) 24,
      Net4 (ipv4 224 0 0 0) 4,
      Net4 (ipv4 240 0 0 0) 4,
      Net6 (ipv6 [0, 0, 0, 0, 0, 0, 0, 0]) 128,
      Net6 (ipv6 [0, 0, 0, 0, 0, 0, 0, 1]) 128,
      Net6 (ipv6 [0, 0, 0, 0, 0, 0xffff, 0, 0]) 96,
      Net6 (ipv6 [0x64, 0xff9b, 1, 0, 0, 0, 0, 0]) 48,
      Net6 (ipv6 [0x100, 0, 0, 0, 0, 0, 0, 0]) 64,
      Net6 (ipv6 [0x2001, 0xdb8, 0, 0, 0, 0, 0, 0]) 32,
      Net6 (ipv6 [0xfc00, 0, 0, 0, 0, 0, 0, 0]) 7,
      Net6 (ipv6 [0xfe80, 0, 0, 0, 0, 0, 0, 0]) 10,
      Net6 (ipv6 [0xff00, 0, 0, 0, 0, 0, 0, 0]) 8]"

definition ipv4_special :: "32 word \<Rightarrow> bool" where
  "ipv4_special ip \<longleftrightarrow>
     v4_is_private ip \<or> v4_is_loopback ip \<or> v4_is_link_local ip \<or> v4_is_documentation ip
     \<or> v4_is_broadcast ip \<or> v4_is_multicast ip \<or> v4_is_unspecified ip"

definition ipv6_special :: "128 word \<Rightarrow> bool" where
  "ipv6_special ip \<longleftrightarrow>
     v6_is_loopback ip \<or> v6_is_unspecified ip \<or> v6_is_multicast ip
     \<or> v6_segment 0 ip AND 0xfe00 = 0xfc00 \<or> v6_segment 0 ip AND 0xffc0 = 0xfe80"

definition denied_network :: "ip_addr \<Rightarrow> bool" where
  "denied_network ip \<longleftrightarrow>
     list_ex (\<lambda>network. net_contains network ip) DENIED_NETWORKS
     \<or> (case ip of V4 a \<Rightarrow> ipv4_special a | V6 a \<Rightarrow> ipv6_special a)"

definition hard_denied :: "ip_addr \<Rightarrow> bool" where
  "hard_denied ip \<longleftrightarrow>
     (case ip of
        V4 a \<Rightarrow>
          v4_is_unspecified a \<or> v4_is_broadcast a \<or> v4_is_multicast a \<or> v4_is_link_local a
          \<or> a = ipv4 100 100 100 200 \<or> a = ipv4 168 63 129 16
      | V6 a \<Rightarrow>
          v6_is_unspecified a \<or> v6_is_multicast a \<or> v6_segment 0 a AND 0xffc0 = 0xfe80
          \<or> a = ipv6 [0xfd00, 0x0ec2, 0, 0, 0, 0, 0, 0x0254])"

definition normalize_ip :: "ip_addr \<Rightarrow> ip_addr" where
  "normalize_ip ip =
     (case ip of
        V6 a \<Rightarrow> (case to_ipv4_mapped a of Some b \<Rightarrow> V4 b | None \<Rightarrow> V6 a)
      | other \<Rightarrow> other)"

subsection \<open>Validation of an answer\<close>

text \<open>The set \<open>validated\<close> is the sorted list of its elements.\<close>

fun validate_addresses ::
    "socket_addr list \<Rightarrow> u16 \<Rightarrow> bool \<Rightarrow> socket_addr list \<Rightarrow> socket_addr list egress_result" where
  "validate_addresses [] expected_port allow_private_ips validated = Inr validated"
| "validate_addresses (a # as) expected_port allow_private_ips validated =
     (if snd a \<noteq> expected_port then Inl (EgDenied ''DNS answer changed the destination port'')
      else
        let ip = normalize_ip (fst a)
        in if hard_denied ip \<or> (\<not> allow_private_ips \<and> denied_network ip)
           then Inl (EgDenied
                  ''DNS answer is private, loopback, link-local, metadata, or non-routable'')
           else validate_addresses as expected_port allow_private_ips
                  (insort_insert (ip, expected_port) validated))"

definition validate_resolved_addresses ::
    "socket_addr list \<Rightarrow> u16 \<Rightarrow> bool \<Rightarrow> socket_addr list egress_result" where
  "validate_resolved_addresses addresses expected_port allow_private_ips =
     (if addresses = [] then Inl EgDns
      else validate_addresses addresses expected_port allow_private_ips [])"

text \<open>\<open>SystemDnsResolver\<close>: \<open>parse_ip\<close> is \<open>str::parse::<IpAddr>\<close> and \<open>lookup\<close> the answer of the operating
  system's resolver, \<open>None\<close> when it fails.\<close>

definition system_resolve ::
    "(string \<Rightarrow> ip_addr option) \<Rightarrow> (string \<Rightarrow> u16 \<Rightarrow> socket_addr list option) \<Rightarrow> string \<Rightarrow> u16
     \<Rightarrow> socket_addr list egress_result" where
  "system_resolve parse_ip lookup host port =
     (case parse_ip host of
        Some ip \<Rightarrow> Inr [(ip, port)]
      | None \<Rightarrow>
          (case lookup host port of
             None \<Rightarrow> Inl EgDns
           | Some resolved \<Rightarrow>
               let addresses = sort (remdups resolved)
               in if addresses = [] then Inl EgDns else Inr addresses))"

subsection \<open>The reference: ranges of addresses\<close>

definition dotted :: "nat \<Rightarrow> nat \<Rightarrow> nat \<Rightarrow> nat \<Rightarrow> nat" where
  "dotted a b c d = ((a * 256 + b) * 256 + c) * 256 + d"

definition in_ranges :: "(nat \<times> nat) list \<Rightarrow> nat \<Rightarrow> bool" where
  "in_ranges rs n \<longleftrightarrow> (\<exists>(lo, hi) \<in> set rs. lo \<le> n \<and> n \<le> hi)"

definition nonpublic4 :: "(nat \<times> nat) list" where
  "nonpublic4 =
     [(dotted 0 0 0 0, dotted 0 255 255 255),
      (dotted 10 0 0 0, dotted 10 255 255 255),
      (dotted 100 64 0 0, dotted 100 127 255 255),
      (dotted 127 0 0 0, dotted 127 255 255 255),
      (dotted 169 254 0 0, dotted 169 254 255 255),
      (dotted 172 16 0 0, dotted 172 31 255 255),
      (dotted 192 0 0 0, dotted 192 0 0 255),
      (dotted 192 0 2 0, dotted 192 0 2 255),
      (dotted 192 168 0 0, dotted 192 168 255 255),
      (dotted 198 18 0 0, dotted 198 19 255 255),
      (dotted 198 51 100 0, dotted 198 51 100 255),
      (dotted 203 0 113 0, dotted 203 0 113 255),
      (dotted 224 0 0 0, dotted 239 255 255 255),
      (dotted 240 0 0 0, dotted 255 255 255 255)]"

definition never4 :: "(nat \<times> nat) list" where
  "never4 =
     [(dotted 0 0 0 0, dotted 0 0 0 0),
      (dotted 100 100 100 200, dotted 100 100 100 200),
      (dotted 168 63 129 16, dotted 168 63 129 16),
      (dotted 169 254 0 0, dotted 169 254 255 255),
      (dotted 224 0 0 0, dotted 239 255 255 255),
      (dotted 255 255 255 255, dotted 255 255 255 255)]"

definition nonpublic6 :: "(nat \<times> nat) list" where
  "nonpublic6 =
     [(0, 0),
      (1, 1),
      (0xffff * 2 ^ 32, 0xffff * 2 ^ 32 + (2 ^ 32 - 1)),
      (0x64ff9b0001 * 2 ^ 80, 0x64ff9b0001 * 2 ^ 80 + (2 ^ 80 - 1)),
      (0x100 * 2 ^ 112, 0x100 * 2 ^ 112 + (2 ^ 64 - 1)),
      (0x20010db8 * 2 ^ 96, 0x20010db8 * 2 ^ 96 + (2 ^ 96 - 1)),
      (0xfc00 * 2 ^ 112, 0xfe00 * 2 ^ 112 - 1),
      (0xfe80 * 2 ^ 112, 0xfec0 * 2 ^ 112 - 1),
      (0xff00 * 2 ^ 112, 2 ^ 128 - 1)]"

definition never6 :: "(nat \<times> nat) list" where
  "never6 =
     [(0, 0),
      (0xfd000ec2 * 2 ^ 96 + 0x254, 0xfd000ec2 * 2 ^ 96 + 0x254),
      (0xfe80 * 2 ^ 112, 0xfec0 * 2 ^ 112 - 1),
      (0xff00 * 2 ^ 112, 2 ^ 128 - 1)]"

fun acceptable :: "bool \<Rightarrow> ip_addr \<Rightarrow> bool" where
  "acceptable allow_private (V4 a) \<longleftrightarrow>
     \<not> in_ranges never4 (unat a) \<and> (allow_private \<or> \<not> in_ranges nonpublic4 (unat a))"
| "acceptable allow_private (V6 a) \<longleftrightarrow>
     \<not> in_ranges never6 (unat a) \<and> (allow_private \<or> \<not> in_ranges nonpublic6 (unat a))"

lemma and_window:
  fixes s :: nat
  shows "s AND push_bit k (mask m) = push_bit k (take_bit m (drop_bit k s))"
  by (rule bit_eqI) (auto simp: bit_simps)

lemma and_window_eq:
  fixes s :: nat
  assumes "c = push_bit k (mask m)" "s < 2 ^ (k + m)"
  shows "s AND c = push_bit k q \<longleftrightarrow> s div 2 ^ k = q"
proof -
  have "s div 2 ^ k < 2 ^ m" using assms(2) by (simp add: less_mult_imp_div_less power_add mult.commute)
  then have "take_bit m (drop_bit k s) = s div 2 ^ k"
    by (simp add: drop_bit_eq_div take_bit_nat_eq_self)
  then have "s AND c = push_bit k (s div 2 ^ k)" unfolding assms(1) and_window by simp
  then show ?thesis by (simp add: push_bit_eq_mult)
qed

lemma div_eq_range:
  fixes n k q :: nat
  assumes "0 < k"
  shows "n div k = q \<longleftrightarrow> q * k \<le> n \<and> n \<le> q * k + (k - 1)"
proof
  assume "n div k = q"
  then show "q * k \<le> n \<and> n \<le> q * k + (k - 1)"
    using div_mult_mod_eq [of n k] mod_less_divisor [OF assms, of n] by auto
next
  assume "q * k \<le> n \<and> n \<le> q * k + (k - 1)"
  then show "n div k = q" using assms by (intro div_nat_eqI) (auto simp: mult.commute)
qed

lemma unat_of_nat_small: "n < 2 ^ LENGTH('a) \<Longrightarrow> unat (of_nat n :: 'a::len word) = n"
  by (simp add: unsigned_of_nat take_bit_nat_eq_self)

lemma unat_ipv4: "a < 256 \<Longrightarrow> b < 256 \<Longrightarrow> c < 256 \<Longrightarrow> d < 256 \<Longrightarrow> unat (ipv4 a b c d) = dotted a b c d"
  unfolding ipv4_def dotted_def by (rule unat_of_nat_small) simp

lemma net4_range:
  assumes "n \<le> 32"
  shows "net_contains (Net4 base n) (V4 ip) \<longleftrightarrow> unat ip div 2 ^ (32 - n) = unat base div 2 ^ (32 - n)"
  unfolding net_contains.simps word_unat_eq_iff unat_drop_bit_eq by (simp add: drop_bit_eq_div)

lemma net6_range:
  assumes "n \<le> 128"
  shows "net_contains (Net6 base n) (V6 ip) \<longleftrightarrow> unat ip div 2 ^ (128 - n) = unat base div 2 ^ (128 - n)"
  unfolding net_contains.simps word_unat_eq_iff unat_drop_bit_eq by (simp add: drop_bit_eq_div)

lemma div_digit:
  fixes n k b :: nat
  shows "n div k = n div (k * b) * b + n div k mod b"
  by (simp add: div_mult2_eq)

lemma v4_octets:
  "unat a div 16777216 = v4_octet 0 a"
  "unat a div 65536 = v4_octet 0 a * 256 + v4_octet 1 a"
  "unat a div 256 = (v4_octet 0 a * 256 + v4_octet 1 a) * 256 + v4_octet 2 a"
proof -
  have "unat a < 4294967296" using unat_bound [of a] by simp
  then have "unat a div 16777216 < 256" by (simp add: div_less_iff_less_mult)
  then show o0: "unat a div 16777216 = v4_octet 0 a" by (simp add: v4_octet_def)
  have o1: "v4_octet 1 a = unat a div 65536 mod 256" and o2: "v4_octet 2 a = unat a div 256 mod 256"
    by (simp_all add: v4_octet_def)
  show b: "unat a div 65536 = v4_octet 0 a * 256 + v4_octet 1 a"
    using div_digit [of "unat a" 65536 256] o0 unfolding o1 by simp
  show "unat a div 256 = (v4_octet 0 a * 256 + v4_octet 1 a) * 256 + v4_octet 2 a"
    using div_digit [of "unat a" 256 256] b unfolding o2 by simp
qed

lemma in_ranges_simps [simp]:
  "in_ranges [] n \<longleftrightarrow> False"
  "in_ranges ((lo, hi) # rs) n \<longleftrightarrow> lo \<le> n \<and> n \<le> hi \<or> in_ranges rs n"
  by (auto simp: in_ranges_def)

lemma net4_in:
  assumes "unat base = lo" "2 ^ (32 - n) dvd lo" "hi = lo + (2 ^ (32 - n) - 1)" "n \<le> 32"
  shows "net_contains (Net4 base n) (V4 a) \<longleftrightarrow> lo \<le> unat a \<and> unat a \<le> hi"
proof -
  have "net_contains (Net4 base n) (V4 a) \<longleftrightarrow> unat a div 2 ^ (32 - n) = lo div 2 ^ (32 - n)"
    using assms(1) net4_range [OF assms(4)] by simp
  also have "\<dots> \<longleftrightarrow> lo \<le> unat a \<and> unat a \<le> hi"
    using assms(2,3) by (subst div_eq_range) (simp_all only: dvd_div_mult_self, simp_all)
  finally show ?thesis .
qed

lemma nets4:
  "net_contains (Net4 (ipv4 0 0 0 0) 8) (V4 a) \<longleftrightarrow> dotted 0 0 0 0 \<le> unat a \<and> unat a \<le> dotted 0 255 255 255"
  "net_contains (Net4 (ipv4 10 0 0 0) 8) (V4 a) \<longleftrightarrow> dotted 10 0 0 0 \<le> unat a \<and> unat a \<le> dotted 10 255 255 255"
  "net_contains (Net4 (ipv4 100 64 0 0) 10) (V4 a) \<longleftrightarrow> dotted 100 64 0 0 \<le> unat a \<and> unat a \<le> dotted 100 127 255 255"
  "net_contains (Net4 (ipv4 127 0 0 0) 8) (V4 a) \<longleftrightarrow> dotted 127 0 0 0 \<le> unat a \<and> unat a \<le> dotted 127 255 255 255"
  "net_contains (Net4 (ipv4 169 254 0 0) 16) (V4 a) \<longleftrightarrow> dotted 169 254 0 0 \<le> unat a \<and> unat a \<le> dotted 169 254 255 255"
  "net_contains (Net4 (ipv4 172 16 0 0) 12) (V4 a) \<longleftrightarrow> dotted 172 16 0 0 \<le> unat a \<and> unat a \<le> dotted 172 31 255 255"
  "net_contains (Net4 (ipv4 192 0 0 0) 24) (V4 a) \<longleftrightarrow> dotted 192 0 0 0 \<le> unat a \<and> unat a \<le> dotted 192 0 0 255"
  "net_contains (Net4 (ipv4 192 0 2 0) 24) (V4 a) \<longleftrightarrow> dotted 192 0 2 0 \<le> unat a \<and> unat a \<le> dotted 192 0 2 255"
  "net_contains (Net4 (ipv4 192 168 0 0) 16) (V4 a) \<longleftrightarrow> dotted 192 168 0 0 \<le> unat a \<and> unat a \<le> dotted 192 168 255 255"
  "net_contains (Net4 (ipv4 198 18 0 0) 15) (V4 a) \<longleftrightarrow> dotted 198 18 0 0 \<le> unat a \<and> unat a \<le> dotted 198 19 255 255"
  "net_contains (Net4 (ipv4 198 51 100 0) 24) (V4 a) \<longleftrightarrow> dotted 198 51 100 0 \<le> unat a \<and> unat a \<le> dotted 198 51 100 255"
  "net_contains (Net4 (ipv4 203 0 113 0) 24) (V4 a) \<longleftrightarrow> dotted 203 0 113 0 \<le> unat a \<and> unat a \<le> dotted 203 0 113 255"
  "net_contains (Net4 (ipv4 224 0 0 0) 4) (V4 a) \<longleftrightarrow> dotted 224 0 0 0 \<le> unat a \<and> unat a \<le> dotted 239 255 255 255"
  "net_contains (Net4 (ipv4 240 0 0 0) 4) (V4 a) \<longleftrightarrow> dotted 240 0 0 0 \<le> unat a \<and> unat a \<le> dotted 255 255 255 255"
  by (rule net4_in; simp add: unat_ipv4; simp add: dotted_def)+

lemma nets4_ranges:
  "list_ex (\<lambda>net. net_contains net (V4 a)) DENIED_NETWORKS \<longleftrightarrow> in_ranges nonpublic4 (unat a)"
proof -
  have "list_ex (\<lambda>net. net_contains net (V4 a)) DENIED_NETWORKS \<longleftrightarrow> list_ex (\<lambda>(lo, hi). lo \<le> unat a \<and> unat a \<le> hi) nonpublic4"
    unfolding DENIED_NETWORKS_def nonpublic4_def by (simp add: nets4 del: net_contains.simps(1))
  then show ?thesis by (simp add: in_ranges_def list_ex_iff)
qed

lemma octet0_le: "p \<le> v4_octet 0 a \<longleftrightarrow> dotted p 0 0 0 \<le> unat a"
  by (simp flip: v4_octets(1) add: less_eq_div_iff_mult_less_eq dotted_def mult.commute)

lemma octet0_ge: "v4_octet 0 a \<le> p \<longleftrightarrow> unat a \<le> dotted p 255 255 255"
proof -
  have "v4_octet 0 a \<le> p \<longleftrightarrow> unat a div 16777216 < Suc p" by (simp add: v4_octets(1) less_Suc_eq_le)
  then show ?thesis by (simp add: div_less_iff_less_mult dotted_def) linarith
qed

lemma digits256_eq:
  fixes i j k l :: nat
  assumes "j < 256" "l < 256"
  shows "i * 256 + j = k * 256 + l \<longleftrightarrow> i = k \<and> j = l"
proof
  assume e: "i * 256 + j = k * 256 + l"
  from arg_cong [OF e, of "\<lambda>n. n div 256"] arg_cong [OF e, of "\<lambda>n. n mod 256"] assms
  show "i = k \<and> j = l" by simp
qed simp

lemma octet01_eq:
  assumes "q < 256"
  shows "v4_octet 0 a = p \<and> v4_octet 1 a = q \<longleftrightarrow> dotted p q 0 0 \<le> unat a \<and> unat a \<le> dotted p q 255 255"
proof -
  have "v4_octet 1 a < 256" by (simp add: v4_octet_def)
  with assms have "v4_octet 0 a = p \<and> v4_octet 1 a = q \<longleftrightarrow> unat a div 65536 = p * 256 + q"
    unfolding v4_octets(2) by (subst digits256_eq) auto
  then show ?thesis by (simp add: div_eq_range dotted_def) linarith
qed

lemma octet01_range:
  assumes "v4_octet 0 a = p" "q \<le> v4_octet 1 a" "v4_octet 1 a \<le> r"
  shows "dotted p q 0 0 \<le> unat a \<and> unat a \<le> dotted p r 255 255"
proof -
  have "p * 256 + q \<le> unat a div 65536" "unat a div 65536 < p * 256 + r + 1"
    using assms unfolding v4_octets(2) by auto
  then show ?thesis by (simp add: less_eq_div_iff_mult_less_eq div_less_iff_less_mult dotted_def)
qed

lemma octet012_range:
  assumes "v4_octet 0 a = p" "v4_octet 1 a = q" "v4_octet 2 a = r"
  shows "dotted p q r 0 \<le> unat a \<and> unat a \<le> dotted p q r 255"
proof -
  have "unat a div 256 = (p * 256 + q) * 256 + r" using assms by (simp add: v4_octets(3))
  then show ?thesis by (simp add: div_eq_range dotted_def)
qed

lemma ipv4_special_ranges: "ipv4_special a \<Longrightarrow> in_ranges nonpublic4 (unat a)"
proof -
  have ranges: "in_ranges nonpublic4 (unat a)"
    if "\<exists>(lo, hi) \<in> set nonpublic4. lo \<le> unat a \<and> unat a \<le> hi"
    using that by (simp add: in_ranges_def)
  assume "ipv4_special a"
  then consider "v4_octet 0 a = 10" | "v4_octet 0 a = 172" "16 \<le> v4_octet 1 a" "v4_octet 1 a \<le> 31"
    | "v4_octet 0 a = 192" "v4_octet 1 a = 168" | "v4_octet 0 a = 127" | "v4_octet 0 a = 169" "v4_octet 1 a = 254"
    | "v4_octet 0 a = 192" "v4_octet 1 a = 0" "v4_octet 2 a = 2"
    | "v4_octet 0 a = 198" "v4_octet 1 a = 51" "v4_octet 2 a = 100"
    | "v4_octet 0 a = 203" "v4_octet 1 a = 0" "v4_octet 2 a = 113"
    | "unat a = dotted 255 255 255 255" | "224 \<le> v4_octet 0 a" "v4_octet 0 a \<le> 239" | "a = 0"
    unfolding ipv4_special_def v4_is_private_def v4_is_loopback_def v4_is_link_local_def
      v4_is_documentation_def v4_is_broadcast_def v4_is_multicast_def v4_is_unspecified_def
    by (auto simp: unat_ipv4)
  then show ?thesis
  proof cases
    case 1
    then have "10 \<le> v4_octet 0 a" "v4_octet 0 a \<le> 10" by auto
    then show ?thesis unfolding octet0_le octet0_ge by (simp add: nonpublic4_def)
  next
    case 2
    from octet01_range [OF this] show ?thesis by (simp add: nonpublic4_def)
  next
    case 3
    from octet01_range [OF 3(1), of 168 168] 3 show ?thesis by (simp add: nonpublic4_def)
  next
    case 4
    then have "127 \<le> v4_octet 0 a" "v4_octet 0 a \<le> 127" by auto
    then show ?thesis unfolding octet0_le octet0_ge by (simp add: nonpublic4_def)
  next
    case 5
    from octet01_range [OF 5(1), of 254 254] 5 show ?thesis by (simp add: nonpublic4_def)
  next
    case 6
    from octet012_range [OF this] show ?thesis by (simp add: nonpublic4_def)
  next
    case 7
    from octet012_range [OF this] show ?thesis by (simp add: nonpublic4_def)
  next
    case 8
    from octet012_range [OF this] show ?thesis by (simp add: nonpublic4_def)
  next
    case 9
    then show ?thesis by (simp add: nonpublic4_def dotted_def)
  next
    case 10
    then show ?thesis unfolding octet0_le octet0_ge by (simp add: nonpublic4_def)
  next
    case 11
    then show ?thesis by (simp add: nonpublic4_def dotted_def)
  qed
qed

lemma denied_network_v4: "denied_network (V4 a) \<longleftrightarrow> in_ranges nonpublic4 (unat a)"
  using ipv4_special_ranges by (auto simp: denied_network_def nets4_ranges)

lemma hard_denied_v4: "hard_denied (V4 a) \<longleftrightarrow> in_ranges never4 (unat a)"
proof -
  have eq: "a = ipv4 p q r s \<longleftrightarrow> dotted p q r s \<le> unat a \<and> unat a \<le> dotted p q r s"
    if "p < 256" "q < 256" "r < 256" "s < 256" for p q r s
    using that by (auto simp: word_unat_eq_iff unat_ipv4)
  have "v4_is_unspecified a \<longleftrightarrow> dotted 0 0 0 0 \<le> unat a \<and> unat a \<le> dotted 0 0 0 0"
    by (simp add: v4_is_unspecified_def dotted_def unat_eq_zero)
  moreover have "v4_is_broadcast a \<longleftrightarrow> dotted 255 255 255 255 \<le> unat a \<and> unat a \<le> dotted 255 255 255 255"
    unfolding v4_is_broadcast_def by (rule eq) simp_all
  moreover have "v4_is_multicast a \<longleftrightarrow> dotted 224 0 0 0 \<le> unat a \<and> unat a \<le> dotted 239 255 255 255"
    by (simp add: v4_is_multicast_def octet0_le octet0_ge)
  moreover have "v4_is_link_local a \<longleftrightarrow> dotted 169 254 0 0 \<le> unat a \<and> unat a \<le> dotted 169 254 255 255"
    unfolding v4_is_link_local_def by (rule octet01_eq) simp
  moreover have "a = ipv4 100 100 100 200 \<longleftrightarrow> dotted 100 100 100 200 \<le> unat a \<and> unat a \<le> dotted 100 100 100 200"
    by (rule eq) simp_all
  moreover have "a = ipv4 168 63 129 16 \<longleftrightarrow> dotted 168 63 129 16 \<le> unat a \<and> unat a \<le> dotted 168 63 129 16"
    by (rule eq) simp_all
  ultimately show ?thesis unfolding hard_denied_def never4_def in_ranges_simps by simp blast
qed


lemma net6_in:
  assumes "unat base = lo" "2 ^ (128 - n) dvd lo" "hi = lo + (2 ^ (128 - n) - 1)" "n \<le> 128"
  shows "net_contains (Net6 base n) (V6 a) \<longleftrightarrow> lo \<le> unat a \<and> unat a \<le> hi"
proof -
  have "net_contains (Net6 base n) (V6 a) \<longleftrightarrow> unat a div 2 ^ (128 - n) = lo div 2 ^ (128 - n)"
    using assms(1) net6_range [OF assms(4)] by simp
  also have "\<dots> \<longleftrightarrow> lo \<le> unat a \<and> unat a \<le> hi"
    using assms(2,3) by (subst div_eq_range) (simp_all only: dvd_div_mult_self, simp_all)
  finally show ?thesis .
qed

lemma unat_ipv6:
  "foldl (\<lambda>n s. n * 65536 + s) 0 segments < 2 ^ 128
   \<Longrightarrow> unat (ipv6 segments) = foldl (\<lambda>n s. n * 65536 + s) 0 segments"
  unfolding ipv6_def by (rule unat_of_nat_small) simp

lemma nets6:
  "net_contains (Net6 (ipv6 [0, 0, 0, 0, 0, 0, 0, 0]) 128) (V6 a) \<longleftrightarrow> 0 \<le> unat a \<and> unat a \<le> 0"
  "net_contains (Net6 (ipv6 [0, 0, 0, 0, 0, 0, 0, 1]) 128) (V6 a) \<longleftrightarrow> 1 \<le> unat a \<and> unat a \<le> 1"
  "net_contains (Net6 (ipv6 [0, 0, 0, 0, 0, 0xffff, 0, 0]) 96) (V6 a) \<longleftrightarrow> 0xffff * 2 ^ 32 \<le> unat a \<and> unat a \<le> 0xffff * 2 ^ 32 + (2 ^ 32 - 1)"
  "net_contains (Net6 (ipv6 [0x64, 0xff9b, 1, 0, 0, 0, 0, 0]) 48) (V6 a) \<longleftrightarrow> 0x64ff9b0001 * 2 ^ 80 \<le> unat a \<and> unat a \<le> 0x64ff9b0001 * 2 ^ 80 + (2 ^ 80 - 1)"
  "net_contains (Net6 (ipv6 [0x100, 0, 0, 0, 0, 0, 0, 0]) 64) (V6 a) \<longleftrightarrow> 0x100 * 2 ^ 112 \<le> unat a \<and> unat a \<le> 0x100 * 2 ^ 112 + (2 ^ 64 - 1)"
  "net_contains (Net6 (ipv6 [0x2001, 0xdb8, 0, 0, 0, 0, 0, 0]) 32) (V6 a) \<longleftrightarrow> 0x20010db8 * 2 ^ 96 \<le> unat a \<and> unat a \<le> 0x20010db8 * 2 ^ 96 + (2 ^ 96 - 1)"
  "net_contains (Net6 (ipv6 [0xfc00, 0, 0, 0, 0, 0, 0, 0]) 7) (V6 a) \<longleftrightarrow> 0xfc00 * 2 ^ 112 \<le> unat a \<and> unat a \<le> 0xfe00 * 2 ^ 112 - 1"
  "net_contains (Net6 (ipv6 [0xfe80, 0, 0, 0, 0, 0, 0, 0]) 10) (V6 a) \<longleftrightarrow> 0xfe80 * 2 ^ 112 \<le> unat a \<and> unat a \<le> 0xfec0 * 2 ^ 112 - 1"
  "net_contains (Net6 (ipv6 [0xff00, 0, 0, 0, 0, 0, 0, 0]) 8) (V6 a) \<longleftrightarrow> 0xff00 * 2 ^ 112 \<le> unat a \<and> unat a \<le> 2 ^ 128 - 1"
  by (rule net6_in; simp add: unat_ipv6)+

lemma nets6_ranges:
  "list_ex (\<lambda>net. net_contains net (V6 a)) DENIED_NETWORKS \<longleftrightarrow> in_ranges nonpublic6 (unat a)"
proof -
  have "list_ex (\<lambda>net. net_contains net (V6 a)) DENIED_NETWORKS \<longleftrightarrow> list_ex (\<lambda>(lo, hi). lo \<le> unat a \<and> unat a \<le> hi) nonpublic6"
    unfolding DENIED_NETWORKS_def nonpublic6_def by (simp only: list_ex_iff list.set ball_simps bex_simps nets6 net_contains.simps(3,4) prod.case) simp
  then show ?thesis by (simp add: in_ranges_def list_ex_iff)
qed

lemma segment0_window:
  assumes "c = push_bit k (mask m)" "k + m = 16" "d = push_bit k q"
    and "lo = q * 2 ^ (112 + k)" "hi = lo + (2 ^ (112 + k) - 1)"
  shows "v6_segment 0 a AND c = d \<longleftrightarrow> lo \<le> unat a \<and> unat a \<le> hi"
proof -
  have "unat a div 2 ^ 112 < 65536"
    using unat_bound [of a] by (simp add: div_less_iff_less_mult)
  then have s: "v6_segment 0 a = unat a div 2 ^ 112" "v6_segment 0 a < 2 ^ (k + m)"
    using assms(2) by (simp_all add: v6_segment_def)
  have "v6_segment 0 a AND c = d \<longleftrightarrow> v6_segment 0 a div 2 ^ k = q"
    unfolding assms(3) by (rule and_window_eq [OF assms(1) s(2)])
  also have "v6_segment 0 a div 2 ^ k = unat a div 2 ^ (112 + k)"
    unfolding s(1) by (simp only: power_add div_mult2_eq)
  finally show ?thesis by (simp only: div_eq_range zero_less_power zero_less_numeral assms(4,5))
qed

lemma v6_windows:
  "v6_segment 0 a AND 0xff00 = 0xff00 \<longleftrightarrow> 0xff00 * 2 ^ 112 \<le> unat a \<and> unat a \<le> 2 ^ 128 - 1"
  "v6_segment 0 a AND 0xfe00 = 0xfc00 \<longleftrightarrow> 0xfc00 * 2 ^ 112 \<le> unat a \<and> unat a \<le> 0xfe00 * 2 ^ 112 - 1"
  "v6_segment 0 a AND 0xffc0 = 0xfe80 \<longleftrightarrow> 0xfe80 * 2 ^ 112 \<le> unat a \<and> unat a \<le> 0xfec0 * 2 ^ 112 - 1"
proof -
  note windows = mask_eq_exp_minus_1 push_bit_eq_mult
  show "v6_segment 0 a AND 0xff00 = 0xff00 \<longleftrightarrow> 0xff00 * 2 ^ 112 \<le> unat a \<and> unat a \<le> 2 ^ 128 - 1"
    by (rule segment0_window [of _ 8 8 _ "0xff"]) (simp_all add: windows)
  show "v6_segment 0 a AND 0xfe00 = 0xfc00 \<longleftrightarrow> 0xfc00 * 2 ^ 112 \<le> unat a \<and> unat a \<le> 0xfe00 * 2 ^ 112 - 1"
    by (rule segment0_window [of _ 9 7 _ "0x7e"]) (simp_all add: windows)
  show "v6_segment 0 a AND 0xffc0 = 0xfe80 \<longleftrightarrow> 0xfe80 * 2 ^ 112 \<le> unat a \<and> unat a \<le> 0xfec0 * 2 ^ 112 - 1"
    by (rule segment0_window [of _ 6 10 _ "0x3fa"]) (simp_all add: windows)
qed

lemma zero_range: "(a :: 128 word) = 0 \<longleftrightarrow> 0 \<le> unat a \<and> unat a \<le> 0"
  and one_range: "(a :: 128 word) = 1 \<longleftrightarrow> 1 \<le> unat a \<and> unat a \<le> 1"
  using word_unat_eq_iff [of a 0] word_unat_eq_iff [of a 1] by auto

lemma denied_network_v6: "denied_network (V6 a) \<longleftrightarrow> in_ranges nonpublic6 (unat a)"
proof -
  have "ipv6_special a \<Longrightarrow> in_ranges nonpublic6 (unat a)"
    unfolding ipv6_special_def v6_is_multicast_def v6_windows v6_is_loopback_def v6_is_unspecified_def
      one_range zero_range nonpublic6_def in_ranges_simps by blast
  then show ?thesis unfolding denied_network_def nets6_ranges by auto
qed

lemma hard_denied_v6: "hard_denied (V6 a) \<longleftrightarrow> in_ranges never6 (unat a)"
proof -
  have "a = ipv6 [0xfd00, 0x0ec2, 0, 0, 0, 0, 0, 0x0254] \<longleftrightarrow> unat a = 0xfd000ec2 * 2 ^ 96 + 0x254"
    by (simp add: word_unat_eq_iff unat_ipv6)
  then have "a = ipv6 [0xfd00, 0x0ec2, 0, 0, 0, 0, 0, 0x0254]
      \<longleftrightarrow> 0xfd000ec2 * 2 ^ 96 + 0x254 \<le> unat a \<and> unat a \<le> 0xfd000ec2 * 2 ^ 96 + 0x254"
    by (simp only: order_eq_iff conj_commute)
  then show ?thesis
    unfolding hard_denied_def never6_def in_ranges_simps v6_is_multicast_def v6_is_unspecified_def
      zero_range ip_addr.case v6_windows by blast
qed

lemma not_denied_acceptable:
  "\<not> (hard_denied ip \<or> (\<not> allow_private \<and> denied_network ip)) \<longleftrightarrow> acceptable allow_private ip"
  by (cases ip) (auto simp: hard_denied_v4 hard_denied_v6 denied_network_v4 denied_network_v6)

lemma validate_addresses_Inr:
  "sorted validated \<Longrightarrow> distinct validated \<Longrightarrow>
   validate_addresses as port private_ok validated = Inr out \<longleftrightarrow>
     (\<forall>(ip, p) \<in> set as. p = port \<and> acceptable private_ok (normalize_ip ip))
     \<and> out = sorted_list_of_set (set validated \<union> (\<lambda>a. (normalize_ip (fst a), port)) ` set as)"
proof (induction as arbitrary: validated)
  case Nil
  then have "sorted_list_of_set (set validated) = validated"
    by (simp add: sorted_list_of_set.idem_if_sorted_distinct)
  then show ?case by auto
next
  case (Cons a as)
  let ?ip = "normalize_ip (fst a)"
  let ?v = "insort_insert (?ip, port) validated"
  have v: "sorted ?v" "distinct ?v" "set ?v = insert (?ip, port) (set validated)"
    using Cons.prems by (simp_all add: sorted_insort_insert distinct_insort_insert set_insort_insert)
  define S where "S = sorted_list_of_set (set validated \<union> (\<lambda>a. (normalize_ip (fst a), port)) ` set (a # as))"
  have "set ?v \<union> (\<lambda>a. (normalize_ip (fst a), port)) ` set as
      = set validated \<union> (\<lambda>a. (normalize_ip (fst a), port)) ` set (a # as)"
    using v(3) by auto
  with Cons.IH [OF v(1,2)]
  have "validate_addresses as port private_ok ?v = Inr out \<longleftrightarrow>
      (\<forall>(ip, p) \<in> set as. p = port \<and> acceptable private_ok (normalize_ip ip)) \<and> out = S"
    by (simp only: S_def)
  then show ?case
    unfolding S_def [symmetric] using not_denied_acceptable [of ?ip private_ok]
    by (cases a) (auto simp: Let_def)
qed

text \<open>C16. An answer of the resolver is accepted exactly when it is not empty, every address carries
  the port of the destination and, after IPv4-mapped IPv6 addresses are unwrapped, lies outside the
  ranges that are always refused (unspecified, multicast, link-local, broadcast and the cloud
  metadata addresses) and, unless the destination allows private addresses, outside every private,
  shared, loopback, documentation, benchmarking or reserved range. The addresses handed to the
  connector are exactly the unwrapped ones, sorted and without duplicates. The ranges are written
  as numeric intervals, independent of the bit tests of the code; they say precisely which
  addresses count as public, so that an address in none of them (such as the IPv4-compatible
  \<open>::7f00:1\<close>) is accepted.\<close>

theorem validate_resolved_addresses_correct:
  "validate_resolved_addresses addresses port private_ok = Inr out \<longleftrightarrow>
     addresses \<noteq> []
     \<and> (\<forall>(ip, p) \<in> set addresses. p = port \<and> acceptable private_ok (normalize_ip ip))
     \<and> out = sorted_list_of_set ((\<lambda>a. (normalize_ip (fst a), port)) ` set addresses)"
  by (simp add: validate_resolved_addresses_def validate_addresses_Inr)

definition sample_answer :: "socket_addr list" where
  "sample_answer = [(V6 0xffff08080404, 443), (V4 0x08080808, 443), (V6 0x7f000001, 443)]"

theorem validate_resolved_addresses_correct_witness:
  "validate_resolved_addresses sample_answer 443 False
     = Inr [(V4 0x08080404, 443), (V4 0x08080808, 443), (V6 0x7f000001, 443)]"
proof -
  have n: "normalize_ip (V6 0xffff08080404) = V4 0x08080404" "normalize_ip (V6 0x7f000001) = V6 0x7f000001"
    "normalize_ip (V4 0x08080808) = V4 0x08080808"
    by (simp_all add: normalize_ip_def to_ipv4_mapped_def v6_segment_def)
  have "acceptable False (V4 0x08080404)" "acceptable False (V4 0x08080808)" "acceptable False (V6 0x7f000001)"
    by (simp_all add: never4_def nonpublic4_def never6_def nonpublic6_def dotted_def)
  then have "\<forall>(ip, p) \<in> set sample_answer. p = 443 \<and> acceptable False (normalize_ip ip)"
    by (simp add: sample_answer_def n)
  moreover have "sorted_list_of_set ((\<lambda>a. (normalize_ip (fst a), 443 :: u16)) ` set sample_answer)
      = [(V4 0x08080404, 443), (V4 0x08080808, 443), (V6 0x7f000001, 443)]"
    by (simp add: sample_answer_def n less_eq_prod_def less_prod_def less_ip_addr_def)
  ultimately show ?thesis
    using validate_resolved_addresses_correct [of sample_answer 443 False
        "[(V4 0x08080404, 443), (V4 0x08080808, 443), (V6 0x7f000001, 443)]"]
    by (simp add: sample_answer_def)
qed


text \<open>Addresses that embed or stand for non-public ones and lie outside the refused ranges: an
  IPv4-compatible loopback address, NAT64 and 6to4 forms of it, and a site-local address.\<close>

lemma special_purpose_accepted:
  "acceptable False (V6 0x7f000001)"
  "acceptable False (V6 0x0064ff9b00000000000000007f000001)"
  "acceptable False (V6 0x20027f00000100000000000000000001)"
  "acceptable False (V6 0xfec00000000000000000000000000001)"
  by (simp_all add: in_ranges_def never6_def nonpublic6_def)

end
