(* ===== verification/Egress_Config.thy ===== *)
theory Egress_Config
  imports Egress_State
begin

text \<open>
  The declarative egress policy and the two checks it passes: \<open>EgressConfig::validate\<close> at start-up
  (\<open>tm-host/src/egress.rs\<close>) and \<open>validate_config\<close> when the runtime is built or its policy replaced
  (\<open>tm-egress/src/policy.rs\<close>).

  \<^item> URLs are parsed by the \<open>url\<close> crate: \<open>parse_url\<close> is a parameter and a \<open>url\<close> the answers of the
    accessors the code calls on a parsed URL.
  \<^item> A \<open>BTreeSet<String>\<close> is the sorted list of its elements, \<open>collect_set\<close> collects one from an
    iterator. A test for ASCII characters is made on the bytes.
\<close>

subsection \<open>URLs\<close>

record url =
  url_as_str :: string
  url_scheme :: string
  url_host_str :: "string option"
  url_username :: string
  url_password :: "string option"
  url_fragment :: "string option"
  url_path :: string
  url_query :: "string option"
  url_port_or_known_default :: "u16 option"
  url_cannot_be_a_base :: bool

type_synonym url_parser = "string \<Rightarrow> url option"

definition collect_set :: "'a::linorder list \<Rightarrow> 'a list" where
  "collect_set xs = sort (remdups xs)"

definition has_byte :: "string \<Rightarrow> string \<Rightarrow> bool" where
  "has_byte bs s \<longleftrightarrow> list_ex (\<lambda>b. b \<in> set bs) s"

definition newline_bytes :: string where
  "newline_bytes = [CHR 0x0D, CHR 0x0A]"

subsection \<open>The policy\<close>

record egress_session_limits =
  sl_max_requests :: u32
  sl_max_request_bytes :: nat
  sl_max_response_bytes :: nat
  sl_max_time_ms :: u64

record egress_destination =
  ed_id :: string
  ed_version :: u64
  ed_scheme :: string
  ed_host :: string
  ed_port :: u16
  ed_path_prefixes :: "string list"
  ed_methods :: "string list"
  ed_redirect_to :: "string list"
  ed_max_redirects :: "8 word"
  ed_allow_private_ips :: bool
  ed_request_timeout_ms :: u64
  ed_connect_timeout_ms :: u64
  ed_max_request_bytes :: nat
  ed_max_response_bytes :: nat
  ed_max_requests_per_session :: u32
  ed_max_request_bytes_per_session :: nat
  ed_max_response_bytes_per_session :: nat
  ed_max_time_ms_per_session :: u64
  ed_allowed_request_headers :: "string list"

datatype egress_secret_injection = AuthorizationBearer | InjectHeader string string

record egress_secret =
  es_id :: string
  es_version :: u64
  es_env :: string
  es_destinations :: "string list"
  es_injection :: egress_secret_injection

record egress_config =
  ec_enabled :: bool
  ec_session_limits :: egress_session_limits
  ec_destinations :: "egress_destination list"
  ec_secrets :: "egress_secret list"

definition default_session_limits :: egress_session_limits where
  "default_session_limits =
     \<lparr>sl_max_requests = 16, sl_max_request_bytes = 2 ^ 20, sl_max_response_bytes = 8 * 2 ^ 20,
      sl_max_time_ms = 120000\<rparr>"

text \<open>A destination of which the policy gives only the required members.\<close>

definition default_destination :: "string \<Rightarrow> string \<Rightarrow> string \<Rightarrow> u16 \<Rightarrow> egress_destination" where
  "default_destination i scheme host port =
     \<lparr>ed_id = i, ed_version = 1, ed_scheme = scheme, ed_host = host, ed_port = port,
      ed_path_prefixes = [''/''], ed_methods = [''GET''], ed_redirect_to = [], ed_max_redirects = 0,
      ed_allow_private_ips = False, ed_request_timeout_ms = 15000, ed_connect_timeout_ms = 5000,
      ed_max_request_bytes = 256 * 2 ^ 10, ed_max_response_bytes = 2 ^ 20,
      ed_max_requests_per_session = 8, ed_max_request_bytes_per_session = 512 * 2 ^ 10,
      ed_max_response_bytes_per_session = 4 * 2 ^ 20, ed_max_time_ms_per_session = 60000,
      ed_allowed_request_headers = []\<rparr>"

definition origin_text :: "string \<Rightarrow> string \<Rightarrow> u16 \<Rightarrow> string" where
  "origin_text scheme host port = scheme @ ''://'' @ host @ '':'' @ show_nat (unat port) @ ''/''"

subsection \<open>The check at start-up\<close>

definition host_invalid :: "string \<Rightarrow> host_error" where
  "host_invalid m = InvalidArgs m"

definition host_validate_identifier :: "string \<Rightarrow> string \<Rightarrow> unit host_result" where
  "host_validate_identifier kind value =
     (if value = [] \<or> 128 < length value
         \<or> \<not> list_all (\<lambda>b. is_ascii_alphanumeric (byte b) \<or> b \<in> set ''-_.'') value
      then Inl (host_invalid (kind @ '' must be 1-128 safe ASCII characters''))
      else Inr ())"

definition HEADER_NAME_BYTES :: "nat list" where
  "HEADER_NAME_BYTES = [33, 35, 36, 37, 38, 39, 42, 43, 45, 46, 94, 95, 96, 124, 126]"

definition host_validate_header_name :: "string \<Rightarrow> unit host_result" where
  "host_validate_header_name value =
     (if value = [] \<or> 128 < length value
         \<or> \<not> list_all (\<lambda>b. is_ascii_alphanumeric (byte b) \<or> byte b \<in> set HEADER_NAME_BYTES) value
      then Inl (host_invalid ''egress HTTP header name is invalid'')
      else Inr ())"

definition eq_ignore_ascii_case :: "string \<Rightarrow> string \<Rightarrow> bool" where
  "eq_ignore_ascii_case a b \<longleftrightarrow> to_ascii_lowercase a = to_ascii_lowercase b"

definition host_caller_header_forbidden :: "string \<Rightarrow> bool" where
  "host_caller_header_forbidden name \<longleftrightarrow>
     list_ex (eq_ignore_ascii_case name)
       [''authorization'', ''proxy-authorization'', ''cookie'', ''set-cookie'', ''host'', ''connection'',
        ''content-length'', ''transfer-encoding'', ''te'', ''trailer'', ''upgrade'']"

definition host_has_ambiguous_path_encoding :: "string \<Rightarrow> bool" where
  "host_has_ambiguous_path_encoding path \<longleftrightarrow>
     has_byte [CHR 0x5C] path
     \<or> list_ex (\<lambda>segment. segment = ''.'' \<or> segment = ''..'') (str_split (CHR ''/'') path)
     \<or> list_ex (str_contains (to_ascii_lowercase path)) [''%00'', ''%25'', ''%2e'', ''%2f'', ''%5c'']"

definition check_all :: "('a \<Rightarrow> 'e + unit) \<Rightarrow> 'a list \<Rightarrow> 'e + unit" where
  "check_all f xs = foldr (\<lambda>x rest. case f x of Inl e \<Rightarrow> Inl e | Inr _ \<Rightarrow> rest) xs (Inr ())"

definition host_invalid_origin :: "url_parser \<Rightarrow> egress_destination \<Rightarrow> host_error option" where
  "host_invalid_origin parse_url d =
     (case parse_url (origin_text (ed_scheme d) (ed_host d) (ed_port d)) of
        None \<Rightarrow> Some (host_invalid ''egress destination origin is invalid'')
      | Some origin \<Rightarrow>
          if url_host_str origin = None \<or> url_username origin \<noteq> [] \<or> url_password origin \<noteq> None
             \<or> has_byte ''/@?#'' (ed_host d)
          then Some (host_invalid ''egress destination host is invalid'') else None)"

definition host_limits_invalid :: "egress_destination \<Rightarrow> bool" where
  "host_limits_invalid d \<longleftrightarrow>
     ed_request_timeout_ms d = 0 \<or> 120000 < ed_request_timeout_ms d
     \<or> ed_connect_timeout_ms d = 0 \<or> ed_request_timeout_ms d < ed_connect_timeout_ms d
     \<or> ed_max_request_bytes d = 0 \<or> ed_max_response_bytes d = 0
     \<or> ed_max_requests_per_session d = 0 \<or> ed_max_request_bytes_per_session d = 0
     \<or> ed_max_response_bytes_per_session d = 0 \<or> ed_max_time_ms_per_session d = 0"

definition host_validate_destination ::
    "url_parser \<Rightarrow> string list \<Rightarrow> egress_destination \<Rightarrow> unit host_result" where
  "host_validate_destination parse_url seen d =
     (case host_validate_identifier ''egress destination id'' (ed_id d) of
        Inl e \<Rightarrow> Inl e
      | Inr _ \<Rightarrow>
          if ed_id d \<in> set seen then Inl (host_invalid ''egress destination ids must be unique'')
          else if ed_version d = 0 then Inl (host_invalid ''egress destination versions must be positive'')
          else if ed_scheme d \<noteq> ''https''
          then Inl (host_invalid ''production egress destinations must use https'')
          else if ed_port d = 0 then Inl (host_invalid ''egress destination ports must be positive'')
          else (case host_invalid_origin parse_url d of
                  Some e \<Rightarrow> Inl e
                | None \<Rightarrow>
          if ed_path_prefixes d = []
             \<or> list_ex (\<lambda>prefix. \<not> starts_with prefix ''/'' \<or> has_byte (''?#'' @ newline_bytes) prefix
                            \<or> host_has_ambiguous_path_encoding prefix) (ed_path_prefixes d)
          then Inl (host_invalid ''egress destinations require unambiguous absolute path prefixes'')
          else if ed_methods d = []
             \<or> list_ex (\<lambda>m. m = [] \<or> 16 < length m
                 \<or> \<not> list_all (\<lambda>b. is_ascii_alphabetic (byte b) \<or> b = CHR ''-'') m) (ed_methods d)
          then Inl (host_invalid ''egress destination methods are invalid'')
          else if 5 < ed_max_redirects d then Inl (host_invalid ''egress redirect cap must not exceed 5'')
          else if host_limits_invalid d then Inl (host_invalid ''egress destination limits are invalid'')
          else check_all (\<lambda>header.
                 case host_validate_header_name header of
                   Inl e \<Rightarrow> Inl e
                 | Inr _ \<Rightarrow>
                     if host_caller_header_forbidden header
                     then Inl (host_invalid
                       ''egress caller headers cannot include credentials or hop-by-hop headers'')
                     else Inr ()) (ed_allowed_request_headers d)))"

fun host_validate_destinations ::
    "url_parser \<Rightarrow> string list \<Rightarrow> egress_destination list \<Rightarrow> host_error + string list" where
  "host_validate_destinations parse_url seen [] = Inr seen"
| "host_validate_destinations parse_url seen (d # ds) =
     (case host_validate_destination parse_url seen d of
        Inl e \<Rightarrow> Inl e
      | Inr _ \<Rightarrow> host_validate_destinations parse_url (ed_id d # seen) ds)"

definition host_validate_secret :: "string list \<Rightarrow> string list \<Rightarrow> egress_secret \<Rightarrow> unit host_result" where
  "host_validate_secret destination_ids seen s =
     (case host_validate_identifier ''egress secret id'' (es_id s) of
        Inl e \<Rightarrow> Inl e
      | Inr _ \<Rightarrow>
          if es_id s \<in> set seen then Inl (host_invalid ''egress secret ids must be unique'')
          else if es_version s = 0 then Inl (host_invalid ''egress secret versions must be positive'')
          else if es_env s = [] \<or> 128 < length (es_env s)
             \<or> \<not> list_all (\<lambda>b. is_ascii_uppercase (byte b) \<or> is_ascii_digit (byte b) \<or> b = CHR ''_'') (es_env s)
          then Inl (host_invalid ''egress secret env names must be 1-128 uppercase ASCII characters'')
          else if es_destinations s = [] \<or> list_ex (\<lambda>i. i \<notin> set destination_ids) (es_destinations s)
          then Inl (host_invalid ''egress secrets must name configured destinations'')
          else (case es_injection s of
                  AuthorizationBearer \<Rightarrow> Inr ()
                | InjectHeader name prefix \<Rightarrow>
                    (case host_validate_header_name name of
                       Inl e \<Rightarrow> Inl e
                     | Inr _ \<Rightarrow>
                         if host_caller_header_forbidden name \<or> 256 < length prefix
                            \<or> has_byte newline_bytes prefix
                         then Inl (host_invalid ''egress secret header injection is invalid'')
                         else Inr ())))"

fun host_validate_secrets ::
    "string list \<Rightarrow> string list \<Rightarrow> egress_secret list \<Rightarrow> unit host_result" where
  "host_validate_secrets destination_ids seen [] = Inr ()"
| "host_validate_secrets destination_ids seen (s # ss) =
     (case host_validate_secret destination_ids seen s of
        Inl e \<Rightarrow> Inl e
      | Inr _ \<Rightarrow> host_validate_secrets destination_ids (es_id s # seen) ss)"

definition config_validate :: "url_parser \<Rightarrow> egress_config \<Rightarrow> unit host_result" where
  "config_validate parse_url c =
     (if sl_max_requests (ec_session_limits c) = 0 \<or> sl_max_request_bytes (ec_session_limits c) = 0
         \<or> sl_max_response_bytes (ec_session_limits c) = 0 \<or> sl_max_time_ms (ec_session_limits c) = 0
      then Inl (host_invalid ''egress session limits must be positive'')
      else if ec_enabled c \<and> ec_destinations c = []
      then Inl (host_invalid ''enabled egress requires at least one destination'')
      else (case host_validate_destinations parse_url [] (ec_destinations c) of
              Inl e \<Rightarrow> Inl e
            | Inr destination_ids \<Rightarrow>
                if list_ex (\<lambda>d. list_ex (\<lambda>i. i \<notin> set destination_ids) (ed_redirect_to d)) (ec_destinations c)
                then Inl (host_invalid ''egress redirect targets must name configured destinations'')
                else host_validate_secrets destination_ids [] (ec_secrets c)))"

text \<open>The grants a mode with network access receives.\<close>

definition turn_capabilities :: "egress_config \<Rightarrow> string list" where
  "turn_capabilities c =
     (if \<not> ec_enabled c then []
      else collect_set
        ([''http.request'']
         @ map (\<lambda>d. ''egress.destination:'' @ ed_id d) (ec_destinations c)
         @ (if ec_secrets c = [] then []
            else ''secrets.use'' # map (\<lambda>s. ''secrets.use:'' @ es_id s) (ec_secrets c))))"

definition destination_map :: "egress_config \<Rightarrow> (string \<times> egress_destination) list" where
  "destination_map c = fold (\<lambda>d m. bt_insert (ed_id d) d m) (ec_destinations c) []"

end
