(* ===== verification/Egress_Policy.thy ===== *)
theory Egress_Policy
  imports Egress_Config
begin

text \<open>
  The policy the egress runtime enforces, \<open>tm-egress/src/policy.rs\<close>: \<open>validate_config\<close> checks and
  normalises a configuration, \<open>authorize\<close> finds the destination a request may go to, and
  \<open>validate_request_headers\<close> bounds what a caller may send. The validated destinations and secrets
  are \<open>BTreeMap\<close>s. The lemmas relate the check to the one made at start-up
  (\<open>Egress_Config.config_validate\<close>) and characterise what an authorized URL looks like.
\<close>

abbreviation (input) MAX_URL_BYTES :: nat where "MAX_URL_BYTES \<equiv> 8192"
abbreviation (input) MAX_HEADERS :: nat where "MAX_HEADERS \<equiv> 32"
abbreviation (input) MAX_HEADER_BYTES :: nat where "MAX_HEADER_BYTES \<equiv> 16384"
abbreviation (input) MAX_REDIRECTS :: "8 word" where "MAX_REDIRECTS \<equiv> 5"
abbreviation (input) MAX_SECRET_BYTES :: nat where "MAX_SECRET_BYTES \<equiv> 16384"

definition FORBIDDEN_CALLER_HEADERS :: "string list" where
  "FORBIDDEN_CALLER_HEADERS =
     [''authorization'', ''proxy-authorization'', ''cookie'', ''set-cookie'', ''host'', ''connection'',
      ''content-length'', ''transfer-encoding'', ''te'', ''trailer'', ''upgrade'']"

record validated_config =
  vc_enabled :: bool
  vc_session_limits :: egress_session_limits
  vc_destinations :: "(string \<times> egress_destination) list"
  vc_secrets :: "(string \<times> egress_secret) list"

record authorized_destination =
  ad_policy :: egress_destination
  ad_url :: url

subsection \<open>Checks\<close>

definition caller_header_forbidden :: "string \<Rightarrow> bool" where
  "caller_header_forbidden name \<longleftrightarrow> list_ex (eq_ignore_ascii_case name) FORBIDDEN_CALLER_HEADERS"

definition validate_session_limits :: "egress_session_limits \<Rightarrow> unit egress_result" where
  "validate_session_limits limits =
     (if sl_max_requests limits = 0 \<or> sl_max_request_bytes limits = 0
         \<or> sl_max_response_bytes limits = 0 \<or> sl_max_time_ms limits = 0
      then Inl (EgInvalidConfig ''session egress limits must be positive'')
      else Inr ())"

definition validate_destination_limits :: "egress_destination \<Rightarrow> unit egress_result" where
  "validate_destination_limits d =
     (if ed_request_timeout_ms d = 0 \<or> 120000 < ed_request_timeout_ms d
         \<or> ed_connect_timeout_ms d = 0 \<or> ed_request_timeout_ms d < ed_connect_timeout_ms d
         \<or> ed_max_request_bytes d = 0 \<or> ed_max_response_bytes d = 0
         \<or> ed_max_requests_per_session d = 0 \<or> ed_max_request_bytes_per_session d = 0
         \<or> ed_max_response_bytes_per_session d = 0 \<or> ed_max_time_ms_per_session d = 0
      then Inl (EgInvalidConfig (''destination '' @ ed_id d @ '' has invalid limits''))
      else Inr ())"

definition validate_identifier :: "string \<Rightarrow> string \<Rightarrow> unit egress_result" where
  "validate_identifier kind value =
     (if value = [] \<or> 128 < length value
         \<or> \<not> list_all (\<lambda>b. is_ascii_alphanumeric (byte b) \<or> b \<in> set ''-_.'') value
      then Inl (EgInvalidConfig (kind @ '' must be 1-128 safe ASCII characters''))
      else Inr ())"

definition validate_env_name :: "string \<Rightarrow> unit egress_result" where
  "validate_env_name value =
     (if value = [] \<or> 128 < length value
         \<or> \<not> list_all (\<lambda>b. is_ascii_uppercase (byte b) \<or> is_ascii_digit (byte b) \<or> b = CHR ''_'') value
      then Inl (EgInvalidConfig ''secret env name must be 1-128 uppercase ASCII characters'')
      else Inr ())"

definition validate_header_name :: "string \<Rightarrow> unit egress_result" where
  "validate_header_name value =
     (if value = [] \<or> 128 < length value
         \<or> \<not> list_all (\<lambda>b. is_ascii_alphanumeric (byte b) \<or> byte b \<in> set HEADER_NAME_BYTES) value
      then Inl (EgInvalidConfig ''invalid HTTP header name'')
      else Inr ())"

definition valid_method :: "string \<Rightarrow> bool" where
  "valid_method m \<longleftrightarrow>
     m \<noteq> [] \<and> length m \<le> 16 \<and> list_all (\<lambda>b. is_ascii_uppercase (byte b) \<or> b = CHR ''-'') m"

definition path_prefix_matches :: "string \<Rightarrow> string \<Rightarrow> bool" where
  "path_prefix_matches prefix path \<longleftrightarrow>
     (if prefix = ''/'' \<or> prefix = path then True
      else (case strip_prefix path prefix of
              None \<Rightarrow> False
            | Some remaining \<Rightarrow> ends_with prefix ''/'' \<or> starts_with remaining ''/''))"

definition has_ambiguous_path_encoding :: "string \<Rightarrow> bool" where
  "has_ambiguous_path_encoding path \<longleftrightarrow>
     has_byte [CHR 0x5C] path
     \<or> list_ex (\<lambda>segment. segment = ''.'' \<or> segment = ''..'') (str_split (CHR ''/'') path)
     \<or> list_ex (str_contains (to_ascii_lowercase path)) [''%00'', ''%25'', ''%2e'', ''%2f'', ''%5c'']"

subsection \<open>Validation of a configuration\<close>

definition config_error :: "egress_destination \<Rightarrow> string \<Rightarrow> egress_error" where
  "config_error d m = EgInvalidConfig (''destination '' @ ed_id d @ m)"

definition invalid_prefix :: "string \<Rightarrow> bool" where
  "invalid_prefix prefix \<longleftrightarrow>
     \<not> starts_with prefix ''/'' \<or> has_byte (''?#'' @ newline_bytes) prefix \<or> has_ambiguous_path_encoding prefix"

text \<open>The first half of the loop body: identity, scheme and origin; it returns the destination with
  its scheme and host in lower case, the host as the URL parser writes it.\<close>

definition normalize_origin ::
    "url_parser \<Rightarrow> bool \<Rightarrow> egress_destination \<Rightarrow> egress_destination egress_result" where
  "normalize_origin parse_url allow_http d0 =
     (case validate_identifier ''destination id'' (ed_id d0) of
        Inl e \<Rightarrow> Inl e
      | Inr _ \<Rightarrow>
          if ed_version d0 = 0 then Inl (config_error d0 '' version must be positive'')
          else
            let d = d0\<lparr>ed_scheme := to_ascii_lowercase (ed_scheme d0), ed_host := to_ascii_lowercase (ed_host d0)\<rparr>
            in if ed_scheme d \<noteq> ''https'' \<and> \<not> (allow_http \<and> ed_scheme d = ''http'')
               then Inl (config_error d '' must use HTTPS'')
               else (case parse_url (origin_text (ed_scheme d) (ed_host d) (ed_port d)) of
                       None \<Rightarrow> Inl (config_error d '' has an invalid origin'')
                     | Some origin \<Rightarrow>
                         (case url_host_str origin of
                            None \<Rightarrow> Inl (config_error d '' has an invalid host'')
                          | Some host \<Rightarrow>
                              if url_username origin \<noteq> [] \<or> url_password origin \<noteq> None
                                 \<or> has_byte ''/@?#'' (ed_host d)
                              then Inl (config_error d '' has an invalid host'')
                              else Inr (d\<lparr>ed_host := to_ascii_lowercase host\<rparr>))))"

text \<open>The second half: paths, methods, limits and caller headers.\<close>

definition normalize_rules :: "egress_destination \<Rightarrow> egress_destination egress_result" where
  "normalize_rules d0 =
     (if ed_port d0 = 0 then Inl (config_error d0 '' port must be positive'')
      else if ed_path_prefixes d0 = [] then Inl (config_error d0 '' needs at least one path prefix'')
      else if list_ex invalid_prefix (ed_path_prefixes d0)
      then Inl (config_error d0 '' has an invalid path prefix'')
      else if ed_methods d0 = [] then Inl (config_error d0 '' needs at least one method'')
      else
        let d = d0\<lparr>ed_methods := collect_set (map to_ascii_uppercase (ed_methods d0))\<rparr>
        in if list_ex (\<lambda>m. \<not> valid_method m) (ed_methods d) then Inl (config_error d '' has an invalid method'')
           else if MAX_REDIRECTS < ed_max_redirects d then Inl (config_error d '' exceeds the redirect cap'')
           else (case validate_destination_limits d of
                   Inl e \<Rightarrow> Inl e
                 | Inr _ \<Rightarrow>
                     let d' = d\<lparr>ed_allowed_request_headers :=
                                  collect_set (map to_ascii_lowercase (ed_allowed_request_headers d))\<rparr>
                     in (case check_all (\<lambda>header.
                                case validate_header_name header of
                                  Inl e \<Rightarrow> Inl e
                                | Inr _ \<Rightarrow>
                                    if caller_header_forbidden header
                                    then Inl (config_error d' ('' cannot allow caller header '' @ header))
                                    else Inr ()) (ed_allowed_request_headers d') of
                           Inl e \<Rightarrow> Inl e
                         | Inr _ \<Rightarrow> Inr d')))"

definition validate_destination ::
    "url_parser \<Rightarrow> bool \<Rightarrow> egress_destination \<Rightarrow> egress_destination egress_result" where
  "validate_destination parse_url allow_http d =
     (case normalize_origin parse_url allow_http d of Inl e \<Rightarrow> Inl e | Inr d' \<Rightarrow> normalize_rules d')"

fun validate_destinations ::
    "url_parser \<Rightarrow> bool \<Rightarrow> (string \<times> egress_destination) list \<Rightarrow> egress_destination list
     \<Rightarrow> (string \<times> egress_destination) list egress_result" where
  "validate_destinations parse_url allow_http m [] = Inr m"
| "validate_destinations parse_url allow_http m (d # ds) =
     (case validate_destination parse_url allow_http d of
        Inl e \<Rightarrow> Inl e
      | Inr d' \<Rightarrow>
          if map_of m (ed_id d') \<noteq> None then Inl (EgInvalidConfig ''duplicate destination id'')
          else validate_destinations parse_url allow_http (bt_insert (ed_id d') d' m) ds)"

definition unknown_redirect :: "(string \<times> egress_destination) list \<Rightarrow> egress_destination \<Rightarrow> unit egress_result" where
  "unknown_redirect m d =
     check_all (\<lambda>redirect.
       if map_of m redirect = None
       then Inl (config_error d ('' redirects to unknown destination '' @ redirect)) else Inr ())
       (ed_redirect_to d)"

definition secret_error :: "egress_secret \<Rightarrow> string \<Rightarrow> egress_error" where
  "secret_error s m = EgInvalidConfig (''secret '' @ es_id s @ m)"

definition validate_secret ::
    "(string \<times> egress_destination) list \<Rightarrow> egress_secret \<Rightarrow> egress_secret egress_result" where
  "validate_secret destinations s =
     (case validate_identifier ''secret id'' (es_id s) of
        Inl e \<Rightarrow> Inl e
      | Inr _ \<Rightarrow>
          if es_version s = 0 then Inl (secret_error s '' version must be positive'')
          else (case validate_env_name (es_env s) of
                  Inl e \<Rightarrow> Inl e
                | Inr _ \<Rightarrow>
          if es_destinations s = [] \<or> list_ex (\<lambda>i. map_of destinations i = None) (es_destinations s)
          then Inl (secret_error s '' must reference only configured destinations'')
          else (case es_injection s of
                  AuthorizationBearer \<Rightarrow> Inr s
                | InjectHeader name prefix \<Rightarrow>
                    let name' = to_ascii_lowercase name
                    in (case validate_header_name name' of
                          Inl e \<Rightarrow> Inl e
                        | Inr _ \<Rightarrow>
                            if caller_header_forbidden name'
                            then Inl (secret_error s '' has a forbidden injection header'')
                            else if 256 < length prefix \<or> has_byte newline_bytes prefix
                            then Inl (secret_error s '' has an invalid header prefix'')
                            else Inr (s\<lparr>es_injection := InjectHeader name' prefix\<rparr>)))))"

fun validate_secrets ::
    "(string \<times> egress_destination) list \<Rightarrow> (string \<times> egress_secret) list \<Rightarrow> egress_secret list
     \<Rightarrow> (string \<times> egress_secret) list egress_result" where
  "validate_secrets destinations m [] = Inr m"
| "validate_secrets destinations m (s # ss) =
     (case validate_secret destinations s of
        Inl e \<Rightarrow> Inl e
      | Inr s' \<Rightarrow>
          if map_of m (es_id s') \<noteq> None then Inl (EgInvalidConfig ''duplicate secret id'')
          else validate_secrets destinations (bt_insert (es_id s') s' m) ss)"

definition validate_config :: "url_parser \<Rightarrow> egress_config \<Rightarrow> bool \<Rightarrow> validated_config egress_result" where
  "validate_config parse_url c allow_http =
     (case validate_session_limits (ec_session_limits c) of
        Inl e \<Rightarrow> Inl e
      | Inr _ \<Rightarrow>
     (case validate_destinations parse_url allow_http [] (ec_destinations c) of
        Inl e \<Rightarrow> Inl e
      | Inr destinations \<Rightarrow>
     (case check_all (unknown_redirect destinations) (map snd destinations) of
        Inl e \<Rightarrow> Inl e
      | Inr _ \<Rightarrow>
     (case validate_secrets destinations [] (ec_secrets c) of
        Inl e \<Rightarrow> Inl e
      | Inr secrets \<Rightarrow>
          if ec_enabled c \<and> destinations = []
          then Inl (EgInvalidConfig ''enabled egress requires a destination'')
          else Inr \<lparr>vc_enabled = ec_enabled c, vc_session_limits = ec_session_limits c,
                    vc_destinations = destinations, vc_secrets = secrets\<rparr>))))"

subsection \<open>Authorization\<close>

definition url_shape_denied :: "url \<Rightarrow> bool" where
  "url_shape_denied u \<longleftrightarrow>
     url_cannot_be_a_base u \<or> url_host_str u = None \<or> url_username u \<noteq> [] \<or> url_password u \<noteq> None
     \<or> url_fragment u \<noteq> None \<or> has_ambiguous_path_encoding (url_path u)"

definition destination_matches :: "url \<Rightarrow> string \<Rightarrow> u16 \<Rightarrow> string \<Rightarrow> egress_destination \<Rightarrow> bool" where
  "destination_matches u host port m d \<longleftrightarrow>
     ed_scheme d = url_scheme u \<and> ed_host d = host \<and> ed_port d = port \<and> m \<in> set (ed_methods d)
     \<and> list_ex (\<lambda>prefix. path_prefix_matches prefix (url_path u)) (ed_path_prefixes d)"

definition authorize ::
    "url_parser \<Rightarrow> validated_config \<Rightarrow> string \<Rightarrow> string \<Rightarrow> authorized_destination egress_result" where
  "authorize parse_url c url method =
     (if \<not> vc_enabled c then Inl EgDisabled
      else if MAX_URL_BYTES < length url then Inl (EgInvalidRequest ''URL exceeds 8 KiB'')
      else (case parse_url url of
              None \<Rightarrow> Inl (EgInvalidRequest ''URL must be absolute'')
            | Some u \<Rightarrow>
                if url_shape_denied u then Inl (EgDenied ''URL shape is not allowed'')
                else
                  let m = to_ascii_uppercase method;
                      host = to_ascii_lowercase (the (url_host_str u))
                  in (case url_port_or_known_default u of
                        None \<Rightarrow> Inl (EgDenied ''URL has no effective port'')
                      | Some port \<Rightarrow>
                          (case find (destination_matches u host port m) (map snd (vc_destinations c)) of
                             None \<Rightarrow> Inl (EgDenied ''destination is not allowlisted'')
                           | Some policy \<Rightarrow> Inr \<lparr>ad_policy = policy, ad_url = u\<rparr>))))"

fun headers_bytes ::
    "egress_destination \<Rightarrow> (string \<times> string) list \<Rightarrow> nat \<Rightarrow> nat egress_result" where
  "headers_bytes policy [] bytes = Inr bytes"
| "headers_bytes policy ((name, value) # headers) bytes =
     (let normalized = to_ascii_lowercase name
      in case validate_header_name normalized of
           Inl _ \<Rightarrow> Inl (EgInvalidRequest ''invalid request header'')
         | Inr _ \<Rightarrow>
             if caller_header_forbidden normalized
             then Inl (EgDenied ''caller-supplied credential or hop-by-hop header is forbidden'')
             else if normalized \<notin> set (ed_allowed_request_headers policy)
             then Inl (EgDenied ''caller-supplied header is not allowlisted'')
             else if has_byte newline_bytes value
             then Inl (EgInvalidRequest ''invalid request header value'')
             else (case Option.bind (usize_checked_add bytes (length name))
                          (\<lambda>n. Option.bind (usize_checked_add n (length value))
                          (\<lambda>n. usize_checked_add n 4)) of
                     None \<Rightarrow> Inl (EgInvalidRequest ''request headers are too large'')
                   | Some n \<Rightarrow> headers_bytes policy headers n))"

definition validate_request_headers ::
    "egress_destination \<Rightarrow> (string \<times> string) list \<Rightarrow> unit egress_result" where
  "validate_request_headers policy headers =
     (if MAX_HEADERS < length headers then Inl (EgInvalidRequest ''too many request headers'')
      else (case headers_bytes policy headers 0 of
              Inl e \<Rightarrow> Inl e
            | Inr bytes \<Rightarrow>
                if MAX_HEADER_BYTES < bytes then Inl (EgInvalidRequest ''request headers exceed 16 KiB'')
                else Inr ()))"

subsection \<open>What validation establishes\<close>

lemma check_all_Inr: "check_all f xs = Inr u \<longleftrightarrow> (\<forall>x \<in> set xs. f x = Inr ())"
  by (induction xs) (auto simp: check_all_def split: sum.splits)

lemma set_collect_set [simp]: "set (collect_set xs) = set xs"
  by (simp add: collect_set_def)

lemma collect_set_Nil [simp]: "collect_set xs = [] \<longleftrightarrow> xs = []"
  by (metis set_collect_set set_empty)

lemma check_header_Inr:
  "(case v of Inl e \<Rightarrow> Inl (f e) | Inr _ \<Rightarrow> if b then Inl x else Inr ()) = Inr () \<longleftrightarrow> v = Inr () \<and> \<not> b"
  by (cases v) auto

definition destination_wf :: "bool \<Rightarrow> egress_destination \<Rightarrow> bool" where
  "destination_wf allow_http d \<longleftrightarrow>
     ed_id d \<noteq> [] \<and> length (ed_id d) \<le> 128 \<and> ed_version d \<noteq> 0
     \<and> (ed_scheme d = ''https'' \<or> (allow_http \<and> ed_scheme d = ''http'')) \<and> ed_port d \<noteq> 0
     \<and> ed_path_prefixes d \<noteq> []
     \<and> (\<forall>p \<in> set (ed_path_prefixes d). starts_with p ''/'' \<and> \<not> has_ambiguous_path_encoding p)
     \<and> ed_methods d \<noteq> [] \<and> (\<forall>m \<in> set (ed_methods d). valid_method m)
     \<and> ed_max_redirects d \<le> 5
     \<and> 0 < ed_request_timeout_ms d \<and> ed_request_timeout_ms d \<le> 120000
     \<and> 0 < ed_connect_timeout_ms d \<and> ed_connect_timeout_ms d \<le> ed_request_timeout_ms d
     \<and> 0 < ed_max_response_bytes d \<and> 0 < ed_max_requests_per_session d
     \<and> (\<forall>h \<in> set (ed_allowed_request_headers d). \<not> caller_header_forbidden h)"

lemma normalize_origin_Inr:
  assumes "normalize_origin parse_url allow_http d = Inr d'"
  shows "\<exists>host. d' = d\<lparr>ed_scheme := to_ascii_lowercase (ed_scheme d), ed_host := to_ascii_lowercase host\<rparr>"
    and "ed_id d \<noteq> []" "length (ed_id d) \<le> 128" "ed_version d \<noteq> 0"
    and "to_ascii_lowercase (ed_scheme d) = ''https'' \<or> (allow_http \<and> to_ascii_lowercase (ed_scheme d) = ''http'')"
  using assms
  by (auto simp: normalize_origin_def validate_identifier_def Let_def split: sum.splits if_splits option.splits)

lemma normalize_rules_Inr:
  assumes "normalize_rules d = Inr d'"
  shows "d' = d\<lparr>ed_methods := collect_set (map to_ascii_uppercase (ed_methods d)),
                ed_allowed_request_headers := collect_set (map to_ascii_lowercase (ed_allowed_request_headers d))\<rparr>"
    and "ed_port d \<noteq> 0" "ed_path_prefixes d \<noteq> []" "\<forall>p \<in> set (ed_path_prefixes d). \<not> invalid_prefix p"
    and "ed_methods d \<noteq> []" "\<forall>m \<in> set (ed_methods d'). valid_method m" "ed_max_redirects d \<le> 5"
    and "validate_destination_limits d = Inr ()"
    and "\<forall>h \<in> set (ed_allowed_request_headers d'). \<not> caller_header_forbidden h"
  using assms
  by (auto simp: normalize_rules_def Let_def check_all_Inr check_header_Inr list_ex_iff validate_destination_limits_def
      split: sum.splits if_splits)

lemma validate_destination_wf:
  assumes "validate_destination parse_url allow_http d = Inr d'"
  shows "destination_wf allow_http d'" and "ed_id d' = ed_id d" and "ed_redirect_to d' = ed_redirect_to d"
proof -
  from assms obtain e where e: "normalize_origin parse_url allow_http d = Inr e" "normalize_rules e = Inr d'"
    by (auto simp: validate_destination_def split: sum.splits)
  note o = normalize_origin_Inr [OF e(1)] and r = normalize_rules_Inr [OF e(2)]
  from o(1) obtain host where h: "e = d\<lparr>ed_scheme := to_ascii_lowercase (ed_scheme d), ed_host := to_ascii_lowercase host\<rparr>"
    by blast
  have m: "ed_methods d' \<noteq> []" using r(1,5) by simp
  show "ed_id d' = ed_id d" "ed_redirect_to d' = ed_redirect_to d" using r(1) h by simp_all
  show "destination_wf allow_http d'"
    using o r(2-4,6-9) m unfolding r(1) h
    by (simp add: destination_wf_def invalid_prefix_def validate_destination_limits_def word_neq_0_conv not_less
        split: if_splits)
qed

lemma set_bt_insert: "set (bt_insert k v m) \<subseteq> insert (k, v) (set m)"
  by (induction k v m rule: bt_insert.induct) auto

lemma validate_destinations_wf:
  assumes "validate_destinations parse_url allow_http m ds = Inr m'" "bt_wf m"
    and "\<forall>(k, d) \<in> set m. ed_id d = k \<and> destination_wf allow_http d"
  shows "bt_wf m'" and "\<forall>(k, d) \<in> set m'. ed_id d = k \<and> destination_wf allow_http d"
    and "fst ` set m' = fst ` set m \<union> ed_id ` set ds"
proof -
  have "bt_wf m' \<and> (\<forall>(k, d) \<in> set m'. ed_id d = k \<and> destination_wf allow_http d)
      \<and> fst ` set m' = fst ` set m \<union> ed_id ` set ds"
    using assms
  proof (induction parse_url allow_http m ds rule: validate_destinations.induct)
    case (2 parse_url allow_http m d ds)
    from "2.prems"(1) obtain d' where d': "validate_destination parse_url allow_http d = Inr d'"
      "map_of m (ed_id d') = None" "validate_destinations parse_url allow_http (bt_insert (ed_id d') d' m) ds = Inr m'"
      by (auto split: sum.splits if_splits)
    have "\<forall>(k, e) \<in> set (bt_insert (ed_id d') d' m). ed_id e = k \<and> destination_wf allow_http e"
      using "2.prems"(3) validate_destination_wf(1) [OF d'(1)] set_bt_insert [of "ed_id d'" d' m] by auto
    with "2.IH" [OF d'(1) _ d'(3) bt_wf_insert [OF "2.prems"(2)]] d'(2)
    show ?case by (simp add: set_fst_bt_insert validate_destination_wf(2) [OF d'(1)])
  qed simp
  then show "bt_wf m'" "\<forall>(k, d) \<in> set m'. ed_id d = k \<and> destination_wf allow_http d"
    "fst ` set m' = fst ` set m \<union> ed_id ` set ds" by auto
qed

definition secret_wf :: "string set \<Rightarrow> egress_secret \<Rightarrow> bool" where
  "secret_wf ids s \<longleftrightarrow>
     es_id s \<noteq> [] \<and> es_version s \<noteq> 0 \<and> es_env s \<noteq> [] \<and> es_destinations s \<noteq> []
     \<and> set (es_destinations s) \<subseteq> ids
     \<and> (\<forall>name prefix. es_injection s = InjectHeader name prefix
           \<longrightarrow> \<not> caller_header_forbidden name \<and> length prefix \<le> 256 \<and> \<not> has_byte newline_bytes prefix)"

definition config_wf :: "bool \<Rightarrow> validated_config \<Rightarrow> bool" where
  "config_wf allow_http v \<longleftrightarrow>
     bt_wf (vc_destinations v) \<and> bt_wf (vc_secrets v)
     \<and> (\<forall>(k, d) \<in> set (vc_destinations v). ed_id d = k \<and> destination_wf allow_http d
           \<and> set (ed_redirect_to d) \<subseteq> fst ` set (vc_destinations v))
     \<and> (\<forall>(k, s) \<in> set (vc_secrets v). es_id s = k \<and> secret_wf (fst ` set (vc_destinations v)) s)
     \<and> (vc_enabled v \<longrightarrow> vc_destinations v \<noteq> [])"

lemma validate_secret_wf:
  assumes "validate_secret m s = Inr s'"
  shows "secret_wf (fst ` set m) s'" and "es_id s' = es_id s"
proof -
  have ids: "\<not> list_ex (\<lambda>i. map_of m i = None) is \<longleftrightarrow> set is \<subseteq> fst ` set m" for "is"
    by (auto simp: list_ex_iff map_of_eq_None_iff)
  from assms have base: "es_id s \<noteq> []" "es_version s \<noteq> 0" "es_env s \<noteq> []" "es_destinations s \<noteq> []"
    "set (es_destinations s) \<subseteq> fst ` set m"
    unfolding ids [symmetric]
    by (auto simp: validate_secret_def validate_identifier_def validate_env_name_def split: if_splits sum.splits)
  have inj: "s' = (case es_injection s of AuthorizationBearer \<Rightarrow> s
      | InjectHeader name prefix \<Rightarrow> s\<lparr>es_injection := InjectHeader (to_ascii_lowercase name) prefix\<rparr>)
    \<and> (\<forall>name prefix. es_injection s = InjectHeader name prefix \<longrightarrow>
        \<not> caller_header_forbidden (to_ascii_lowercase name) \<and> length prefix \<le> 256 \<and> \<not> has_byte newline_bytes prefix)"
    using assms by (cases "es_injection s") (auto simp: validate_secret_def Let_def split: if_splits sum.splits)
  then show "es_id s' = es_id s" by (auto split: egress_secret_injection.splits)
  show "secret_wf (fst ` set m) s'"
    using base inj by (cases "es_injection s") (auto simp: secret_wf_def)
qed

lemma validate_secrets_wf:
  assumes "validate_secrets ds m ss = Inr m'" "bt_wf m"
    and "\<forall>(k, s) \<in> set m. es_id s = k \<and> secret_wf (fst ` set ds) s"
  shows "bt_wf m' \<and> (\<forall>(k, s) \<in> set m'. es_id s = k \<and> secret_wf (fst ` set ds) s)
    \<and> fst ` set m' = fst ` set m \<union> es_id ` set ss"
  using assms
proof (induction ds m ss rule: validate_secrets.induct)
  case (2 ds m s ss)
  from "2.prems"(1) obtain s' where s': "validate_secret ds s = Inr s'" "map_of m (es_id s') = None"
    "validate_secrets ds (bt_insert (es_id s') s' m) ss = Inr m'"
    by (auto split: sum.splits if_splits)
  have "\<forall>(k, e) \<in> set (bt_insert (es_id s') s' m). es_id e = k \<and> secret_wf (fst ` set ds) e"
    using "2.prems"(3) validate_secret_wf(1) [OF s'(1)] set_bt_insert [of "es_id s'" s' m] by auto
  with "2.IH" [OF s'(1) _ s'(3) bt_wf_insert [OF "2.prems"(2)]] s'(2)
  show ?case by (simp add: set_fst_bt_insert validate_secret_wf(2) [OF s'(1)])
qed simp

lemma validate_config_parts:
  assumes "validate_config parse_url c allow_http = Inr v"
  obtains ds ss where "validate_destinations parse_url allow_http [] (ec_destinations c) = Inr ds"
    "\<forall>d \<in> set (map snd ds). unknown_redirect ds d = Inr ()"
    "validate_secrets ds [] (ec_secrets c) = Inr ss" "\<not> (ec_enabled c \<and> ds = [])"
    "v = \<lparr>vc_enabled = ec_enabled c, vc_session_limits = ec_session_limits c, vc_destinations = ds, vc_secrets = ss\<rparr>"
  using assms by (auto simp: validate_config_def check_all_Inr split: sum.splits if_splits)

lemma unknown_redirect_Inr: "unknown_redirect m d = Inr () \<longleftrightarrow> set (ed_redirect_to d) \<subseteq> fst ` set m"
  by (auto simp: unknown_redirect_def check_all_Inr map_of_eq_None_iff split: if_splits)

lemma validate_config_wf_aux:
  assumes "validate_config parse_url c allow_http = Inr v"
  shows "config_wf allow_http v"
    and "fst ` set (vc_destinations v) = ed_id ` set (ec_destinations c)"
    and "fst ` set (vc_secrets v) = es_id ` set (ec_secrets c)"
    and "vc_enabled v = ec_enabled c"
proof -
  from assms obtain ds ss where p: "validate_destinations parse_url allow_http [] (ec_destinations c) = Inr ds"
    "\<forall>d \<in> set (map snd ds). unknown_redirect ds d = Inr ()"
    "validate_secrets ds [] (ec_secrets c) = Inr ss" "\<not> (ec_enabled c \<and> ds = [])"
    "v = \<lparr>vc_enabled = ec_enabled c, vc_session_limits = ec_session_limits c, vc_destinations = ds, vc_secrets = ss\<rparr>"
    by (rule validate_config_parts)
  have nil: "bt_wf []" by (simp add: bt_wf_def)
  note d = validate_destinations_wf [OF p(1) nil] and s = validate_secrets_wf [OF p(3) nil]
  show "config_wf allow_http v"
    using d(1,2) s p(2,4) by (fastforce simp: config_wf_def p(5) unknown_redirect_Inr)
  show "fst ` set (vc_destinations v) = ed_id ` set (ec_destinations c)"
    "fst ` set (vc_secrets v) = es_id ` set (ec_secrets c)" "vc_enabled v = ec_enabled c"
    using d(3) s by (simp_all add: p(5))
qed

subsection \<open>The check at start-up implies the one of the runtime\<close>

text \<open>What \<open>validate_config\<close> relies on when it parses the lower-cased host: hosts of HTTPS origins are
  case-insensitive for the URL parser.\<close>

definition hosts_ignore_case :: "url_parser \<Rightarrow> bool" where
  "hosts_ignore_case parse_url \<longleftrightarrow>
     (\<forall>host port u. \<not> has_byte ''/@?#'' host \<and> parse_url (origin_text ''https'' host port) = Some u \<longrightarrow>
        (\<exists>u'. parse_url (origin_text ''https'' (to_ascii_lowercase host) port) = Some u'
           \<and> (url_host_str u \<noteq> None \<longrightarrow> url_host_str u' \<noteq> None)
           \<and> (url_username u = [] \<longrightarrow> url_username u' = [])
           \<and> (url_password u = None \<longrightarrow> url_password u' = None)))"

lemma byte_ascii_lower: "byte (ascii_lower b) = (if is_ascii_uppercase (byte b) then byte b + 32 else byte b)"
  by (auto simp: ascii_lower_def is_ascii_uppercase_def)

lemma byte_ascii_upper: "byte (ascii_upper b) = (if is_ascii_lowercase (byte b) then byte b - 32 else byte b)"
  by (auto simp: ascii_upper_def is_ascii_lowercase_def)

lemma ascii_lower_idem [simp]: "ascii_lower (ascii_lower b) = ascii_lower b"
  using byte_ascii_lower [of b] by (auto simp: ascii_lower_def [of "ascii_lower b"] is_ascii_uppercase_def split: if_splits)

lemma lowercase_idem [simp]: "to_ascii_lowercase (to_ascii_lowercase s) = to_ascii_lowercase s"
  by (simp add: to_ascii_lowercase_def)

lemma eq_ignore_lowercase [simp]: "eq_ignore_ascii_case (to_ascii_lowercase a) b = eq_ignore_ascii_case a b"
  by (simp add: eq_ignore_ascii_case_def)

lemma forbidden_lowercase [simp]: "caller_header_forbidden (to_ascii_lowercase h) = caller_header_forbidden h"
  by (simp add: caller_header_forbidden_def list_ex_iff)

lemma host_forbidden_eq: "host_caller_header_forbidden = caller_header_forbidden"
  by (auto simp: fun_eq_iff host_caller_header_forbidden_def caller_header_forbidden_def FORBIDDEN_CALLER_HEADERS_def)

lemma host_ambiguous_eq: "host_has_ambiguous_path_encoding = has_ambiguous_path_encoding"
  by (auto simp: fun_eq_iff host_has_ambiguous_path_encoding_def has_ambiguous_path_encoding_def)

lemma header_name_lowercase:
  assumes "host_validate_header_name h = Inr ()"
  shows "validate_header_name (to_ascii_lowercase h) = Inr ()"
proof -
  have "is_ascii_alphanumeric (byte b) \<or> byte b \<in> set HEADER_NAME_BYTES
      \<Longrightarrow> is_ascii_alphanumeric (byte (ascii_lower b)) \<or> byte (ascii_lower b) \<in> set HEADER_NAME_BYTES" for b
    by (auto simp: byte_ascii_lower ascii_defs)
  with assms show ?thesis
    by (auto simp: host_validate_header_name_def validate_header_name_def to_ascii_lowercase_def list_all_iff split: if_splits)
qed

lemma method_uppercase:
  assumes "m \<noteq> []" "length m \<le> 16" "list_all (\<lambda>b. is_ascii_alphabetic (byte b) \<or> b = CHR ''-'') m"
  shows "valid_method (to_ascii_uppercase m)"
proof -
  have "is_ascii_alphabetic (byte b) \<or> b = CHR ''-'' \<Longrightarrow> is_ascii_uppercase (byte (ascii_upper b)) \<or> ascii_upper b = CHR ''-''" for b
    by (cases "b = CHR ''-''") (auto simp: byte_ascii_upper ascii_defs, auto simp: ascii_upper_def ascii_defs)
  with assms show ?thesis by (auto simp: valid_method_def to_ascii_uppercase_def list_all_iff)
qed

lemma identifier_eq: "host_validate_identifier k v = Inr () \<longleftrightarrow> validate_identifier k' v = Inr ()"
  by (auto simp: host_validate_identifier_def validate_identifier_def)

lemma host_destination_Inr:
  assumes "host_validate_destination parse_url seen d = Inr ()"
  shows "validate_identifier ''destination id'' (ed_id d) = Inr ()" "ed_id d \<notin> set seen" "ed_version d \<noteq> 0"
    "ed_scheme d = ''https''" "ed_port d \<noteq> 0" "host_invalid_origin parse_url d = None" "ed_path_prefixes d \<noteq> []"
    "\<forall>p \<in> set (ed_path_prefixes d). \<not> invalid_prefix p" "ed_methods d \<noteq> []"
    "\<forall>m \<in> set (ed_methods d). valid_method (to_ascii_uppercase m)" "ed_max_redirects d \<le> 5"
    "\<not> host_limits_invalid d"
    "\<forall>h \<in> set (ed_allowed_request_headers d). host_validate_header_name h = Inr () \<and> \<not> caller_header_forbidden h"
proof -
  from assms have i: "host_validate_identifier ''egress destination id'' (ed_id d) = Inr ()"
    by (auto simp: host_validate_destination_def split: sum.splits)
  then show "validate_identifier ''destination id'' (ed_id d) = Inr ()" by (rule iffD1 [OF identifier_eq])
  show "\<forall>m \<in> set (ed_methods d). valid_method (to_ascii_uppercase m)"
    using assms i by (auto simp: host_validate_destination_def list_ex_iff intro!: method_uppercase split: if_splits option.splits)
  show "ed_id d \<notin> set seen" "ed_version d \<noteq> 0" "ed_scheme d = ''https''" "ed_port d \<noteq> 0"
    "host_invalid_origin parse_url d = None" "ed_path_prefixes d \<noteq> []" "ed_methods d \<noteq> []"
    "ed_max_redirects d \<le> 5" "\<not> host_limits_invalid d"
    "\<forall>p \<in> set (ed_path_prefixes d). \<not> invalid_prefix p"
    "\<forall>h \<in> set (ed_allowed_request_headers d). host_validate_header_name h = Inr () \<and> \<not> caller_header_forbidden h"
    using assms i
    by (auto simp: host_validate_destination_def check_all_Inr check_header_Inr host_forbidden_eq host_ambiguous_eq
        list_ex_iff invalid_prefix_def split: if_splits option.splits)
qed

lemma lowercase_https [simp]: "to_ascii_lowercase ''https'' = ''https''"
  by (simp add: to_ascii_lowercase_def ascii_lower_def is_ascii_uppercase_def)

lemma ascii_lower_low: "byte (ascii_lower b) < 97 \<Longrightarrow> ascii_lower b = b"
  using byte_ascii_lower [of b] by (cases "is_ascii_uppercase (byte b)") (auto simp: ascii_lower_def is_ascii_uppercase_def)

lemma has_byte_lowercase:
  assumes "\<not> has_byte ''/@?#'' h"
  shows "\<not> has_byte ''/@?#'' (to_ascii_lowercase h)"
proof
  assume "has_byte ''/@?#'' (to_ascii_lowercase h)"
  then obtain b where b: "b \<in> set h" "ascii_lower b \<in> set ''/@?#''"
    by (auto simp only: has_byte_def to_ascii_lowercase_def list_ex_iff set_map)
  then have "byte (ascii_lower b) < 97" by auto
  then have "ascii_lower b = b" by (rule ascii_lower_low)
  with b assms show False unfolding has_byte_def list_ex_iff by metis
qed

lemma host_destination_accepted:
  assumes host: "host_validate_destination parse_url seen d = Inr ()" and case_ok: "hosts_ignore_case parse_url"
  shows "\<exists>d'. validate_destination parse_url False d = Inr d'"
proof -
  note h = host_destination_Inr [OF host]
  let ?d = "d\<lparr>ed_scheme := ''https'', ed_host := to_ascii_lowercase (ed_host d)\<rparr>"
  from h(4,6) obtain u where u: "parse_url (origin_text ''https'' (ed_host d) (ed_port d)) = Some u"
    "url_host_str u \<noteq> None" "url_username u = []" "url_password u = None" "\<not> has_byte ''/@?#'' (ed_host d)"
    by (auto simp: host_invalid_origin_def split: option.splits if_splits)
  with case_ok obtain u' where u': "parse_url (origin_text ''https'' (to_ascii_lowercase (ed_host d)) (ed_port d)) = Some u'"
    "url_host_str u' \<noteq> None" "url_username u' = []" "url_password u' = None"
    unfolding hosts_ignore_case_def by blast
  then obtain name where name: "url_host_str u' = Some name" by blast
  have "normalize_origin parse_url False d = Inr (?d\<lparr>ed_host := to_ascii_lowercase name\<rparr>)"
    using h(1,3,4) u' name has_byte_lowercase [OF u(5)] by (simp add: normalize_origin_def Let_def)
  moreover have "\<exists>d'. normalize_rules (?d\<lparr>ed_host := to_ascii_lowercase name\<rparr>) = Inr d'"
  proof -
    have "check_all f (collect_set (map to_ascii_lowercase (ed_allowed_request_headers d))) = Inr ()"
      if "\<And>x. f x = (case validate_header_name x of Inl e \<Rightarrow> Inl e
            | Inr _ \<Rightarrow> if caller_header_forbidden x then Inl (g x) else Inr ())" for f g
      unfolding check_all_Inr that check_header_Inr using h(13) header_name_lowercase by auto
    then show ?thesis
      using h(5,7-12) by (auto simp: normalize_rules_def Let_def list_ex_iff not_less
          validate_destination_limits_def host_limits_invalid_def split: sum.splits)
  qed
  ultimately show ?thesis by (simp add: validate_destination_def)
qed

lemma host_destinations_accepted:
  assumes "host_validate_destinations parse_url seen ds = Inr ids" "hosts_ignore_case parse_url"
    and "fst ` set m = set seen"
  shows "\<exists>m'. validate_destinations parse_url False m ds = Inr m'" and "set ids = set seen \<union> ed_id ` set ds"
proof -
  have "(\<exists>m'. validate_destinations parse_url False m ds = Inr m') \<and> set ids = set seen \<union> ed_id ` set ds"
    using assms
  proof (induction ds arbitrary: seen m)
    case (Cons d ds)
    from Cons.prems(1) have d: "host_validate_destination parse_url seen d = Inr ()"
        "host_validate_destinations parse_url (ed_id d # seen) ds = Inr ids"
      by (auto split: sum.splits)
    obtain d' where d': "validate_destination parse_url False d = Inr d'"
      using host_destination_accepted [OF d(1) Cons.prems(2)] by blast
    note i = validate_destination_wf(2) [OF d']
    have "fst ` set (bt_insert (ed_id d') d' m) = set (ed_id d # seen)"
      using Cons.prems(3) by (simp add: set_fst_bt_insert i)
    note IH = Cons.IH [OF d(2) Cons.prems(2) this]
    have "map_of m (ed_id d') = None"
      using host_destination_Inr(2) [OF d(1)] Cons.prems(3) by (simp add: map_of_eq_None_iff i)
    with IH show ?case by (auto simp: d')
  qed simp
  then show "\<exists>m'. validate_destinations parse_url False m ds = Inr m'" "set ids = set seen \<union> ed_id ` set ds" by auto
qed

lemma validate_destinations_redirects:
  assumes "validate_destinations parse_url allow_http m ds = Inr m'"
    and "\<forall>d \<in> set ds. P (ed_redirect_to d)" "\<forall>(k, d) \<in> set m. P (ed_redirect_to d)"
  shows "\<forall>(k, d) \<in> set m'. P (ed_redirect_to d)"
  using assms
proof (induction parse_url allow_http m ds rule: validate_destinations.induct)
  case (2 parse_url allow_http m d ds)
  from "2.prems"(1) obtain d' where d': "validate_destination parse_url allow_http d = Inr d'"
    "map_of m (ed_id d') = None" "validate_destinations parse_url allow_http (bt_insert (ed_id d') d' m) ds = Inr m'"
    by (auto split: sum.splits if_splits)
  have "\<forall>(k, e) \<in> set (bt_insert (ed_id d') d' m). P (ed_redirect_to e)"
    using "2.prems"(2,3) validate_destination_wf(3) [OF d'(1)] set_bt_insert [of "ed_id d'" d' m] by auto
  with "2.IH" [OF d'(1) _ d'(3)] d'(2) "2.prems"(2) show ?case by simp
qed simp

lemma host_secret_accepted:
  assumes "host_validate_secret ids seen s = Inr ()" "set ids = fst ` set ds"
  shows "\<exists>s'. validate_secret ds s = Inr s'" and "es_id s \<notin> set seen"
proof -
  have ids: "list_ex (\<lambda>i. map_of ds i = None) xs \<longleftrightarrow> list_ex (\<lambda>i. i \<notin> set ids) xs" for xs
    by (simp add: assms(2) list_ex_iff map_of_eq_None_iff)
  from assms(1) have i: "validate_identifier ''secret id'' (es_id s) = Inr ()"
    by (auto simp: host_validate_secret_def intro: iffD1 [OF identifier_eq] split: sum.splits)
  show "es_id s \<notin> set seen" using assms(1) by (auto simp: host_validate_secret_def split: sum.splits)
  show "\<exists>s'. validate_secret ds s = Inr s'"
  proof (cases "es_injection s")
    case AuthorizationBearer
    then show ?thesis using assms(1) i
      by (auto simp: validate_secret_def host_validate_secret_def validate_env_name_def ids split: sum.splits if_splits)
  next
    case (InjectHeader name prefix)
    with assms(1) have "host_validate_header_name name = Inr ()"
      by (auto simp: host_validate_secret_def split: sum.splits if_splits)
    from header_name_lowercase [OF this] show ?thesis using InjectHeader assms(1) i
      by (auto simp: validate_secret_def host_validate_secret_def validate_env_name_def ids host_forbidden_eq Let_def
          split: sum.splits if_splits)
  qed
qed

lemma host_secrets_accepted:
  assumes "host_validate_secrets ids seen ss = Inr ()" "set ids = fst ` set ds" "fst ` set m = set seen"
  shows "\<exists>m'. validate_secrets ds m ss = Inr m'"
  using assms
proof (induction ss arbitrary: seen m)
  case (Cons s ss)
  from Cons.prems(1) have s: "host_validate_secret ids seen s = Inr ()" "host_validate_secrets ids (es_id s # seen) ss = Inr ()"
    by (auto split: sum.splits)
  obtain s' where s': "validate_secret ds s = Inr s'" using host_secret_accepted(1) [OF s(1) Cons.prems(2)] by blast
  note i = validate_secret_wf(2) [OF s']
  have "map_of m (es_id s') = None"
    using host_secret_accepted(2) [OF s(1) Cons.prems(2)] Cons.prems(3) by (simp add: map_of_eq_None_iff i)
  moreover have "fst ` set (bt_insert (es_id s') s' m) = set (es_id s # seen)"
    using Cons.prems(3) by (simp add: set_fst_bt_insert i)
  ultimately show ?case using Cons.IH [OF s(2) Cons.prems(2)] by (simp add: s')
qed simp

text \<open>C17. A policy that passes the check at start-up is accepted by the runtime: where
  \<open>EgressConfig::validate\<close> succeeds, \<open>validate_config\<close> in production mode returns a policy that keeps
  every destination and every secret under its identifier, and is well formed: HTTPS only,
  positive versions, ports and limits, absolute unambiguous path prefixes, upper-case methods, at
  most five redirects, redirects and secrets that name configured destinations only, and no
  credential or hop-by-hop header that a caller could set or a secret could be injected into. Hosts
  of origins are taken to be case-insensitive for the URL parser.\<close>

theorem production_config_accepted:
  assumes host: "config_validate parse_url c = Inr ()" and case_ok: "hosts_ignore_case parse_url"
  shows "\<exists>v. validate_config parse_url c False = Inr v \<and> config_wf False v
    \<and> fst ` set (vc_destinations v) = ed_id ` set (ec_destinations c)
    \<and> fst ` set (vc_secrets v) = es_id ` set (ec_secrets c)"
proof -
  from host obtain ids where ids: "host_validate_destinations parse_url [] (ec_destinations c) = Inr ids"
    "validate_session_limits (ec_session_limits c) = Inr ()" "\<not> (ec_enabled c \<and> ec_destinations c = [])"
    "\<forall>d \<in> set (ec_destinations c). set (ed_redirect_to d) \<subseteq> set ids" "host_validate_secrets ids [] (ec_secrets c) = Inr ()"
    by (auto simp: config_validate_def validate_session_limits_def list_ex_iff split: sum.splits if_splits)
  obtain ds where ds: "validate_destinations parse_url False [] (ec_destinations c) = Inr ds"
    using host_destinations_accepted(1) [OF ids(1) case_ok, of "[]"] by auto
  have dom: "fst ` set ds = ed_id ` set (ec_destinations c)" "set ids = fst ` set ds"
    using validate_destinations_wf(3) [OF ds] host_destinations_accepted(2) [OF ids(1) case_ok, of "[]"]
    by (simp_all add: bt_wf_def)
  have "\<forall>(k, d) \<in> set ds. set (ed_redirect_to d) \<subseteq> fst ` set ds"
    by (rule validate_destinations_redirects [OF ds]) (use ids(4) dom(2) in simp_all)
  then have "check_all (unknown_redirect ds) (map snd ds) = Inr ()"
    by (simp add: check_all_Inr unknown_redirect_Inr split_beta)
  moreover obtain ss where "validate_secrets ds [] (ec_secrets c) = Inr ss"
    using host_secrets_accepted [OF ids(5) dom(2), of "[]"] by auto
  moreover have "\<not> (ec_enabled c \<and> ds = [])" using ids(3) dom(1) by auto
  ultimately obtain v where v: "validate_config parse_url c False = Inr v"
    using ids(2) ds by (simp add: validate_config_def)
  from validate_config_wf_aux [OF v] v show ?thesis by simp
qed

subsection \<open>What authorization establishes\<close>

lemma str_split_append: "str_split c (xs @ c # ys) = str_split c xs @ str_split c ys"
  by (induction xs) (auto split: list.splits)

definition prefix_segments :: "string \<Rightarrow> string list" where
  "prefix_segments p =
     (if ends_with p ''/'' then butlast (str_split (CHR ''/'') p) else str_split (CHR ''/'') p)"

lemma prefix_segments_slash: "prefix_segments (q @ ''/'') = str_split (CHR ''/'') q"
  using str_split_append [of "CHR ''/''" q "[]"] by (simp add: prefix_segments_def ends_with_iff)

lemma path_prefix_segments:
  assumes "path_prefix_matches p path" "starts_with path ''/''"
  shows "\<exists>rest. str_split (CHR ''/'') path = prefix_segments p @ rest"
proof -
  from assms(2) obtain r where r: "path = CHR ''/'' # r" by (auto simp: starts_with_iff)
  from assms(1) consider "p = ''/''" | "p = path" | q where "path = p @ q" "ends_with p ''/'' \<or> starts_with q ''/''"
    by (auto simp: path_prefix_matches_def strip_prefix_Some split: option.splits if_splits)
  then show ?thesis
  proof cases
    case 1
    then show ?thesis using prefix_segments_slash [of "[]"] r by simp
  next
    case 2
    then show ?thesis
      by (cases "ends_with p ''/''") (auto simp: prefix_segments_def intro: exI [of _ "[last (str_split (CHR ''/'') p)]"])
  next
    case (3 q)
    show ?thesis
    proof (cases "ends_with p ''/''")
      case True
      then obtain s where "p = s @ ''/''" by (auto simp: ends_with_iff)
      with 3 show ?thesis using str_split_append [of "CHR ''/''" s q] by (simp add: prefix_segments_slash)
    next
      case False
      with 3 obtain s where "q = CHR ''/'' # s" by (auto simp: starts_with_iff)
      with 3 False show ?thesis using str_split_append [of "CHR ''/''" p s] by (simp add: prefix_segments_def)
    qed
  qed
qed

text \<open>The path of a parsed HTTP or HTTPS URL is absolute, as the URL standard has it.\<close>

definition absolute_paths :: "url_parser \<Rightarrow> bool" where
  "absolute_paths parse_url \<longleftrightarrow>
     (\<forall>s u. parse_url s = Some u \<and> url_scheme u \<in> {''http'', ''https''} \<longrightarrow> starts_with (url_path u) ''/'')"

lemma authorize_Inr:
  "authorize parse_url v url method = Inr a \<longleftrightarrow>
     vc_enabled v \<and> length url \<le> 8192 \<and> parse_url url = Some (ad_url a) \<and> \<not> url_shape_denied (ad_url a)
     \<and> (\<exists>port. url_port_or_known_default (ad_url a) = Some port
          \<and> find (destination_matches (ad_url a) (to_ascii_lowercase (the (url_host_str (ad_url a)))) port
                    (to_ascii_uppercase method)) (map snd (vc_destinations v)) = Some (ad_policy a))"
  by (cases a) (auto simp: authorize_def Let_def split: option.splits if_splits)

text \<open>C9. Authorization lets only allowlisted URLs through. Under a validated production policy, a URL
  is authorized for a method only if egress is enabled and the URL has at most 8 KiB, is HTTPS, names
  no user, password or fragment, and matches a configured destination: the same host (ignoring case)
  and effective port, an allowed method, and a path whose segments begin with the segments of one of
  the destination's path prefixes, so that \<open>/v1/searchable\<close> does not match \<open>/v1/search\<close>. No segment
  of the path is a dot segment, and the path has no backslash. Paths of parsed URLs are taken to be
  absolute.\<close>

theorem authorize_sound:
  assumes auth: "authorize parse_url v url method = Inr a"
    and wf: "config_wf False v" and paths: "absolute_paths parse_url"
  shows "vc_enabled v \<and> length url \<le> 8192 \<and> parse_url url = Some (ad_url a)
    \<and> (ed_id (ad_policy a), ad_policy a) \<in> set (vc_destinations v)
    \<and> url_scheme (ad_url a) = ''https'' \<and> ed_scheme (ad_policy a) = ''https''
    \<and> (\<exists>host. url_host_str (ad_url a) = Some host \<and> to_ascii_lowercase host = ed_host (ad_policy a))
    \<and> url_port_or_known_default (ad_url a) = Some (ed_port (ad_policy a))
    \<and> url_username (ad_url a) = [] \<and> url_password (ad_url a) = None \<and> url_fragment (ad_url a) = None
    \<and> to_ascii_uppercase method \<in> set (ed_methods (ad_policy a))
    \<and> (\<exists>p \<in> set (ed_path_prefixes (ad_policy a)). \<exists>rest.
          str_split (CHR ''/'') (url_path (ad_url a)) = prefix_segments p @ rest)
    \<and> ''.'' \<notin> set (str_split (CHR ''/'') (url_path (ad_url a)))
    \<and> ''..'' \<notin> set (str_split (CHR ''/'') (url_path (ad_url a)))
    \<and> CHR 0x5C \<notin> set (url_path (ad_url a))"
proof -
  from auth obtain port where base: "vc_enabled v" "length url \<le> 8192" "parse_url url = Some (ad_url a)"
      "\<not> url_shape_denied (ad_url a)" "url_port_or_known_default (ad_url a) = Some port"
    and f: "find (destination_matches (ad_url a) (to_ascii_lowercase (the (url_host_str (ad_url a)))) port
        (to_ascii_uppercase method)) (map snd (vc_destinations v)) = Some (ad_policy a)"
    by (auto simp: authorize_Inr)
  from f have m: "destination_matches (ad_url a) (to_ascii_lowercase (the (url_host_str (ad_url a)))) port
      (to_ascii_uppercase method) (ad_policy a)" and "ad_policy a \<in> snd ` set (vc_destinations v)"
    by (auto simp: find_Some_iff)
  then have d: "(ed_id (ad_policy a), ad_policy a) \<in> set (vc_destinations v)" "destination_wf False (ad_policy a)"
    using wf by (auto simp: config_wf_def)
  then have https: "url_scheme (ad_url a) = ''https''" using m by (simp add: destination_wf_def destination_matches_def)
  with paths base(3) have "starts_with (url_path (ad_url a)) ''/''" by (auto simp: absolute_paths_def)
  then have "\<exists>p \<in> set (ed_path_prefixes (ad_policy a)). \<exists>rest.
      str_split (CHR ''/'') (url_path (ad_url a)) = prefix_segments p @ rest"
    using m path_prefix_segments unfolding destination_matches_def list_ex_iff by blast
  then show ?thesis
    using base d https m
    by (auto simp: destination_matches_def url_shape_denied_def has_ambiguous_path_encoding_def has_byte_def list_ex_iff)
qed

subsection \<open>A sample policy\<close>

text \<open>A parser for the URLs of the example.\<close>

definition sample_url :: "string \<Rightarrow> url" where
  "sample_url path =
     \<lparr>url_as_str = ''https://api.example.com'' @ path, url_scheme = ''https'',
      url_host_str = Some ''api.example.com'', url_username = [], url_password = None,
      url_fragment = None, url_path = path, url_query = None,
      url_port_or_known_default = Some 443, url_cannot_be_a_base = False\<rparr>"

definition sample_parse_url :: url_parser where
  "sample_parse_url s =
     (if ends_with s ''/'' then Some (sample_url ''/'')
      else if s = ''https://api.example.com/v1/search'' then Some (sample_url ''/v1/search'')
      else None)"

definition sample_destination :: egress_destination where
  "sample_destination = default_destination ''research'' ''https'' ''api.example.com'' 443"

definition sample_secret :: egress_secret where
  "sample_secret = \<lparr>es_id = ''api'', es_version = 1, es_env = ''API_TOKEN'', es_destinations = [''research''],
     es_injection = AuthorizationBearer\<rparr>"

definition sample_config :: egress_config where
  "sample_config = \<lparr>ec_enabled = True, ec_session_limits = default_session_limits,
     ec_destinations = [sample_destination], ec_secrets = [sample_secret]\<rparr>"

definition sample_policy :: validated_config where
  "sample_policy = \<lparr>vc_enabled = True, vc_session_limits = default_session_limits,
     vc_destinations = [(''research'', sample_destination)], vc_secrets = [(''api'', sample_secret)]\<rparr>"

lemma sample_hosts_ignore_case: "hosts_ignore_case sample_parse_url"
proof -
  have "ends_with (origin_text s h p) ''/''" for s h p by (simp add: origin_text_def ends_with_iff)
  then show ?thesis by (simp add: hosts_ignore_case_def sample_parse_url_def)
qed

lemma sample_absolute_paths: "absolute_paths sample_parse_url"
  by (auto simp: absolute_paths_def sample_parse_url_def sample_url_def starts_with_def split: if_splits)

lemma sample_origin: "sample_parse_url (origin_text s h p) = Some (sample_url ''/'')"
  by (simp add: sample_parse_url_def origin_text_def ends_with_iff)

lemma sample_policy_texts [simp]:
  "to_ascii_lowercase ''api.example.com'' = ''api.example.com''" "to_ascii_uppercase ''GET'' = ''GET''"
  "collect_set [''GET''] = [''GET'']" "valid_method ''GET''" "\<not> has_byte ''/@?#'' ''api.example.com''"
  "validate_identifier k ''research'' = Inr ()" "validate_identifier k ''api'' = Inr ()"
  "validate_env_name ''API_TOKEN'' = Inr ()" "\<not> invalid_prefix ''/''"
  by (simp_all add: to_ascii_lowercase_def to_ascii_uppercase_def ascii_lower_def ascii_upper_def collect_set_def
      valid_method_def has_byte_def validate_identifier_def validate_env_name_def invalid_prefix_def starts_with_def
      newline_bytes_def has_ambiguous_path_encoding_def ascii_defs)

lemma sample_validate: "validate_config sample_parse_url sample_config False = Inr sample_policy"
proof -
  have "validate_destination sample_parse_url False sample_destination = Inr sample_destination"
    by (simp add: validate_destination_def normalize_origin_def normalize_rules_def sample_origin sample_url_def
        validate_destination_limits_def check_all_def collect_set_def sample_destination_def default_destination_def)
  moreover have "ed_id sample_destination = ''research''" "ed_redirect_to sample_destination = []"
    by (simp_all add: sample_destination_def default_destination_def)
  moreover have "validate_secret [(''research'', d)] sample_secret = Inr sample_secret" "es_id sample_secret = ''api''" for d
    by (simp_all add: validate_secret_def sample_secret_def)
  ultimately show ?thesis
    by (simp add: validate_config_def validate_session_limits_def check_all_def unknown_redirect_def
        sample_config_def sample_policy_def default_session_limits_def)
qed

lemma sample_host_validate: "config_validate sample_parse_url sample_config = Inr ()"
proof -
  have ids: "host_validate_identifier k ''research'' = Inr ()" "host_validate_identifier k ''api'' = Inr ()" for k
    by (simp_all add: host_validate_identifier_def ascii_defs)
  have "host_validate_destination sample_parse_url [] sample_destination = Inr ()"
    by (simp add: host_validate_destination_def host_invalid_origin_def sample_origin sample_url_def host_limits_invalid_def
        check_all_def ids sample_destination_def default_destination_def starts_with_def newline_bytes_def
        has_byte_def host_has_ambiguous_path_encoding_def to_ascii_lowercase_def ascii_lower_def ascii_defs)
  moreover have "host_validate_secret [''research''] [] sample_secret = Inr ()"
    by (simp add: host_validate_secret_def ids sample_secret_def ascii_defs)
  moreover have "ed_id sample_destination = ''research''" "ed_redirect_to sample_destination = []"
    by (simp_all add: sample_destination_def default_destination_def)
  ultimately show ?thesis
    by (simp add: config_validate_def sample_config_def default_session_limits_def)
qed

theorem production_config_accepted_witness:
  "config_validate sample_parse_url sample_config = Inr ()
   \<and> (\<exists>v. validate_config sample_parse_url sample_config False = Inr v \<and> config_wf False v
        \<and> fst ` set (vc_destinations v) = {''research''})"
  using production_config_accepted [OF sample_host_validate sample_hosts_ignore_case] sample_host_validate
  by (auto simp: sample_config_def sample_destination_def default_destination_def)

lemma sample_authorize:
  "authorize sample_parse_url sample_policy ''https://api.example.com/v1/search'' ''GET''
     = Inr \<lparr>ad_policy = sample_destination, ad_url = sample_url ''/v1/search''\<rparr>"
  by (simp add: authorize_def sample_parse_url_def ends_with_def sample_policy_def url_shape_denied_def
      sample_url_def has_byte_def has_ambiguous_path_encoding_def to_ascii_lowercase_def ascii_lower_def ascii_defs
      starts_with_def destination_matches_def sample_destination_def default_destination_def path_prefix_matches_def Let_def)

theorem authorize_sound_witness:
  "\<exists>a. authorize sample_parse_url sample_policy ''https://api.example.com/v1/search'' ''GET'' = Inr a
     \<and> url_scheme (ad_url a) = ''https'' \<and> to_ascii_uppercase ''GET'' \<in> set (ed_methods (ad_policy a))"
  using authorize_sound [OF sample_authorize validate_config_wf_aux(1) [OF sample_validate] sample_absolute_paths]
    sample_authorize by blast

end
