(* ===== verification/Egress_Runtime.thy ===== *)
theory Egress_Runtime
  imports Egress_Resolver Egress_Policy
begin

text \<open>
  The state of the egress runtime and its administration, the first half of
  \<open>tm-egress/src/runtime.rs\<close>: policy replacement and revocation, opaque secret handles, and the
  checks every request makes against a snapshot of the policy.

  \<^item> A call runs in a world that holds the runtime's own state and, in \<open>eg_rest\<close>, everything else.
    The parts of the outside the code calls (clock, random numbers, environment variables, DNS,
    the HTTP client, the digest and the JSON encoder) are the members of \<open>egress_env\<close>; they act on
    the whole world, because other tasks may use the runtime while a call waits for them.
  \<^item> A call is a function of type \<open>run\<close> (\<open>eg\<close> where the errors are those of the runtime): it returns a
    result, the observations it made and the new world. The observations (\<open>hop_event\<close>) record, in
    order, the reservations, the requests handed to the HTTP client, the settlements, the approvals
    granted and the mutation effects claimed and finished; the code does not see them.
  \<^item> Instants are numbers of milliseconds. A \<open>BTreeSet<TargetVersion>\<close> is a set of pairs.
\<close>

subsection \<open>State\<close>

record handle_record =
  hr_session_id :: string
  hr_actor_id :: "string option"
  hr_secret_id :: string
  hr_secret_version :: u64
  hr_expires_at :: nat

type_synonym target_version = "string \<times> u64"

record runtime_state =
  rs_config :: validated_config
  rs_revoked_destinations :: "target_version set"
  rs_revoked_secrets :: "target_version set"
  rs_generation :: u64

record egress_runtime =
  er_state :: runtime_state
  er_handles :: "(string \<times> handle_record) list"
  er_durable :: egress_store
  er_allow_http :: bool

record 'w egress_world =
  eg_runtime :: egress_runtime
  eg_rest :: 'w

record http_request =
  hq_method :: string
  hq_url :: string
  hq_headers :: "(string \<times> string) list"
  hq_body :: "string option"
  hq_auth :: "string option"
  hq_timeout_ms :: "u64 option"

record http_response =
  hp_status :: nat
  hp_body :: string
  hp_content_type :: "string option"
  hp_headers :: "(string \<times> string) list"
  hp_destination_id :: string
  hp_response_bytes :: nat
  hp_redirects :: "8 word"
  hp_secret_redactions :: nat

record resolved_secret =
  sec_config :: egress_secret
  sec_value :: string

record secret_snapshot =
  sn_handle_digest :: string
  sn_secret_id :: string
  sn_secret_version :: u64
  sn_expires_at :: nat

text \<open>What is handed to the HTTP client for one hop, and what comes back: \<open>reply_body\<close> lists the
  events of the body stream up to its end or to the moment the timer fires.\<close>

record client_request =
  cr_method :: string
  cr_url :: url
  cr_headers :: "(string \<times> string) list"
  cr_body :: "string option"
  cr_host :: string
  cr_pinned :: bool
  cr_addresses :: "socket_addr list"

datatype body_event = Chunk string | ChunkError | ChunkElapsed

record client_reply =
  reply_status :: nat
  reply_headers :: "(string \<times> string) list"
  reply_content_length :: "nat option"
  reply_body :: "body_event list"

datatype 'a awaited = Elapsed | Ready 'a

datatype hop_event =
    HReserved egress_budget_reservation
  | HSent egress_destination client_request
  | HSettled egress_budget_reservation u64 u64
  | HApproved string
  | HClaimed egress_mutation_record
  | HFinished string egress_mutation_status

record 'w egress_env =
  env_parse_url :: url_parser
  env_join :: "url \<Rightarrow> string \<Rightarrow> url option"
  env_parse_ip :: "string \<Rightarrow> ip_addr option"
  env_var :: "string \<Rightarrow> 'w egress_world \<Rightarrow> string option"
  env_now :: "'w egress_world \<Rightarrow> nat \<times> 'w egress_world"
  env_random :: "nat \<Rightarrow> 'w egress_world \<Rightarrow> string option \<times> 'w egress_world"
  env_resolve :: "string \<Rightarrow> u16 \<Rightarrow> 'w egress_world \<Rightarrow> socket_addr list egress_result awaited \<times> 'w egress_world"
  env_client :: "egress_destination \<Rightarrow> socket_addr list \<Rightarrow> bool"
  env_send :: "client_request \<Rightarrow> 'w egress_world \<Rightarrow> client_reply option awaited \<times> 'w egress_world"
  env_method :: "string \<Rightarrow> bool"
  env_header_name :: "string \<Rightarrow> string option"
  env_header_value :: "string \<Rightarrow> bool"
  env_header_text :: "string \<Rightarrow> string option"
  env_sha256 :: "string \<Rightarrow> string"
  env_hex :: "string \<Rightarrow> string"
  env_json_text :: "json \<Rightarrow> string option"
  env_destination_json :: "egress_destination \<Rightarrow> json"
  env_secret_json :: "egress_secret \<Rightarrow> json"
  env_effect_scope :: "'w egress_world invocation_ctx \<Rightarrow> string option"

subsection \<open>Calls\<close>

type_synonym ('e, 'a, 'w) run = "'w egress_world \<Rightarrow> ('e + 'a) \<times> hop_event list \<times> 'w egress_world"

type_synonym ('a, 'w) eg = "(egress_error, 'a, 'w) run"

definition eg_lift :: "'e + 'a \<Rightarrow> ('e, 'a, 'w) run" where
  "eg_lift r w = (r, [], w)"

definition eg_run :: "('w egress_world \<Rightarrow> ('e + 'a) \<times> 'w egress_world) \<Rightarrow> ('e, 'a, 'w) run" where
  "eg_run f w = (fst (f w), [], snd (f w))"

definition eg_get :: "('w egress_world \<Rightarrow> 'a) \<Rightarrow> ('e, 'a, 'w) run" where
  "eg_get f w = (Inr (f w), [], w)"

definition eg_observe :: "hop_event \<Rightarrow> ('e, unit, 'w) run" where
  "eg_observe h w = (Inr (), [h], w)"

definition eg_bind :: "('e, 'a, 'w) run \<Rightarrow> ('a \<Rightarrow> ('e, 'b, 'w) run) \<Rightarrow> ('e, 'b, 'w) run" where
  "eg_bind m f w =
     (case m w of
        (Inl e, tr, w') \<Rightarrow> (Inl e, tr, w')
      | (Inr x, tr, w') \<Rightarrow> (case f x w' of (r, tr', w'') \<Rightarrow> (r, tr @ tr', w'')))"

text \<open>The result of a call as a value, for code that matches on it.\<close>

definition eg_try :: "('a, 'w) eg \<Rightarrow> ('a egress_result, 'w) eg" where
  "eg_try m w = (case m w of (r, tr, w') \<Rightarrow> (Inr r, tr, w'))"

definition eg_now :: "'w egress_env \<Rightarrow> (nat, 'w) eg" where
  "eg_now env = eg_run (\<lambda>w. (Inr (fst (env_now env w)), snd (env_now env w)))"

definition random_token :: "'w egress_env \<Rightarrow> nat \<Rightarrow> (string, 'w) eg" where
  "random_token env bytes =
     eg_run (\<lambda>w. (case fst (env_random env bytes w) of None \<Rightarrow> Inl EgTransport | Some b \<Rightarrow> Inr (env_hex env b),
                 snd (env_random env bytes w)))"

definition audit :: "'w egress_world invocation_ctx \<Rightarrow> string \<Rightarrow> json \<Rightarrow> (unit, 'w) eg" where
  "audit ctx event_type details =
     eg_run (\<lambda>w. (case fst (emit_event ctx event_type details w) of Inl _ \<Rightarrow> Inl EgAudit | Inr _ \<Rightarrow> Inr (),
                 snd (emit_event ctx event_type details w)))"

definition on_runtime :: "(egress_runtime \<Rightarrow> egress_runtime) \<Rightarrow> 'w egress_world \<Rightarrow> 'w egress_world" where
  "on_runtime f w = w\<lparr>eg_runtime := f (eg_runtime w)\<rparr>"

text \<open>A call on the durable store.\<close>

definition durable :: "(egress_store \<Rightarrow> 'a egress_result \<times> egress_store) \<Rightarrow> ('a, 'w) eg" where
  "durable f =
     eg_run (\<lambda>w. let r = f (er_durable (eg_runtime w))
                 in (fst r, on_runtime (\<lambda>rt. rt\<lparr>er_durable := snd r\<rparr>) w))"

subsection \<open>Checks against a snapshot\<close>

definition require_session :: "'w invocation_ctx \<Rightarrow> unit egress_result" where
  "require_session ctx =
     (if session_id ctx = [] \<or> session_id ctx = ''default''
      then Inl (EgDenied ''egress requires an explicit session identity'') else Inr ())"

definition require_exact_grant :: "capability_grants \<Rightarrow> string \<Rightarrow> unit egress_result" where
  "require_exact_grant g required =
     (if required \<in> allowed g then Inr () else Inl (EgDenied (''missing exact grant '' @ required)))"

definition authorize_destination ::
    "'w invocation_ctx \<Rightarrow> runtime_state \<Rightarrow> egress_destination \<Rightarrow> unit egress_result" where
  "authorize_destination ctx state d =
     (case require_exact_grant (grants ctx) (''egress.destination:'' @ ed_id d) of
        Inl e \<Rightarrow> Inl e
      | Inr _ \<Rightarrow>
          if (ed_id d, ed_version d) \<in> rs_revoked_destinations state
          then Inl (EgRevoked ''destination'') else Inr ())"

definition ensure_secret_not_revoked :: "runtime_state \<Rightarrow> egress_secret \<Rightarrow> unit egress_result" where
  "ensure_secret_not_revoked state s =
     (if (es_id s, es_version s) \<in> rs_revoked_secrets state then Inl (EgRevoked ''secret'') else Inr ())"

definition authorize_secret_for_config ::
    "'w invocation_ctx \<Rightarrow> egress_secret \<Rightarrow> egress_destination \<Rightarrow> unit egress_result" where
  "authorize_secret_for_config ctx s d =
     (case require_exact_grant (grants ctx) (''secrets.use:'' @ es_id s) of
        Inl e \<Rightarrow> Inl e
      | Inr _ \<Rightarrow> if ed_id d \<notin> set (es_destinations s) then Inl EgInvalidSecretHandle else Inr ())"

definition authorize_secret_for_destination ::
    "'w invocation_ctx \<Rightarrow> runtime_state \<Rightarrow> resolved_secret \<Rightarrow> egress_destination \<Rightarrow> unit egress_result" where
  "authorize_secret_for_destination ctx state secret d =
     (case ensure_secret_not_revoked state (sec_config secret) of
        Inl e \<Rightarrow> Inl e
      | Inr _ \<Rightarrow> authorize_secret_for_config ctx (sec_config secret) d)"

subsection \<open>Administration\<close>

definition runtime_new :: "url_parser \<Rightarrow> egress_config \<Rightarrow> bool \<Rightarrow> egress_runtime egress_result" where
  "runtime_new parse_url c allow_http =
     (case validate_config parse_url c allow_http of
        Inl e \<Rightarrow> Inl e
      | Inr v \<Rightarrow>
          Inr \<lparr>er_state = \<lparr>rs_config = v, rs_revoked_destinations = {}, rs_revoked_secrets = {}, rs_generation = 1\<rparr>,
               er_handles = [], er_durable = egress_store_default, er_allow_http = allow_http\<rparr>)"

text \<open>The handles that survive a replacement; the clock is read once for every handle.\<close>

fun retain_handles ::
    "'w egress_env \<Rightarrow> (string \<times> egress_secret) list \<Rightarrow> (string \<times> handle_record) list \<Rightarrow> 'w egress_world
     \<Rightarrow> (string \<times> handle_record) list \<times> 'w egress_world" where
  "retain_handles env secrets [] w = ([], w)"
| "retain_handles env secrets ((token, h) # hs) w =
     (let now = env_now env w; rest = retain_handles env secrets hs (snd now);
          keep = (fst now < hr_expires_at h
                  \<and> (case map_of secrets (hr_secret_id h) of
                        None \<Rightarrow> False | Some s \<Rightarrow> es_version s = hr_secret_version h))
      in (if keep then (token, h) # fst rest else fst rest, snd rest))"

definition replaced_state :: "validated_config \<Rightarrow> runtime_state \<Rightarrow> runtime_state" where
  "replaced_state v state =
     \<lparr>rs_config = v,
      rs_revoked_destinations = {t \<in> rs_revoked_destinations state.
        case map_of (vc_destinations v) (fst t) of None \<Rightarrow> False | Some d \<Rightarrow> ed_version d = snd t},
      rs_revoked_secrets = {t \<in> rs_revoked_secrets state.
        case map_of (vc_secrets v) (fst t) of None \<Rightarrow> False | Some s \<Rightarrow> es_version s = snd t},
      rs_generation = sat_add (rs_generation state) 1\<rparr>"

definition replace_policy :: "'w egress_env \<Rightarrow> egress_config \<Rightarrow> (unit, 'w) eg" where
  "replace_policy env c =
     eg_run (\<lambda>w.
       (case validate_config (env_parse_url env) c (er_allow_http (eg_runtime w)) of
          Inl e \<Rightarrow> (Inl e, w)
        | Inr v \<Rightarrow>
            let w1 = on_runtime (\<lambda>rt. rt\<lparr>er_state := replaced_state v (er_state rt)\<rparr>) w;
                kept = retain_handles env (vc_secrets v) (er_handles (eg_runtime w1)) w1
            in (Inr (), on_runtime (\<lambda>rt. rt\<lparr>er_handles := fst kept\<rparr>) (snd kept))))"

definition revoke_destination :: "string \<Rightarrow> (unit, 'w) eg" where
  "revoke_destination i =
     eg_run (\<lambda>w.
       let state = er_state (eg_runtime w)
       in case map_of (vc_destinations (rs_config state)) i of
            None \<Rightarrow> (Inl (EgInvalidRequest ''unknown destination''), w)
          | Some d \<Rightarrow>
              (Inr (), on_runtime (\<lambda>rt. rt\<lparr>er_state := state\<lparr>rs_revoked_destinations :=
                 insert (i, ed_version d) (rs_revoked_destinations state)\<rparr>\<rparr>) w))"

definition revoke_secret :: "string \<Rightarrow> (unit, 'w) eg" where
  "revoke_secret i =
     eg_run (\<lambda>w.
       let state = er_state (eg_runtime w)
       in case map_of (vc_secrets (rs_config state)) i of
            None \<Rightarrow> (Inl (EgInvalidRequest ''unknown secret''), w)
          | Some s \<Rightarrow>
              (Inr (), on_runtime (\<lambda>rt. rt\<lparr>er_state := state\<lparr>rs_revoked_secrets :=
                 insert (i, es_version s) (rs_revoked_secrets state)\<rparr>\<rparr>) w))"

definition policy_generation :: "(u64, 'w) eg" where
  "policy_generation = eg_get (\<lambda>w. rs_generation (er_state (eg_runtime w)))"

definition runtime_clear_session :: "string \<Rightarrow> 'w egress_world \<Rightarrow> 'w egress_world" where
  "runtime_clear_session sid w =
     on_runtime (\<lambda>rt. rt\<lparr>er_handles := filter (\<lambda>(_, h). hr_session_id h \<noteq> sid) (er_handles rt),
                       er_durable := store_clear_session (er_durable rt) sid\<rparr>) w"

subsection \<open>Secret handles\<close>

abbreviation (input) MAX_SECRET_HANDLES_PER_SESSION :: nat where "MAX_SECRET_HANDLES_PER_SESSION \<equiv> 64"
abbreviation (input) MAX_SECRET_HANDLES_TOTAL :: nat where "MAX_SECRET_HANDLES_TOTAL \<equiv> 4096"
abbreviation (input) SECRET_HANDLE_TTL :: nat where "SECRET_HANDLE_TTL \<equiv> 1800000"

definition live_handles :: "nat \<Rightarrow> (string \<times> handle_record) list \<Rightarrow> (string \<times> handle_record) list" where
  "live_handles now hs = filter (\<lambda>(_, h). now < hr_expires_at h) hs"

definition handle_for :: "'w invocation_ctx \<Rightarrow> egress_secret \<Rightarrow> nat \<Rightarrow> handle_record" where
  "handle_for ctx s now =
     \<lparr>hr_session_id = session_id ctx, hr_actor_id = actor_id ctx, hr_secret_id = es_id s,
      hr_secret_version = es_version s, hr_expires_at = now + SECRET_HANDLE_TTL\<rparr>"

text \<open>The critical section: drop expired handles, reuse the caller's, or create one within the caps.\<close>

definition claim_handle ::
    "'w egress_env \<Rightarrow> 'w egress_world invocation_ctx \<Rightarrow> egress_secret \<Rightarrow> nat \<Rightarrow> (string \<times> bool, 'w) eg" where
  "claim_handle env ctx s now =
     eg_bind (eg_run (\<lambda>w. let hs = live_handles now (er_handles (eg_runtime w))
                          in (Inr hs, on_runtime (\<lambda>rt. rt\<lparr>er_handles := hs\<rparr>) w)))
       (\<lambda>hs.
          case find (\<lambda>(_, h). hr_session_id h = session_id ctx \<and> hr_actor_id h = actor_id ctx
                       \<and> hr_secret_id h = es_id s \<and> hr_secret_version h = es_version s) hs of
            Some (token, _) \<Rightarrow> eg_lift (Inr (token, True))
          | None \<Rightarrow>
              if MAX_SECRET_HANDLES_PER_SESSION \<le> length (filter (\<lambda>(_, h). hr_session_id h = session_id ctx) hs)
              then eg_lift (Inl (EgBudget ''per-session secret handle cap''))
              else if MAX_SECRET_HANDLES_TOTAL \<le> length hs
              then eg_lift (Inl (EgBudget ''process secret handle cap''))
              else eg_bind (random_token env 32) (\<lambda>token.
                     eg_run (\<lambda>w. (Inr (token, False),
                       on_runtime (\<lambda>rt. rt\<lparr>er_handles :=
                         AList.update token (handle_for ctx s now) (er_handles rt)\<rparr>) w))))"

definition issue_secret_handle ::
    "'w egress_env \<Rightarrow> 'w egress_world invocation_ctx \<Rightarrow> string \<Rightarrow> (string, 'w) eg" where
  "issue_secret_handle env ctx secret_id =
     eg_bind (eg_lift (require_session ctx)) (\<lambda>_.
     eg_bind (eg_get (\<lambda>w. er_state (eg_runtime w))) (\<lambda>state.
       if \<not> vc_enabled (rs_config state) then eg_lift (Inl EgDisabled)
       else
         eg_bind (eg_lift (require_exact_grant (grants ctx) (''secrets.use:'' @ secret_id))) (\<lambda>_.
           case map_of (vc_secrets (rs_config state)) secret_id of
             None \<Rightarrow> eg_lift (Inl EgSecretUnavailable)
           | Some s \<Rightarrow>
               eg_bind (eg_lift (ensure_secret_not_revoked state s)) (\<lambda>_.
               eg_bind (eg_now env) (\<lambda>now.
               eg_bind (claim_handle env ctx s now) (\<lambda>(token, reused).
               eg_bind (audit ctx ''secret_handle_issued''
                 (JObject [(''destinationCount'', JNumber (PosInt (length (es_destinations s)))),
                           (''opaque'', JBool True), (''reused'', JBool reused),
                           (''secretId'', JString (es_id s)),
                           (''secretVersion'', JNumber (PosInt (unat (es_version s))))])) (\<lambda>_.
               eg_lift (Inr token))))))))"

definition sha256_domain :: "'w egress_env \<Rightarrow> string \<Rightarrow> string \<Rightarrow> string" where
  "sha256_domain env domain value = env_hex env (env_sha256 env (domain @ [CHR 0x00] @ value))"

definition sha256_json :: "'w egress_env \<Rightarrow> json \<Rightarrow> string egress_result" where
  "sha256_json env v =
     (case env_json_text env v of
        None \<Rightarrow> Inl (EgInvalidRequest ''request digest failed'')
      | Some bytes \<Rightarrow> Inr (sha256_domain env ''tm.egress.canonical-json.v1'' bytes))"

definition resolve_secret_snapshot ::
    "'w egress_env \<Rightarrow> 'w egress_world invocation_ctx \<Rightarrow> runtime_state \<Rightarrow> string \<Rightarrow> egress_destination
     \<Rightarrow> (secret_snapshot \<times> egress_secret, 'w) eg" where
  "resolve_secret_snapshot env ctx state token d =
     eg_bind (eg_now env) (\<lambda>now.
     eg_bind (eg_run (\<lambda>w. let hs = live_handles now (er_handles (eg_runtime w))
                          in (case map_of hs token of None \<Rightarrow> Inl EgInvalidSecretHandle | Some h \<Rightarrow> Inr h,
                              on_runtime (\<lambda>rt. rt\<lparr>er_handles := hs\<rparr>) w))) (\<lambda>h.
       if hr_session_id h \<noteq> session_id ctx \<or> hr_actor_id h \<noteq> actor_id ctx
       then eg_lift (Inl EgInvalidSecretHandle)
       else (case map_of (vc_secrets (rs_config state)) (hr_secret_id h) of
               None \<Rightarrow> eg_lift (Inl EgInvalidSecretHandle)
             | Some s \<Rightarrow>
                 if es_version s \<noteq> hr_secret_version h then eg_lift (Inl EgInvalidSecretHandle)
                 else
                   eg_bind (eg_lift (ensure_secret_not_revoked state s)) (\<lambda>_.
                   eg_bind (eg_lift (authorize_secret_for_config ctx s d)) (\<lambda>_.
                   eg_lift (Inr (\<lparr>sn_handle_digest = sha256_domain env ''tm.egress.secret-handle.v1'' token,
                                  sn_secret_id = es_id s, sn_secret_version = es_version s,
                                  sn_expires_at = hr_expires_at h\<rparr>, s)))))))"

definition resolve_secret ::
    "'w egress_env \<Rightarrow> 'w egress_world invocation_ctx \<Rightarrow> runtime_state \<Rightarrow> string \<Rightarrow> egress_destination
     \<Rightarrow> (resolved_secret, 'w) eg" where
  "resolve_secret env ctx state token d =
     eg_bind (resolve_secret_snapshot env ctx state token d) (\<lambda>(_, s).
     eg_bind (eg_get (env_var env (es_env s))) (\<lambda>found.
       case found of
         None \<Rightarrow> eg_lift (Inl EgSecretUnavailable)
       | Some value \<Rightarrow>
           if value = [] \<or> MAX_SECRET_BYTES < length value \<or> has_byte (newline_bytes @ [CHR 0x00]) value
           then eg_lift (Inl EgSecretUnavailable)
           else eg_lift (Inr \<lparr>sec_config = s, sec_value = value\<rparr>)))"

end
