(* ===== verification/Egress_Exchange.thy ===== *)
theory Egress_Exchange
  imports Egress_Runtime
begin

text \<open>
  The exchange itself, the second half of \<open>tm-egress/src/runtime.rs\<close>: one hop (resolve, validate the
  addresses, send, read the bounded body, redact the secret), the loop over redirects with its
  budget reservations, and \<open>execute\<close>, which wraps the loop in the policy checks and the audit events.

  \<^item> The timer around a hop fires at one of the points where the hop waits; the hop then ends with
    \<open>EgTimeout\<close>, which is what the caller makes of an elapsed timer.
  \<^item> The redirect loop is a \<open>function\<close> that ends because the redirect counter stays below the cap.
\<close>

subsection \<open>Sizes, headers and budgets\<close>

definition is_control :: "nat \<Rightarrow> bool" where
  "is_control c \<longleftrightarrow> c < 32 \<or> (127 \<le> c \<and> c \<le> 159)"

definition from_utf8 :: "string \<Rightarrow> string option" where
  "from_utf8 s = (if list_all scalar (str_chars s) \<and> str_of_chars (str_chars s) = s then Some s else None)"

definition u64_of_usize :: "string \<Rightarrow> nat \<Rightarrow> u64 egress_result" where
  "u64_of_usize what n = (if n \<le> usize_max then Inr (of_nat n) else Inl (EgBudget what))"

definition duration_ms :: "nat \<Rightarrow> u64" where
  "duration_ms n = (if n \<le> usize_max then of_nat n else - 1)"

definition emit_denial ::
    "'w egress_world invocation_ctx \<Rightarrow> string \<Rightarrow> string \<Rightarrow> string option \<Rightarrow> u64 \<Rightarrow> egress_error \<Rightarrow> (unit, 'w) eg" where
  "emit_denial ctx audit_id method destination_id generation e =
     audit ctx ''egress_denied''
       (JObject [(''auditId'', JString audit_id),
                 (''destinationId'', case destination_id of None \<Rightarrow> JNull | Some i \<Rightarrow> JString i),
                 (''errorCode'', JString (egress_code e)), (''method'', JString method),
                 (''policyGeneration'', JNumber (PosInt (unat generation)))])"

fun headers_size :: "(string \<times> string) list \<Rightarrow> nat \<Rightarrow> nat option" where
  "headers_size [] len = Some len"
| "headers_size ((name, value) # headers) len =
     Option.bind (usize_checked_add len (length name)) (\<lambda>len.
     Option.bind (usize_checked_add len (length value)) (\<lambda>len.
     Option.bind (usize_checked_add len 4) (headers_size headers)))"

definition request_size_without_secret_value :: "http_request \<Rightarrow> string \<Rightarrow> nat egress_result" where
  "request_size_without_secret_value q current_url =
     (case Option.bind (usize_checked_add (length (hq_method q)) (length current_url)) (\<lambda>len.
           Option.bind (headers_size (hq_headers q) len) (\<lambda>len.
           usize_checked_add len (case hq_body q of None \<Rightarrow> 0 | Some b \<Rightarrow> length b))) of
        None \<Rightarrow> Inl (EgBudget ''request size overflow'')
      | Some n \<Rightarrow> Inr n)"

definition request_size_for_url :: "http_request \<Rightarrow> string \<Rightarrow> resolved_secret option \<Rightarrow> nat egress_result" where
  "request_size_for_url q current_url secret =
     (case request_size_without_secret_value q current_url of
        Inl e \<Rightarrow> Inl e
      | Inr bytes \<Rightarrow>
          (case secret of
             None \<Rightarrow> Inr bytes
           | Some s \<Rightarrow>
               (case Option.bind (usize_checked_add bytes (length (sec_value s))) (\<lambda>len.
                       case es_injection (sec_config s) of
                         AuthorizationBearer \<Rightarrow> usize_checked_add len 22
                       | InjectHeader name prefix \<Rightarrow>
                           Option.bind (usize_checked_add len (length name)) (\<lambda>len.
                           Option.bind (usize_checked_add len (length prefix)) (\<lambda>len.
                           usize_checked_add len 4))) of
                  None \<Rightarrow> Inl (EgBudget ''request size overflow'')
                | Some n \<Rightarrow> Inr n)))"

definition session_usage_limits :: "egress_session_limits \<Rightarrow> egress_usage_limits egress_result" where
  "session_usage_limits l =
     (case u64_of_usize ''session limit overflow'' (sl_max_request_bytes l) of
        Inl e \<Rightarrow> Inl e
      | Inr rq \<Rightarrow>
          (case u64_of_usize ''session limit overflow'' (sl_max_response_bytes l) of
             Inl e \<Rightarrow> Inl e
           | Inr rs \<Rightarrow>
               Inr \<lparr>el_max_requests = ucast (sl_max_requests l), el_max_request_bytes = rq,
                    el_max_response_bytes = rs, el_max_time_ms = sl_max_time_ms l\<rparr>))"

definition destination_usage_limits :: "egress_destination \<Rightarrow> egress_usage_limits egress_result" where
  "destination_usage_limits d =
     (case u64_of_usize ''destination limit overflow'' (ed_max_request_bytes_per_session d) of
        Inl e \<Rightarrow> Inl e
      | Inr rq \<Rightarrow>
          (case u64_of_usize ''destination limit overflow'' (ed_max_response_bytes_per_session d) of
             Inl e \<Rightarrow> Inl e
           | Inr rs \<Rightarrow>
               Inr \<lparr>el_max_requests = ucast (ed_max_requests_per_session d), el_max_request_bytes = rq,
                    el_max_response_bytes = rs, el_max_time_ms = ed_max_time_ms_per_session d\<rparr>))"

definition budget_request ::
    "'w egress_env \<Rightarrow> 'w egress_world invocation_ctx \<Rightarrow> egress_session_limits \<Rightarrow> egress_destination \<Rightarrow> nat \<Rightarrow> u64
     \<Rightarrow> (egress_budget_request, 'w) eg" where
  "budget_request env ctx limits d request_bytes timeout_ms =
     eg_bind (eg_lift (u64_of_usize ''request size overflow'' request_bytes)) (\<lambda>bytes.
     eg_bind (random_token env 16) (\<lambda>reservation_id.
     eg_bind (eg_lift (u64_of_usize ''response size overflow'' (ed_max_response_bytes d))) (\<lambda>reserved.
     eg_bind (eg_lift (session_usage_limits limits)) (\<lambda>sl.
     eg_bind (eg_lift (destination_usage_limits d)) (\<lambda>dl.
     eg_lift (Inr \<lparr>eq_reservation_id = reservation_id, eq_session_id = session_id ctx,
                   eq_destination_id = ed_id d, eq_request_bytes = bytes,
                   eq_response_reserved = reserved, eq_time_reserved_ms = timeout_ms,
                   eq_session_limits = sl, eq_destination_limits = dl\<rparr>))))))"

fun put_caller_headers ::
    "'w egress_env \<Rightarrow> (string \<times> string) list \<Rightarrow> (string \<times> string) list \<Rightarrow> (string \<times> string) list egress_result" where
  "put_caller_headers env [] headers = Inr headers"
| "put_caller_headers env ((name, value) # caller) headers =
     (case env_header_name env name of
        None \<Rightarrow> Inl (EgInvalidRequest ''invalid request header'')
      | Some n \<Rightarrow>
          if \<not> env_header_value env value then Inl (EgInvalidRequest ''invalid request header value'')
          else put_caller_headers env caller (AList.update n value headers))"

definition secret_header :: "'w egress_env \<Rightarrow> resolved_secret \<Rightarrow> (string \<times> string) egress_result" where
  "secret_header env s =
     (case es_injection (sec_config s) of
        AuthorizationBearer \<Rightarrow> Inr (''authorization'', ''Bearer '' @ sec_value s)
      | InjectHeader name prefix \<Rightarrow>
          (case env_header_name env name of
             None \<Rightarrow> Inl (EgInvalidConfig ''invalid secret header'')
           | Some n \<Rightarrow> Inr (n, prefix @ sec_value s)))"

definition request_headers ::
    "'w egress_env \<Rightarrow> egress_destination \<Rightarrow> (string \<times> string) list \<Rightarrow> resolved_secret option
     \<Rightarrow> (string \<times> string) list egress_result" where
  "request_headers env d caller secret =
     (case validate_request_headers d caller of
        Inl e \<Rightarrow> Inl e
      | Inr _ \<Rightarrow>
          (case put_caller_headers env caller [] of
             Inl e \<Rightarrow> Inl e
           | Inr headers \<Rightarrow>
               (case secret of
                  None \<Rightarrow> Inr headers
                | Some s \<Rightarrow>
                    (case secret_header env s of
                       Inl e \<Rightarrow> Inl e
                     | Inr (name, value) \<Rightarrow>
                         if \<not> env_header_value env value then Inl EgSecretUnavailable
                         else Inr (AList.update name value headers)))))"

subsection \<open>One hop\<close>

datatype hop_response =
    Redirect string
  | Final nat string "string option" "(string \<times> string) list" nat nat

definition EXPOSED_RESPONSE_HEADERS :: "string list" where
  "EXPOSED_RESPONSE_HEADERS = [''mcp-session-id'']"

definition get_all :: "string \<Rightarrow> (string \<times> string) list \<Rightarrow> string list" where
  "get_all name headers = map snd (filter (\<lambda>(n, _). n = name) headers)"

fun expose_headers ::
    "'w egress_env \<Rightarrow> (string \<times> string) list \<Rightarrow> string list \<Rightarrow> nat \<Rightarrow> (string \<times> string) list
     \<Rightarrow> (string \<times> string) list egress_result" where
  "expose_headers env headers [] total_size exposed = Inr exposed"
| "expose_headers env headers (name # names) total_size exposed =
     (case get_all name headers of
        [] \<Rightarrow> expose_headers env headers names total_size exposed
      | [v] \<Rightarrow>
          (case env_header_text env v of
             None \<Rightarrow> Inl (EgDenied ''invalid exposed response header'')
           | Some value \<Rightarrow>
               if 1024 < length value \<or> list_ex is_control (str_chars value)
               then Inl (EgDenied ''exposed response header exceeds bounds'')
               else (case Option.bind (usize_checked_add total_size (length name))
                            (\<lambda>n. usize_checked_add n (length value)) of
                       None \<Rightarrow> Inl (EgDenied ''response header size overflow'')
                     | Some n \<Rightarrow>
                         if 4096 < n then Inl (EgDenied ''exposed response headers exceed bounds'')
                         else expose_headers env headers names n (bt_insert name value exposed)))
      | _ \<Rightarrow> Inl (EgDenied ''ambiguous exposed response header''))"

definition exposed_response_headers ::
    "'w egress_env \<Rightarrow> (string \<times> string) list \<Rightarrow> (string \<times> string) list egress_result" where
  "exposed_response_headers env headers = expose_headers env headers EXPOSED_RESPONSE_HEADERS 0 []"

fun read_body :: "nat \<Rightarrow> body_event list \<Rightarrow> string \<Rightarrow> string egress_result" where
  "read_body cap [] bytes = Inr bytes"
| "read_body cap (Chunk c # es) bytes =
     (if cap < usize_sat_add (length bytes) (length c)
      then Inl (EgBudget ''per-request response-byte cap'')
      else read_body cap es (bytes @ c))"
| "read_body cap (ChunkError # es) bytes = Inl EgTransport"
| "read_body cap (ChunkElapsed # es) bytes = Inl EgTimeout"

text \<open>\<open>str::replace\<close> and the number of its replacements.\<close>

function str_replace :: "string \<Rightarrow> string \<Rightarrow> string \<Rightarrow> string" where
  "str_replace pat rep s =
     (if pat \<noteq> [] \<and> starts_with s pat then rep @ str_replace pat rep (drop (length pat) s)
      else (case s of [] \<Rightarrow> [] | b # bs \<Rightarrow> b # str_replace pat rep bs))"
  by pat_completeness auto

termination str_replace
  by (relation "measure (\<lambda>(pat, rep, s). length s)") (auto simp: starts_with_iff)

function count_matches :: "string \<Rightarrow> string \<Rightarrow> nat" where
  "count_matches pat s =
     (if pat \<noteq> [] \<and> starts_with s pat then 1 + count_matches pat (drop (length pat) s)
      else (case s of [] \<Rightarrow> 0 | b # bs \<Rightarrow> count_matches pat bs))"
  by pat_completeness auto

termination count_matches
  by (relation "measure (\<lambda>(pat, s). length s)") (auto simp: starts_with_iff)

declare str_replace.simps [simp del] count_matches.simps [simp del]

definition redact_exact :: "string \<Rightarrow> string \<Rightarrow> string \<times> nat" where
  "redact_exact body secret =
     (if secret = [] \<or> \<not> str_contains body secret then (body, 0)
      else (str_replace secret ''[REDACTED_SECRET]'' body, count_matches secret body))"

definition redact_headers :: "string \<Rightarrow> (string \<times> string) list \<Rightarrow> nat \<Rightarrow> (string \<times> string) list \<times> nat" where
  "redact_headers secret headers n =
     (map (\<lambda>(k, v). (k, fst (redact_exact v secret))) headers,
      fold (\<lambda>(k, v) n. usize_sat_add n (snd (redact_exact v secret))) headers n)"

definition final_response ::
    "nat \<Rightarrow> string \<Rightarrow> string option \<Rightarrow> (string \<times> string) list \<Rightarrow> nat \<Rightarrow> resolved_secret option \<Rightarrow> hop_response" where
  "final_response status body content_type headers response_bytes secret =
     (case secret of
        None \<Rightarrow> Final status body content_type headers response_bytes 0
      | Some s \<Rightarrow>
          let b = redact_exact body (sec_value s);
              n1 = usize_sat_add 0 (snd b);
              ct = map_option (\<lambda>v. redact_exact v (sec_value s)) content_type;
              n2 = (case ct of None \<Rightarrow> n1 | Some c \<Rightarrow> usize_sat_add n1 (snd c));
              hs = redact_headers (sec_value s) headers n2
          in Final status (fst b) (map_option fst ct) (fst hs) response_bytes (snd hs))"

definition eg_await :: "('w egress_world \<Rightarrow> 'a awaited \<times> 'w egress_world) \<Rightarrow> ('a, 'w) eg" where
  "eg_await f = eg_run (\<lambda>w. (case fst (f w) of Elapsed \<Rightarrow> Inl EgTimeout | Ready x \<Rightarrow> Inr x, snd (f w)))"

definition receive ::
    "'w egress_env \<Rightarrow> egress_destination \<Rightarrow> client_reply \<Rightarrow> resolved_secret option \<Rightarrow> hop_response egress_result" where
  "receive env p reply secret =
     (if 300 \<le> reply_status reply \<and> reply_status reply < 400
      then (case Option.bind (map_of (reply_headers reply) ''location'') (env_header_text env) of
              None \<Rightarrow> Inl (EgDenied ''redirect omitted a valid Location'')
            | Some location \<Rightarrow> Inr (Redirect location))
      else if (case reply_content_length reply of None \<Rightarrow> False | Some n \<Rightarrow> ed_max_response_bytes p < n)
      then Inl (EgBudget ''per-request response-byte cap'')
      else
        let content_type = map_option (\<lambda>v. str_of_chars (take 256 (str_chars v)))
              (Option.bind (map_of (reply_headers reply) ''content-type'') (env_header_text env))
        in (case exposed_response_headers env (reply_headers reply) of
              Inl e \<Rightarrow> Inl e
            | Inr exposed \<Rightarrow>
                (case read_body (ed_max_response_bytes p) (reply_body reply) [] of
                   Inl e \<Rightarrow> Inl e
                 | Inr bytes \<Rightarrow>
                     (case from_utf8 bytes of
                        None \<Rightarrow> Inl EgNonUtf8
                      | Some body \<Rightarrow>
                          Inr (final_response (reply_status reply) body content_type exposed (length bytes) secret)))))"

definition perform_hop ::
    "'w egress_env \<Rightarrow> authorized_destination \<Rightarrow> string \<Rightarrow> http_request \<Rightarrow> resolved_secret option
     \<Rightarrow> (hop_response, 'w) eg" where
  "perform_hop env d method q secret =
     (let p = ad_policy d in
      eg_bind (eg_await (env_resolve env (ed_host p) (ed_port p))) (\<lambda>answer.
      eg_bind (eg_lift answer) (\<lambda>resolved.
      eg_bind (eg_lift (validate_resolved_addresses resolved (ed_port p) (ed_allow_private_ips p))) (\<lambda>addresses.
        if \<not> env_client env p addresses then eg_lift (Inl EgTransport)
        else
          eg_bind (eg_lift (request_headers env p (hq_headers q) secret)) (\<lambda>headers.
            let out = \<lparr>cr_method = method, cr_url = ad_url d, cr_headers = headers, cr_body = hq_body q,
                       cr_host = ed_host p, cr_pinned = (env_parse_ip env (ed_host p) = None),
                       cr_addresses = addresses\<rparr>
            in eg_bind (eg_observe (HSent p out)) (\<lambda>_.
               eg_bind (eg_await (env_send env out)) (\<lambda>reply.
                 case reply of
                   None \<Rightarrow> eg_lift (Inl EgTransport)
                 | Some reply \<Rightarrow> eg_lift (receive env p reply secret))))))))"

subsection \<open>The redirect loop\<close>

definition settle_hop :: "egress_budget_reservation \<Rightarrow> u64 \<Rightarrow> u64 \<Rightarrow> (unit, 'w) eg" where
  "settle_hop v response_bytes elapsed_ms =
     eg_bind (eg_observe (HSettled v response_bytes elapsed_ms)) (\<lambda>_.
     durable (\<lambda>st. store_settle_budget st v response_bytes elapsed_ms))"

text \<open>The loop body up to the match on the hop's outcome.\<close>

definition attempt_hop ::
    "'w egress_env \<Rightarrow> 'w egress_world invocation_ctx \<Rightarrow> runtime_state \<Rightarrow> http_request \<Rightarrow> string
     \<Rightarrow> authorized_destination \<Rightarrow> resolved_secret option
     \<Rightarrow> (egress_budget_reservation \<times> u64 \<times> hop_response egress_result, 'w) eg" where
  "attempt_hop env ctx state q method d secret =
     (let p = ad_policy d in
      eg_bind (eg_lift (authorize_destination ctx state p)) (\<lambda>_.
      eg_bind (eg_lift (case secret of
                 None \<Rightarrow> Inr () | Some s \<Rightarrow> authorize_secret_for_destination ctx state s p)) (\<lambda>_.
      eg_bind (eg_lift (request_size_for_url q (url_as_str (ad_url d)) secret)) (\<lambda>request_bytes.
        if ed_max_request_bytes p < request_bytes then eg_lift (Inl (EgBudget ''request byte cap''))
        else
          let timeout_ms = (case hq_timeout_ms q of None \<Rightarrow> ed_request_timeout_ms p | Some t \<Rightarrow> t)
          in if timeout_ms = 0 \<or> ed_request_timeout_ms p < timeout_ms
             then eg_lift (Inl (EgBudget ''request timeout cap''))
             else
               eg_bind (budget_request env ctx (vc_session_limits (rs_config state)) p request_bytes timeout_ms) (\<lambda>b.
               eg_bind (durable (\<lambda>st. store_reserve_budget st b)) (\<lambda>reservation.
               eg_bind (eg_observe (HReserved reservation)) (\<lambda>_.
               eg_bind (eg_now env) (\<lambda>started.
               eg_bind (eg_try (perform_hop env d method q secret)) (\<lambda>hop.
               eg_bind (eg_now env) (\<lambda>ended.
               eg_lift (Inr (reservation, duration_ms (ended - started), hop))))))))))))"

definition next_destination ::
    "'w egress_env \<Rightarrow> runtime_state \<Rightarrow> string option \<Rightarrow> string \<Rightarrow> authorized_destination \<Rightarrow> string
     \<Rightarrow> authorized_destination egress_result" where
  "next_destination env state expected method d location =
     (case env_join env (ad_url d) location of
        None \<Rightarrow> Inl (EgDenied ''invalid redirect location'')
      | Some next_url \<Rightarrow>
          (case authorize (env_parse_url env) (rs_config state) (url_as_str next_url) method of
             Inl e \<Rightarrow> Inl e
           | Inr next \<Rightarrow>
               if (case expected of None \<Rightarrow> False | Some i \<Rightarrow> ed_id (ad_policy next) \<noteq> i)
               then Inl (EgDenied ''redirect escaped the scoped destination'')
               else if ed_id (ad_policy next) \<noteq> ed_id (ad_policy d)
                       \<and> ed_id (ad_policy next) \<notin> set (ed_redirect_to (ad_policy d))
               then Inl (EgDenied ''redirect destination is not allowlisted by the current hop'')
               else Inr next))"

function hop_loop ::
    "'w egress_env \<Rightarrow> 'w egress_world invocation_ctx \<Rightarrow> runtime_state \<Rightarrow> string option \<Rightarrow> http_request \<Rightarrow> string
     \<Rightarrow> resolved_secret option \<Rightarrow> 8 word \<Rightarrow> 8 word \<Rightarrow> authorized_destination \<Rightarrow> (http_response, 'w) eg" where
  "hop_loop env ctx state expected q method secret redirect_cap redirects d =
     eg_bind (attempt_hop env ctx state q method d secret) (\<lambda>(reservation, elapsed_ms, hop).
       case hop of
         Inr (Redirect location) \<Rightarrow>
           eg_bind (settle_hop reservation 0 elapsed_ms) (\<lambda>_.
             if method \<noteq> ''GET'' \<and> method \<noteq> ''HEAD''
             then eg_lift (Inl (EgDenied ''non-GET redirects are forbidden''))
             else if redirect_cap \<le> redirects then eg_lift (Inl (EgDenied ''redirect cap exceeded''))
             else
               eg_bind (eg_lift (next_destination env state expected method d location)) (\<lambda>next.
                 hop_loop env ctx state expected q method secret redirect_cap (sat_add redirects 1) next))
       | Inr (Final status body content_type headers response_bytes secret_redactions) \<Rightarrow>
           eg_bind (eg_lift (u64_of_usize ''response size overflow'' response_bytes)) (\<lambda>n.
           eg_bind (settle_hop reservation n elapsed_ms) (\<lambda>_.
             eg_lift (Inr \<lparr>hp_status = status, hp_body = body, hp_content_type = content_type,
                           hp_headers = headers, hp_destination_id = ed_id (ad_policy d),
                           hp_response_bytes = response_bytes, hp_redirects = redirects,
                           hp_secret_redactions = secret_redactions\<rparr>)))
       | Inl e \<Rightarrow> eg_bind (settle_hop reservation 0 elapsed_ms) (\<lambda>_. eg_lift (Inl e)))"
  by pat_completeness auto

lemma redirects_grow: "\<not> cap \<le> n \<Longrightarrow> unat (cap :: 8 word) - unat (sat_add n 1) < unat cap - unat n"
  using unat_bound [of cap] by (auto simp: rust_simps word_le_nat_alt)

termination hop_loop
  by (relation "measure (\<lambda>(env, ctx, state, expected, q, method, secret, cap, redirects, d). unat cap - unat redirects)")
    (auto intro: redirects_grow)

declare hop_loop.simps [simp del]

definition execute_hops ::
    "'w egress_env \<Rightarrow> 'w egress_world invocation_ctx \<Rightarrow> runtime_state \<Rightarrow> string option \<Rightarrow> http_request
     \<Rightarrow> authorized_destination \<Rightarrow> resolved_secret option \<Rightarrow> (http_response, 'w) eg" where
  "execute_hops env ctx state expected q d secret =
     (let method = to_ascii_uppercase (hq_method q)
      in if \<not> env_method env method then eg_lift (Inl (EgInvalidRequest ''invalid HTTP method''))
         else hop_loop env ctx state expected q method secret (ed_max_redirects (ad_policy d)) 0 d)"

subsection \<open>Requests\<close>

definition deny_request ::
    "'w egress_world invocation_ctx \<Rightarrow> string \<Rightarrow> string \<Rightarrow> string option \<Rightarrow> u64 \<Rightarrow> egress_error \<Rightarrow> ('a, 'w) eg" where
  "deny_request ctx audit_id method destination_id generation e =
     eg_bind (emit_denial ctx audit_id method destination_id generation e) (\<lambda>_. eg_lift (Inl e))"

text \<open>\<open>if let Err(error) = check { emit_denial(..).await?; return Err(error); }\<close>\<close>

definition or_deny ::
    "'w egress_world invocation_ctx \<Rightarrow> string \<Rightarrow> string \<Rightarrow> string option \<Rightarrow> u64 \<Rightarrow> ('a, 'w) eg \<Rightarrow> ('a, 'w) eg" where
  "or_deny ctx audit_id method destination_id generation check =
     eg_bind (eg_try check) (\<lambda>r.
       case r of
         Inl e \<Rightarrow> deny_request ctx audit_id method destination_id generation e
       | Inr x \<Rightarrow> eg_lift (Inr x))"

definition started_json ::
    "string \<Rightarrow> egress_destination \<Rightarrow> u64 \<Rightarrow> string \<Rightarrow> nat \<Rightarrow> bool \<Rightarrow> json" where
  "started_json audit_id p generation method request_bytes uses_secret =
     JObject [(''auditId'', JString audit_id), (''destinationId'', JString (ed_id p)),
              (''destinationVersion'', JNumber (PosInt (unat (ed_version p)))), (''method'', JString method),
              (''policyGeneration'', JNumber (PosInt (unat generation))),
              (''requestBytes'', JNumber (PosInt request_bytes)), (''usesSecret'', JBool uses_secret)]"

definition completed_json :: "string \<Rightarrow> http_response \<Rightarrow> u64 \<Rightarrow> string \<Rightarrow> u64 \<Rightarrow> json" where
  "completed_json audit_id r generation method elapsed_ms =
     JObject [(''auditId'', JString audit_id), (''destinationId'', JString (hp_destination_id r)),
              (''elapsedMs'', JNumber (PosInt (unat elapsed_ms))), (''method'', JString method),
              (''policyGeneration'', JNumber (PosInt (unat generation))),
              (''redirects'', JNumber (PosInt (unat (hp_redirects r)))),
              (''responseBytes'', JNumber (PosInt (hp_response_bytes r))),
              (''secretRedactions'', JNumber (PosInt (hp_secret_redactions r))),
              (''status'', JNumber (PosInt (hp_status r)))]"

definition failed_json :: "string \<Rightarrow> string \<Rightarrow> u64 \<Rightarrow> string \<Rightarrow> egress_error \<Rightarrow> u64 \<Rightarrow> json" where
  "failed_json audit_id destination_id generation method e elapsed_ms =
     JObject [(''auditId'', JString audit_id), (''destinationId'', JString destination_id),
              (''elapsedMs'', JNumber (PosInt (unat elapsed_ms))), (''errorCode'', JString (egress_code e)),
              (''method'', JString method), (''policyGeneration'', JNumber (PosInt (unat generation)))]"

text \<open>From the authorized destination on: the checks of the caller's authority and headers, the
  secret, and the exchange between its audit events.\<close>

definition execute_authorized ::
    "'w egress_env \<Rightarrow> 'w egress_world invocation_ctx \<Rightarrow> string option \<Rightarrow> http_request \<Rightarrow> string \<Rightarrow> nat \<Rightarrow> string
     \<Rightarrow> runtime_state \<Rightarrow> authorized_destination \<Rightarrow> (http_response, 'w) eg" where
  "execute_authorized env ctx expected q audit_id started method state initial =
     (let p = ad_policy initial; generation = rs_generation state; i = Some (ed_id p) in
      if (case expected of None \<Rightarrow> False | Some e \<Rightarrow> ed_id p \<noteq> e)
      then deny_request ctx audit_id method i generation (EgDenied ''unexpected destination for scoped request'')
      else
        eg_bind (or_deny ctx audit_id method i generation (eg_lift (authorize_destination ctx state p))) (\<lambda>_.
        eg_bind (or_deny ctx audit_id method i generation (eg_lift (validate_request_headers p (hq_headers q)))) (\<lambda>_.
          if method = ''GET'' \<and> (case hq_body q of None \<Rightarrow> False | Some b \<Rightarrow> b \<noteq> [])
          then deny_request ctx audit_id method i generation (EgInvalidRequest ''GET requests cannot carry a body'')
          else
            eg_bind (case hq_auth q of
                       None \<Rightarrow> eg_lift (Inr None)
                     | Some token \<Rightarrow>
                         eg_bind (or_deny ctx audit_id method i generation (resolve_secret env ctx state token p))
                           (\<lambda>s. eg_lift (Inr (Some s)))) (\<lambda>secret.
            eg_bind (or_deny ctx audit_id method i generation
                       (eg_lift (request_size_for_url q (url_as_str (ad_url initial)) secret))) (\<lambda>request_bytes.
            eg_bind (audit ctx ''egress_started''
                       (started_json audit_id p generation method request_bytes (secret \<noteq> None))) (\<lambda>_.
            eg_bind (eg_try (execute_hops env ctx state expected q initial secret)) (\<lambda>result.
            eg_bind (eg_now env) (\<lambda>now.
              let elapsed_ms = duration_ms (now - started)
              in case result of
                   Inr response \<Rightarrow>
                     eg_bind (audit ctx ''egress_completed''
                                (completed_json audit_id response generation method elapsed_ms)) (\<lambda>_.
                     eg_lift (Inr response))
                 | Inl e \<Rightarrow>
                     eg_bind (audit ctx ''egress_failed''
                                (failed_json audit_id (ed_id p) generation method e elapsed_ms)) (\<lambda>_.
                     eg_lift (Inl e))))))))))"

definition execute_scoped ::
    "'w egress_env \<Rightarrow> 'w egress_world invocation_ctx \<Rightarrow> string option \<Rightarrow> http_request \<Rightarrow> (http_response, 'w) eg" where
  "execute_scoped env ctx expected q =
     eg_bind (random_token env 16) (\<lambda>audit_id.
     eg_bind (eg_now env) (\<lambda>started.
       let method = to_ascii_uppercase (hq_method q)
       in eg_bind (or_deny ctx audit_id method None 0 (eg_lift (require_session ctx))) (\<lambda>_.
          eg_bind (eg_get (\<lambda>w. er_state (eg_runtime w))) (\<lambda>state.
          eg_bind (or_deny ctx audit_id method None (rs_generation state)
                     (eg_lift (authorize (env_parse_url env) (rs_config state) (hq_url q) method))) (\<lambda>initial.
          execute_authorized env ctx expected q audit_id started method state initial)))))"

definition execute :: "'w egress_env \<Rightarrow> 'w egress_world invocation_ctx \<Rightarrow> http_request \<Rightarrow> (http_response, 'w) eg" where
  "execute env ctx q = execute_scoped env ctx None q"

definition execute_for_destination ::
    "'w egress_env \<Rightarrow> 'w egress_world invocation_ctx \<Rightarrow> string \<Rightarrow> http_request \<Rightarrow> (http_response, 'w) eg" where
  "execute_for_destination env ctx i q = execute_scoped env ctx (Some i) q"

end
