(* ===== verification/Egress_Trace.thy ===== *)
theory Egress_Trace
  imports Egress_Exchange
begin

text \<open>
  What the exchange lets out: lemmas about the observations of \<open>Egress_Exchange.execute_scoped\<close>. A
  call is \<open>quiet\<close> when it makes none; the collection \<open>quiet_intros\<close> has the quiet calls. The trace of
  the redirect loop is characterised once (\<open>hop_loop_trace\<close>) and the properties read it off.
\<close>

named_theorems quiet_intros \<open>calls that make no observation\<close>

lemma eg_bind_cases:
  assumes "eg_bind m f w = (r, tr, w')"
  obtains e where "m w = (Inl e, tr, w')" "r = Inl e"
  | x tr1 w1 tr2 where "m w = (Inr x, tr1, w1)" "f x w1 = (r, tr2, w')" "tr = tr1 @ tr2"
  using assms by (auto simp: eg_bind_def split: prod.splits sum.splits)

definition quiet :: "('e, 'a, 'w) run \<Rightarrow> bool" where
  "quiet m \<longleftrightarrow> (\<forall>w. fst (snd (m w)) = [])"

lemma quietD: "quiet m \<Longrightarrow> m w = (r, tr, w') \<Longrightarrow> tr = []"
  by (auto simp: quiet_def dest: spec [of _ w])

lemma quiet_bind [quiet_intros]: "quiet m \<Longrightarrow> (\<And>x. quiet (f x)) \<Longrightarrow> quiet (eg_bind m f)"
  by (auto simp: quiet_def eg_bind_def split: prod.splits sum.splits) (metis fst_conv snd_conv)+

lemma quiet_basic [quiet_intros]:
  "quiet (eg_lift r)" "quiet (eg_run g)" "quiet (eg_get h)" "quiet (eg_now env)" "quiet (random_token env n)"
  "quiet (audit ctx t j)" "quiet (durable k)" "quiet (eg_await l)"
  by (simp_all add: quiet_def eg_lift_def eg_run_def eg_get_def eg_now_def random_token_def audit_def durable_def
      eg_await_def)

lemma quiet_try [quiet_intros]: "quiet m \<Longrightarrow> quiet (eg_try m)"
  by (auto simp: quiet_def eg_try_def split: prod.splits) (metis fst_conv snd_conv)

lemma quiet_case [quiet_intros]:
  "(\<And>e. quiet (f e)) \<Longrightarrow> (\<And>x. quiet (g x)) \<Longrightarrow> quiet (case s of Inl e \<Rightarrow> f e | Inr x \<Rightarrow> g x)"
  "quiet a \<Longrightarrow> (\<And>y. quiet (b y)) \<Longrightarrow> quiet (case u of None \<Rightarrow> a | Some y \<Rightarrow> b y)"
  "quiet c \<Longrightarrow> quiet d \<Longrightarrow> quiet (if p then c else d)"
  by (auto split: sum.split option.split)

lemma quiet_deny [quiet_intros]: "quiet (deny_request ctx i m d g e)"
  unfolding deny_request_def emit_denial_def by (intro quiet_intros)

lemma quiet_or_deny [quiet_intros]: "quiet check \<Longrightarrow> quiet (or_deny ctx i m d g check)"
  unfolding or_deny_def by (intro quiet_intros)

lemma quiet_budget_request [quiet_intros]: "quiet (budget_request env ctx l d n t)"
  unfolding budget_request_def by (intro quiet_intros)

lemma quiet_resolve_secret_snapshot [quiet_intros]: "quiet (resolve_secret_snapshot env ctx st token d)"
  unfolding resolve_secret_snapshot_def by (intro quiet_intros)

lemma quiet_resolve_secret [quiet_intros]: "quiet (resolve_secret env ctx st token d)"
  unfolding resolve_secret_def split_beta by (intro quiet_intros)

text \<open>A quiet first step drops out of the trace.\<close>

lemma quiet_bindE:
  assumes "eg_bind m f w = (r, tr, w')" "quiet m"
  obtains e where "m w = (Inl e, [], w')" "r = Inl e" "tr = []"
  | x w1 where "m w = (Inr x, [], w1)" "f x w1 = (r, tr, w')"
  using assms(1)
proof (cases rule: eg_bind_cases)
  case (1 e)
  then show ?thesis using that(1) quietD [OF assms(2) 1(1)] by simp
next
  case (2 x tr1 w1 tr2)
  then show ?thesis using that(2) quietD [OF assms(2) 2(1)] by simp
qed

lemma eg_lift_bind [simp]:
  "eg_bind (eg_lift (Inl e)) f = eg_lift (Inl e)" "eg_bind (eg_lift (Inr x)) f = f x"
  by (simp_all add: fun_eq_iff eg_bind_def eg_lift_def)

lemma eg_lift_simps [simp]: "eg_lift s w = (r, tr, w') \<longleftrightarrow> r = s \<and> tr = [] \<and> w' = w"
  by (auto simp: eg_lift_def)

subsection \<open>One hop\<close>

definition sent_ok ::
    "'w egress_env \<Rightarrow> http_request \<Rightarrow> string \<Rightarrow> resolved_secret option \<Rightarrow> authorized_destination \<Rightarrow> client_request \<Rightarrow> bool" where
  "sent_ok env q method secret d out \<longleftrightarrow>
     cr_method out = method \<and> cr_url out = ad_url d \<and> cr_host out = ed_host (ad_policy d) \<and> cr_body out = hq_body q
     \<and> cr_addresses out \<noteq> []
     \<and> (\<forall>(ip, port) \<in> set (cr_addresses out).
           port = ed_port (ad_policy d) \<and> acceptable (ed_allow_private_ips (ad_policy d)) ip)
     \<and> validate_request_headers (ad_policy d) (hq_headers q) = Inr ()
     \<and> request_headers env (ad_policy d) (hq_headers q) secret = Inr (cr_headers out)"

lemma normalize_idem: "normalize_ip (normalize_ip ip) = normalize_ip ip"
  by (cases ip) (auto simp: normalize_ip_def split: option.split)

lemma validated_addresses_ok:
  assumes "validate_resolved_addresses as port private_ok = Inr out"
  shows "out \<noteq> []" "\<forall>(ip, p) \<in> set out. p = port \<and> acceptable private_ok ip"
proof -
  from assms have a: "as \<noteq> []" "validate_addresses as port private_ok [] = Inr out"
    by (auto simp: validate_resolved_addresses_def split: if_splits)
  then have s: "\<forall>(ip, p) \<in> set as. p = port \<and> acceptable private_ok (normalize_ip ip)"
    "out = sorted_list_of_set ((\<lambda>a. (normalize_ip (fst a), port)) ` set as)"
    using validate_addresses_Inr [of "[]" as port private_ok out] by simp_all
  then have "set out = (\<lambda>a. (normalize_ip (fst a), port)) ` set as" by simp
  then show "out \<noteq> []" "\<forall>(ip, p) \<in> set out. p = port \<and> acceptable private_ok ip" using a(1) s(1) by fastforce+
qed

lemma read_body_bound: "read_body cap es bytes = Inr out \<Longrightarrow> cap < usize_max \<Longrightarrow> length bytes \<le> cap \<Longrightarrow> length out \<le> cap"
  by (induction cap es bytes rule: read_body.induct) (auto simp: usize_sat_add_def min_def split: if_splits)

lemma receive_bound:
  assumes "receive env p reply secret = Inr (Final status body ct hs n k)" "ed_max_response_bytes p < usize_max"
  shows "n \<le> ed_max_response_bytes p"
proof -
  from assms(1) obtain bytes where "read_body (ed_max_response_bytes p) (reply_body reply) [] = Inr bytes" "n = length bytes"
    by (auto simp: receive_def final_response_def from_utf8_def Let_def split: if_splits option.splits sum.splits)
  then show ?thesis using read_body_bound [OF _ assms(2)] by simp
qed

lemma request_headers_checked:
  "request_headers env p hs secret = Inr out \<Longrightarrow> validate_request_headers p hs = Inr ()"
  by (auto simp: request_headers_def split: sum.splits)

lemma sent_okI:
  assumes "validate_resolved_addresses as (ed_port p) (ed_allow_private_ips p) = Inr addresses"
    and "request_headers env p (hq_headers q) secret = Inr hs" and "p = ad_policy d"
  shows "sent_ok env q method secret d \<lparr>cr_method = method, cr_url = ad_url d, cr_headers = hs, cr_body = hq_body q,
                              cr_host = ed_host p, cr_pinned = b, cr_addresses = addresses\<rparr>"
  using validated_addresses_ok [OF assms(1)] request_headers_checked [OF assms(2)] assms(2,3) by (simp add: sent_ok_def)

lemmas eg_defs = eg_bind_def eg_lift_def eg_run_def eg_get_def eg_observe_def eg_try_def eg_await_def eg_now_def

lemma perform_hop_trace:
  assumes "perform_hop env d method q secret w = (r, tr, w')"
  shows "tr = [] \<and> (\<exists>e. r = Inl e)
    \<or> (\<exists>out. tr = [HSent (ad_policy d) out] \<and> sent_ok env q method secret d out
          \<and> ((\<exists>e. r = Inl e) \<or> (\<exists>reply. r = receive env (ad_policy d) reply secret)))"
  using assms unfolding perform_hop_def Let_def
  by (auto simp: eg_defs intro: sent_okI split: prod.splits sum.splits if_splits option.splits awaited.splits)

subsection \<open>The protocol of a redirect chain\<close>

text \<open>A reservation made for a destination, and a request that was sent under it.\<close>

definition reserved_for ::
    "'w invocation_ctx \<Rightarrow> authorized_destination \<Rightarrow> egress_budget_reservation \<Rightarrow> bool" where
  "reserved_for ctx d v \<longleftrightarrow>
     ev_response_reserved v = word_of_nat (ed_max_response_bytes (ad_policy d))
     \<and> ev_session_id v = session_id ctx \<and> ev_destination_id v = ed_id (ad_policy d)"

definition sent_under ::
    "'w egress_env \<Rightarrow> 'w egress_world invocation_ctx \<Rightarrow> runtime_state \<Rightarrow> http_request \<Rightarrow> string \<Rightarrow> resolved_secret option
     \<Rightarrow> authorized_destination \<Rightarrow> egress_budget_reservation \<Rightarrow> client_request \<Rightarrow> bool" where
  "sent_under env ctx state q verb secret d v out \<longleftrightarrow>
     reserved_for ctx d v \<and> authorize_destination ctx state (ad_policy d) = Inr ()
     \<and> (\<forall>s. secret = Some s \<longrightarrow> authorize_secret_for_destination ctx state s (ad_policy d) = Inr ())
     \<and> sent_ok env q verb secret d out"

text \<open>
  The observations an exchange may make from a destination on, with at most \<open>k\<close> further redirects:
  nothing; one hop, reserved and settled; or a hop that was redirected to the next destination. A
  destination with no effective response cap may answer with more bytes than a settlement can name.
\<close>

inductive hop_trace ::
    "'w egress_env \<Rightarrow> 'w egress_world invocation_ctx \<Rightarrow> runtime_state \<Rightarrow> string option \<Rightarrow> http_request \<Rightarrow> string
     \<Rightarrow> resolved_secret option \<Rightarrow> nat \<Rightarrow> authorized_destination \<Rightarrow> hop_event list \<Rightarrow> bool"
  for env ctx state expected q verb secret where
  hop_refused: "hop_trace env ctx state expected q verb secret k d []"
| hop_unsent: "reserved_for ctx d v
    \<Longrightarrow> hop_trace env ctx state expected q verb secret k d [HReserved v, HSettled v 0 t]"
| hop_last: "sent_under env ctx state q verb secret d v out
    \<Longrightarrow> (ed_max_response_bytes (ad_policy d) < usize_max \<Longrightarrow> n \<le> ev_response_reserved v)
    \<Longrightarrow> hop_trace env ctx state expected q verb secret k d [HReserved v, HSent (ad_policy d) out, HSettled v n t]"
| hop_overflowed: "sent_under env ctx state q verb secret d v out \<Longrightarrow> \<not> ed_max_response_bytes (ad_policy d) < usize_max
    \<Longrightarrow> hop_trace env ctx state expected q verb secret k d [HReserved v, HSent (ad_policy d) out]"
| hop_redirected: "sent_under env ctx state q verb secret d v out \<Longrightarrow> verb = ''GET'' \<or> verb = ''HEAD''
    \<Longrightarrow> next_destination env state expected verb d location = Inr d'
    \<Longrightarrow> hop_trace env ctx state expected q verb secret k d' tr
    \<Longrightarrow> hop_trace env ctx state expected q verb secret (Suc k) d
          (HReserved v # HSent (ad_policy d) out # HSettled v 0 t # tr)"

lemma reserve_returns:
  assumes "fst (reserve b q) = Inr v"
  shows "ev_response_reserved v = eq_response_reserved q \<and> ev_session_id v = eq_session_id q
    \<and> ev_destination_id v = eq_destination_id q"
  using assms by (auto simp: reserve_def Let_def reservation_of_def split: option.splits sum.splits if_splits)

lemma u64_of_usize_Inr: "u64_of_usize m n = Inr x \<longleftrightarrow> n < 2 ^ 64 \<and> x = word_of_nat n"
  by (auto simp: u64_of_usize_def)

lemma budget_request_returns:
  assumes "budget_request env ctx l d n t w = (Inr b, tr, w')"
  shows "eq_response_reserved b = word_of_nat (ed_max_response_bytes d) \<and> ed_max_response_bytes d < 2 ^ 64
    \<and> eq_session_id b = session_id ctx \<and> eq_destination_id b = ed_id d"
  using assms unfolding budget_request_def
  by (auto simp: eg_bind_def u64_of_usize_Inr dest!: sym [of "Inr _" "u64_of_usize _ _"] split: prod.splits sum.splits)

lemma durable_run: "durable f w = (r, tr, w') \<Longrightarrow> r = fst (f (er_durable (eg_runtime w))) \<and> tr = []"
  by (auto simp: durable_def eg_run_def Let_def)

lemma store_reserve_returns:
  "durable (\<lambda>st. store_reserve_budget st b) w = (Inr v, tr, w') \<Longrightarrow> ev_response_reserved v = eq_response_reserved b
     \<and> ev_session_id v = eq_session_id b \<and> ev_destination_id v = eq_destination_id b"
  using reserve_returns by (auto dest!: durable_run simp: store_reserve_budget_def Let_def split: prod.splits)

text \<open>The part of a hop after its reservation cannot fail.\<close>

lemma hop_body_run:
  "eg_bind (eg_observe (HReserved v)) (\<lambda>_.
     eg_bind (eg_now env) (\<lambda>started.
     eg_bind (eg_try m) (\<lambda>hop.
     eg_bind (eg_now env) (\<lambda>ended. eg_lift (Inr (v, f started ended, hop)))))) w = (r, tr, w')
   \<Longrightarrow> \<exists>t hop w1 sends w2. r = Inr (v, t, hop) \<and> tr = HReserved v # sends \<and> m w1 = (hop, sends, w2)"
  by (auto simp: eg_defs split: prod.splits) blast

lemma attempt_hop_trace:
  assumes "attempt_hop env ctx state q verb d secret w = (r, tr, w')"
  shows "(\<exists>e. r = Inl e \<and> tr = []) \<or> (\<exists>v t hop w1 sends w2. r = Inr (v, t, hop) \<and> tr = HReserved v # sends
    \<and> perform_hop env d verb q secret w1 = (hop, sends, w2) \<and> reserved_for ctx d v
    \<and> ed_max_response_bytes (ad_policy d) < 2 ^ 64
    \<and> (\<forall>out. sent_ok env q verb secret d out \<longrightarrow> sent_under env ctx state q verb secret d v out))"
proof (cases "authorize_destination ctx state (ad_policy d)")
  case (Inl e)
  then show ?thesis using assms by (auto simp: attempt_hop_def Let_def)
next
  case (Inr u)
  define rest where "rest n t = eg_bind (budget_request env ctx (vc_session_limits (rs_config state)) (ad_policy d) n t) (\<lambda>b.
    eg_bind (durable (\<lambda>st. store_reserve_budget st b)) (\<lambda>v.
    eg_bind (eg_observe (HReserved v)) (\<lambda>_. eg_bind (eg_now env) (\<lambda>started.
    eg_bind (eg_try (perform_hop env d verb q secret)) (\<lambda>hop.
    eg_bind (eg_now env) (\<lambda>ended. eg_lift (Inr (v, duration_ms (ended - started), hop))))))))" for n t
  have "(\<exists>e. r = Inl e \<and> tr = [])
    \<or> ((\<forall>s. secret = Some s \<longrightarrow> authorize_secret_for_destination ctx state s (ad_policy d) = Inr ())
       \<and> (\<exists>n t. rest n t w = (r, tr, w')))"
    using assms Inr unfolding attempt_hop_def Let_def rest_def [symmetric]
    by (cases "case secret of None \<Rightarrow> Inr () | Some s \<Rightarrow> authorize_secret_for_destination ctx state s (ad_policy d)";
        cases "request_size_for_url q (url_as_str (ad_url d)) secret")
      (auto split: if_splits)
  then show ?thesis
  proof (elim disjE conjE exE)
    fix n t
    assume s: "\<forall>s. secret = Some s \<longrightarrow> authorize_secret_for_destination ctx state s (ad_policy d) = Inr ()"
    assume "rest n t w = (r, tr, w')"
    then show ?thesis unfolding rest_def
    proof (elim quiet_bindE [OF _ quiet_budget_request] quiet_bindE [OF _ quiet_basic(7)])
      fix b w1 v w2
      assume b: "budget_request env ctx (vc_session_limits (rs_config state)) (ad_policy d) n t w = (Inr b, [], w1)"
        and v: "durable (\<lambda>st. store_reserve_budget st b) w1 = (Inr v, [], w2)"
        and m: "eg_bind (eg_observe (HReserved v)) (\<lambda>_. eg_bind (eg_now env) (\<lambda>started.
          eg_bind (eg_try (perform_hop env d verb q secret)) (\<lambda>hop.
          eg_bind (eg_now env) (\<lambda>ended. eg_lift (Inr (v, duration_ms (ended - started), hop)))))) w2 = (r, tr, w')"
      show ?thesis
        using hop_body_run [OF m] budget_request_returns [OF b] store_reserve_returns [OF v] s Inr
        by (auto simp: reserved_for_def sent_under_def)
    qed auto
  qed auto
qed

lemma settle_hop_bind:
  assumes "eg_bind (settle_hop v n t) f w = (r, tr, w')"
  shows "(\<exists>e. r = Inl e \<and> tr = [HSettled v n t]) \<or> (\<exists>w1 tr'. tr = HSettled v n t # tr' \<and> f () w1 = (r, tr', w'))"
  using assms by (auto simp: settle_hop_def durable_def eg_defs Let_def split: prod.splits sum.splits)

lemma settle_then_stop: "eg_bind (settle_hop v n t) (\<lambda>_. eg_lift z) w = (r, tr, w') \<Longrightarrow> tr = [HSettled v n t]"
  by (auto dest!: settle_hop_bind)

lemma authorize_listed:
  "authorize parse_url v url method = Inr d \<Longrightarrow> ad_policy d \<in> snd ` set (vc_destinations v)"
  by (auto simp: authorize_Inr find_Some_iff)

lemma next_destination_listed:
  "next_destination env state expected method d location = Inr d' \<Longrightarrow> ad_policy d' \<in> snd ` set (vc_destinations (rs_config state))"
  by (auto simp: next_destination_def split: option.splits sum.splits if_splits dest!: authorize_listed)

lemma redirects_left: "\<not> cap \<le> n \<Longrightarrow> unat (cap :: 8 word) - unat n = Suc (unat cap - unat (sat_add n 1))"
  using unat_bound [of cap] by (auto simp: rust_simps word_le_nat_alt)

lemma settle_then_fail: "eg_bind (settle_hop v n t) (\<lambda>_. eg_lift (Inl e)) w = (r, tr, w') \<Longrightarrow> \<exists>e. r = Inl e"
  by (auto dest!: settle_hop_bind)

text \<open>What is settled for a complete response: at most the reserved bytes, unless the cap is no cap.\<close>

lemma final_settled:
  assumes "receive env p reply secret = Inr (Final status body ct hs n k)" and "ed_max_response_bytes p < 2 ^ 64"
    and "u64_of_usize m n = Inr x" and "ed_max_response_bytes p < usize_max"
  shows "x \<le> word_of_nat (ed_max_response_bytes p)"
  using receive_bound [OF assms(1,4)] assms(2,3)
  by (simp add: u64_of_usize_Inr word_le_nat_alt unsigned_of_nat take_bit_nat_eq_self)

lemma final_fits:
  assumes "receive env p reply secret = Inr (Final status body ct hs n k)" and "ed_max_response_bytes p < usize_max"
  obtains x where "u64_of_usize m n = Inr x"
  using receive_bound [OF assms] assms(2) by (simp add: u64_of_usize_Inr)

lemma redirect_followed:
  assumes "eg_bind (settle_hop v 0 t) (\<lambda>_.
      if verb \<noteq> ''GET'' \<and> verb \<noteq> ''HEAD'' then eg_lift (Inl e1) else if redirect_cap \<le> redirects then eg_lift (Inl e2)
      else eg_bind (eg_lift found) f) w = (r, tr, w')"
  obtains "tr = [HSettled v 0 t]"
  | w1 tr' d where "tr = HSettled v 0 t # tr'" "verb = ''GET'' \<or> verb = ''HEAD''" "\<not> redirect_cap \<le> redirects"
      "found = Inr d" "f d w1 = (r, tr', w')"
  using settle_hop_bind [OF assms] by (cases found) (auto split: if_splits)

text \<open>The destinations of the requests in a trace.\<close>

fun sent_to :: "hop_event list \<Rightarrow> egress_destination list" where
  "sent_to [] = []"
| "sent_to (HSent p out # tr) = p # sent_to tr"
| "sent_to (_ # tr) = sent_to tr"

text \<open>One round of the loop: it stops within the protocol, or it was redirected and goes on.\<close>

lemma answered_round:
  assumes run: "(case h of
      Redirect location \<Rightarrow> eg_bind (settle_hop v 0 t) (\<lambda>_.
        if verb \<noteq> ''GET'' \<and> verb \<noteq> ''HEAD'' then eg_lift (Inl e1) else if cap \<le> redirects then eg_lift (Inl e2)
        else eg_bind (eg_lift (next_destination env state expected verb d location)) f)
    | Final status body ct hs n k \<Rightarrow>
        eg_bind (eg_lift (u64_of_usize ''response size overflow'' n)) (\<lambda>m.
          eg_bind (settle_hop v m t) (\<lambda>_. eg_lift (g status body ct hs n k)))) w = (r, tr, w')"
    and reply: "receive env (ad_policy d) reply secret = Inr h" and out: "sent_under env ctx state q verb secret d v out"
    and cap64: "ed_max_response_bytes (ad_policy d) < 2 ^ 64"
  obtains "\<And>k. hop_trace env ctx state expected q verb secret k d (HReserved v # HSent (ad_policy d) out # tr)"
  | d' w1 tr' where "\<not> cap \<le> redirects" "verb = ''GET'' \<or> verb = ''HEAD''" "f d' w1 = (r, tr', w')"
      "\<And>k. hop_trace env ctx state expected q verb secret k d' tr'
         \<Longrightarrow> hop_trace env ctx state expected q verb secret (Suc k) d (HReserved v # HSent (ad_policy d) out # tr)"
proof (cases h)
  case (Final status body ct hs n m)
  note final = reply [unfolded Final]
  show thesis
  proof (cases "u64_of_usize ''response size overflow'' n")
    case (Inl e)
    then have "tr = []" using run Final by simp
    moreover have "\<not> ed_max_response_bytes (ad_policy d) < usize_max"
      using Inl final_fits [OF final] by (metis Inl_Inr_False)
    ultimately have "hop_trace env ctx state expected q verb secret k d (HReserved v # HSent (ad_policy d) out # tr)" for k
      using hop_overflowed [OF out] by simp
    then show thesis by (rule that(1))
  next
    case (Inr y)
    then have "tr = [HSettled v y t]" using run Final settle_then_stop by fastforce
    then have "hop_trace env ctx state expected q verb secret k d (HReserved v # HSent (ad_policy d) out # tr)" for k
      using hop_last [OF out] final_settled [OF final cap64 Inr] out by (simp add: sent_under_def reserved_for_def)
    then show thesis by (rule that(1))
  qed
next
  case (Redirect location)
  show thesis
  proof (cases rule: redirect_followed [OF run [unfolded Redirect hop_response.case]])
    case 1
    then have "hop_trace env ctx state expected q verb secret k d (HReserved v # HSent (ad_policy d) out # tr)" for k
      using hop_last [OF out] by simp
    then show thesis by (rule that(1))
  next
    case (2 w4 tr' d')
    show thesis using that(2) [OF 2(3,2,5)] hop_redirected [OF out 2(2,4)] 2(1) by simp
  qed
qed

lemma hop_loop_round:
  assumes "hop_loop env ctx state expected q verb secret cap redirects d w = (r, tr, w')"
  obtains "\<And>k. hop_trace env ctx state expected q verb secret k d tr" "(\<exists>e. r = Inl e) \<or> sent_to tr \<noteq> []"
  | d' w1 tr' where "sent_to tr \<noteq> []" "\<not> cap \<le> redirects" "verb = ''GET'' \<or> verb = ''HEAD''"
      "hop_loop env ctx state expected q verb secret cap (sat_add redirects 1) d' w1 = (r, tr', w')"
      "\<And>k. hop_trace env ctx state expected q verb secret k d' tr' \<Longrightarrow> hop_trace env ctx state expected q verb secret (Suc k) d tr"
  using assms [unfolded hop_loop.simps [of env ctx state expected q verb secret cap redirects d]]
proof (cases rule: eg_bind_cases)
  case (1 e)
  then show thesis using attempt_hop_trace [OF 1(1)] by (auto intro: that(1) hop_refused)
next
  case (2 x tr1 w1 tr2)
  from attempt_hop_trace [OF 2(1)] obtain v t hop w2 sends w3 where x: "x = (v, t, hop)" "tr1 = HReserved v # sends"
    and m: "perform_hop env d verb q secret w2 = (hop, sends, w3)" and v: "reserved_for ctx d v"
    and g: "ed_max_response_bytes (ad_policy d) < 2 ^ 64"
      "\<And>out. sent_ok env q verb secret d out \<Longrightarrow> sent_under env ctx state q verb secret d v out"
    by blast
  note sent = perform_hop_trace [OF m]
  note run = 2(2) [unfolded x(1) prod.case]
  have tr: "tr = HReserved v # sends @ tr2" using 2(3) x(2) by simp
  show thesis
  proof (cases hop)
    case (Inl e)
    then have "tr2 = [HSettled v 0 t]" "\<exists>e. r = Inl e" using run settle_then_stop settle_then_fail by fastforce+
    moreover from this have "hop_trace env ctx state expected q verb secret k d tr" for k
      using sent tr hop_unsent [OF v] hop_last [OF g(2)] by auto
    ultimately show thesis using that(1) by blast
  next
    case (Inr h)
    with sent obtain out reply where out: "sends = [HSent (ad_policy d) out]" "sent_ok env q verb secret d out"
      and reply: "receive env (ad_policy d) reply secret = Inr h"
      by auto
    then have tr': "tr = HReserved v # HSent (ad_policy d) out # tr2" using tr by simp
    have "sent_to tr \<noteq> []" using tr' by simp
    then show thesis
      using answered_round [OF run [unfolded Inr sum.case] reply g(2) [OF out(2)] g(1)] that tr' by metis
  qed
qed

lemma hop_loop_trace:
  assumes "hop_loop env ctx state expected q verb secret cap redirects d w = (r, tr, w')"
  shows "hop_trace env ctx state expected q verb secret (unat cap - unat redirects) d tr"
  using assms
proof (induction env ctx state expected q verb secret cap redirects d arbitrary: w r tr w' rule: hop_loop.induct)
  case (1 env ctx state expected q verb secret cap redirects d)
  show ?case
  proof (cases rule: hop_loop_round [OF "1.prems"])
    case (2 d' w1 tr')
    have "hop_trace env ctx state expected q verb secret (unat cap - unat (sat_add redirects 1)) d' tr'"
      using "1.IH" 2(2-4) by blast
    then show ?thesis using 2(5) redirects_left [OF 2(2)] by simp
  qed
qed

subsection \<open>The whole request\<close>

text \<open>The runtime state a request reads: \<open>execute_scoped\<close> clones it once, after it drew the audit id and
  read the clock.\<close>

definition snapshot_state :: "'w egress_env \<Rightarrow> 'w egress_world \<Rightarrow> runtime_state" where
  "snapshot_state env w = er_state (eg_runtime (snd (env_now env (snd (env_random env 16 w)))))"

lemma deny_request_run: "deny_request ctx i m d g e w = (r, tr, w') \<Longrightarrow> tr = [] \<and> (\<exists>e. r = Inl e)"
  by (auto simp: deny_request_def emit_denial_def audit_def eg_defs split: prod.splits sum.splits)

lemma or_deny_bind:
  assumes "eg_bind (or_deny ctx i m d g (eg_lift s)) f w = (r, tr, w')" "tr \<noteq> []"
  shows "\<exists>x. s = Inr x \<and> f x w = (r, tr, w')"
proof (cases s)
  case (Inl e)
  then show ?thesis
    using assms by (auto simp: or_deny_def eg_bind_def eg_try_def eg_lift_def dest!: deny_request_run
        split: prod.splits sum.splits)
next
  case (Inr x)
  then show ?thesis using assms by (simp add: or_deny_def eg_defs split: prod.splits)
qed

lemma eg_get_bind: "eg_bind (eg_get h) f w = f (h w) w"
  by (simp add: eg_bind_def eg_get_def split: prod.splits)

text \<open>\<open>emits Q m\<close>: a call of \<open>m\<close> observes nothing, or what \<open>Q\<close> allows.\<close>

definition emits :: "(hop_event list \<Rightarrow> bool) \<Rightarrow> ('e, 'a, 'w) run \<Rightarrow> bool" where
  "emits Q m \<longleftrightarrow> (\<forall>w. fst (snd (m w)) = [] \<or> Q (fst (snd (m w))))"

lemma emitsD: "emits Q m \<Longrightarrow> m w = (r, tr, w') \<Longrightarrow> tr = [] \<or> Q tr"
  by (auto simp: emits_def dest: spec [of _ w])

lemma emits_quiet: "quiet m \<Longrightarrow> emits Q m"
  by (simp add: quiet_def emits_def)

lemma emits_after: "quiet m \<Longrightarrow> (\<And>x. emits Q (f x)) \<Longrightarrow> emits Q (eg_bind m f)"
  by (auto simp: quiet_def emits_def eg_bind_def split: prod.splits sum.splits) (metis fst_conv snd_conv append_Nil)+

lemma emits_before: "emits Q m \<Longrightarrow> (\<And>x. quiet (f x)) \<Longrightarrow> emits Q (eg_bind m f)"
  by (auto simp: quiet_def emits_def eg_bind_def split: prod.splits sum.splits) (metis fst_conv snd_conv append_Nil2)+

lemma emits_try: "emits Q m \<Longrightarrow> emits Q (eg_try m)"
  by (auto simp: emits_def eg_try_def split: prod.splits) (metis fst_conv snd_conv)

lemma emits_if: "(p \<Longrightarrow> emits Q c) \<Longrightarrow> (\<not> p \<Longrightarrow> emits Q d) \<Longrightarrow> emits Q (if p then c else d)"
  by simp

text \<open>The traces a request to an authorized destination can have.\<close>

definition request_trace ::
    "'w egress_env \<Rightarrow> 'w egress_world invocation_ctx \<Rightarrow> runtime_state \<Rightarrow> string option \<Rightarrow> http_request
     \<Rightarrow> authorized_destination \<Rightarrow> hop_event list \<Rightarrow> bool" where
  "request_trace env ctx state expected q d tr \<longleftrightarrow>
     (\<forall>e. expected = Some e \<longrightarrow> ed_id (ad_policy d) = e)
     \<and> (\<exists>secret. hop_trace env ctx state expected q (to_ascii_uppercase (hq_method q)) secret
                   (unat (ed_max_redirects (ad_policy d))) d tr)"

lemma execute_hops_emits:
  assumes "\<forall>e. expected = Some e \<longrightarrow> ed_id (ad_policy d) = e"
  shows "emits (request_trace env ctx state expected q d) (execute_hops env ctx state expected q d secret)"
  unfolding emits_def
proof
  fix w
  let ?m = "to_ascii_uppercase (hq_method q)" and ?cap = "ed_max_redirects (ad_policy d)"
  obtain r tr w' where h: "hop_loop env ctx state expected q ?m secret ?cap 0 d w = (r, tr, w')" by (metis prod_cases3)
  then show "fst (snd (execute_hops env ctx state expected q d secret w)) = []
    \<or> request_trace env ctx state expected q d (fst (snd (execute_hops env ctx state expected q d secret w)))"
    using hop_loop_trace [OF h] assms by (auto simp: execute_hops_def Let_def request_trace_def eg_lift_def)
qed

lemma execute_authorized_emits:
  "emits (request_trace env ctx state expected q d) (execute_authorized env ctx expected q i started method state d)"
  unfolding execute_authorized_def Let_def
  apply (rule emits_if, intro emits_quiet quiet_intros)
  apply (rule emits_after, intro quiet_intros)
  apply (rule emits_after, intro quiet_intros)
  apply (rule emits_if, intro emits_quiet quiet_intros)
  apply (rule emits_after, intro quiet_intros)
  apply (rule emits_after, intro quiet_intros)
  apply (rule emits_after, intro quiet_intros)
  apply (rule emits_before)
   apply (rule emits_try, rule execute_hops_emits)
   apply (simp split: option.splits)
  apply (intro quiet_intros)
  done

lemma execute_scoped_trace:
  assumes "execute_scoped env ctx expected q w = (r, tr, w')" and "tr \<noteq> []"
  obtains d where "require_session ctx = Inr ()"
    "authorize (env_parse_url env) (rs_config (snapshot_state env w)) (hq_url q) (to_ascii_uppercase (hq_method q)) = Inr d"
    "request_trace env ctx (snapshot_state env w) expected q d tr"
proof -
  let ?m = "to_ascii_uppercase (hq_method q)"
  let ?w1 = "snd (env_random env 16 w)"
  let ?w2 = "snd (env_now env ?w1)"
  let ?st = "snapshot_state env w"
  obtain i started where "eg_bind (or_deny ctx i ?m None 0 (eg_lift (require_session ctx))) (\<lambda>_.
      eg_bind (eg_get (\<lambda>w. er_state (eg_runtime w))) (\<lambda>state.
      eg_bind (or_deny ctx i ?m None (rs_generation state)
        (eg_lift (authorize (env_parse_url env) (rs_config state) (hq_url q) ?m))) (\<lambda>d.
      execute_authorized env ctx expected q i started ?m state d))) ?w2 = (r, tr, w')"
    using assms(1,2) unfolding execute_scoped_def Let_def
    by (auto simp: random_token_def eg_now_def eg_run_def eg_bind_def [of "eg_run _"] split: option.splits)
  then obtain d where "require_session ctx = Inr ()"
      "authorize (env_parse_url env) (rs_config ?st) (hq_url q) ?m = Inr d"
      "execute_authorized env ctx expected q i started ?m ?st d ?w2 = (r, tr, w')"
    using assms(2) by (auto simp: eg_get_bind snapshot_state_def [symmetric] dest!: or_deny_bind)
  then show ?thesis
    using that execute_authorized_emits assms(2) by (metis emitsD)
qed

lemma headers_bytes_allowed:
  "headers_bytes p hs n = Inr m \<Longrightarrow> (name, v) \<in> set hs \<Longrightarrow> to_ascii_lowercase name \<in> set (ed_allowed_request_headers p)"
  by (induction p hs n rule: headers_bytes.induct) (auto simp: Let_def split: sum.splits if_splits option.splits)

lemma caller_headers_allowed:
  "validate_request_headers p hs = Inr () \<Longrightarrow> (name, v) \<in> set hs
     \<Longrightarrow> to_ascii_lowercase name \<in> set (ed_allowed_request_headers p)"
  by (auto simp: validate_request_headers_def headers_bytes_allowed split: sum.splits if_splits)

text \<open>What holds of every request of a redirect chain.\<close>

definition contained ::
    "'w egress_env \<Rightarrow> 'w egress_world invocation_ctx \<Rightarrow> runtime_state \<Rightarrow> string option \<Rightarrow> http_request
     \<Rightarrow> egress_destination \<Rightarrow> client_request \<Rightarrow> bool" where
  "contained env ctx state expected q p out \<longleftrightarrow>
     (\<exists>u. authorize (env_parse_url env) (rs_config state) u (to_ascii_uppercase (hq_method q))
            = Inr \<lparr>ad_policy = p, ad_url = cr_url out\<rparr>)
     \<and> p \<in> snd ` set (vc_destinations (rs_config state))
     \<and> (expected = None \<or> expected = Some (ed_id p))
     \<and> ''egress.destination:'' @ ed_id p \<in> allowed (grants ctx)
     \<and> (ed_id p, ed_version p) \<notin> rs_revoked_destinations state
     \<and> cr_method out = to_ascii_uppercase (hq_method q) \<and> cr_body out = hq_body q \<and> cr_host out = ed_host p
     \<and> cr_addresses out \<noteq> []
     \<and> (\<forall>(ip, port) \<in> set (cr_addresses out). port = ed_port p \<and> acceptable (ed_allow_private_ips p) ip)
     \<and> (\<forall>(name, v) \<in> set (hq_headers q). to_ascii_lowercase name \<in> set (ed_allowed_request_headers p))
     \<and> (\<exists>secret. request_headers env p (hq_headers q) secret = Inr (cr_headers out)
          \<and> (\<forall>s. secret = Some s \<longrightarrow> ''secrets.use:'' @ es_id (sec_config s) \<in> allowed (grants ctx)
                \<and> ed_id p \<in> set (es_destinations (sec_config s))
                \<and> (es_id (sec_config s), es_version (sec_config s)) \<notin> rs_revoked_secrets state))"

lemma authorize_destination_Inr:
  "authorize_destination ctx state p = Inr () \<longleftrightarrow>
     ''egress.destination:'' @ ed_id p \<in> allowed (grants ctx) \<and> (ed_id p, ed_version p) \<notin> rs_revoked_destinations state"
  by (auto simp: authorize_destination_def require_exact_grant_def)

lemma authorize_secret_Inr:
  "authorize_secret_for_destination ctx state s p = Inr () \<longleftrightarrow>
     (es_id (sec_config s), es_version (sec_config s)) \<notin> rs_revoked_secrets state
     \<and> ''secrets.use:'' @ es_id (sec_config s) \<in> allowed (grants ctx) \<and> ed_id p \<in> set (es_destinations (sec_config s))"
  by (auto simp: authorize_secret_for_destination_def ensure_secret_not_revoked_def authorize_secret_for_config_def
      require_exact_grant_def)

lemma containedI:
  assumes "authorize (env_parse_url env) (rs_config state) u (to_ascii_uppercase (hq_method q)) = Inr d"
    and "\<forall>e. expected = Some e \<longrightarrow> ed_id (ad_policy d) = e"
    and "sent_under env ctx state q (to_ascii_uppercase (hq_method q)) secret d v out"
  shows "contained env ctx state expected q (ad_policy d) out"
proof -
  from assms(3) have ok: "sent_ok env q (to_ascii_uppercase (hq_method q)) secret d out" by (simp add: sent_under_def)
  have d: "d = \<lparr>ad_policy = ad_policy d, ad_url = cr_url out\<rparr>" using ok by (simp add: sent_ok_def)
  have e: "expected = None \<or> expected = Some (ed_id (ad_policy d))" using assms(2) by (cases expected) auto
  have a: "\<exists>u. authorize (env_parse_url env) (rs_config state) u (to_ascii_uppercase (hq_method q))
      = Inr \<lparr>ad_policy = ad_policy d, ad_url = cr_url out\<rparr>"
    using assms(1) d by auto
  have h: "\<forall>(name, v) \<in> set (hq_headers q). to_ascii_lowercase name \<in> set (ed_allowed_request_headers (ad_policy d))"
    using ok caller_headers_allowed by (auto simp: sent_ok_def)
  have s: "\<exists>secret. request_headers env (ad_policy d) (hq_headers q) secret = Inr (cr_headers out)
      \<and> (\<forall>s. secret = Some s \<longrightarrow> ''secrets.use:'' @ es_id (sec_config s) \<in> allowed (grants ctx)
            \<and> ed_id (ad_policy d) \<in> set (es_destinations (sec_config s))
            \<and> (es_id (sec_config s), es_version (sec_config s)) \<notin> rs_revoked_secrets state)"
    using assms(3) unfolding sent_under_def sent_ok_def authorize_secret_Inr by blast
  show ?thesis
    using a e h s authorize_listed [OF assms(1)] ok assms(3)
    unfolding contained_def sent_under_def authorize_destination_Inr sent_ok_def by simp
qed

lemma next_destination_Inr:
  "next_destination env state expected method d location = Inr d' \<Longrightarrow>
     (\<exists>u. authorize (env_parse_url env) (rs_config state) u method = Inr d') \<and> (\<forall>e. expected = Some e \<longrightarrow> ed_id (ad_policy d') = e)
     \<and> (ed_id (ad_policy d') = ed_id (ad_policy d) \<or> ed_id (ad_policy d') \<in> set (ed_redirect_to (ad_policy d)))"
  by (auto simp: next_destination_def split: option.splits sum.splits if_splits)

lemma hop_trace_contained:
  assumes "hop_trace env ctx state expected q (to_ascii_uppercase (hq_method q)) secret k d tr"
    and "authorize (env_parse_url env) (rs_config state) u (to_ascii_uppercase (hq_method q)) = Inr d"
    and "\<forall>e. expected = Some e \<longrightarrow> ed_id (ad_policy d) = e" and "HSent p out \<in> set tr"
  shows "contained env ctx state expected q p out"
  using assms
proof (induction arbitrary: u rule: hop_trace.induct)
  case (hop_last d v out' n k t)
  then show ?case using containedI [OF hop_last.prems(1,2) hop_last.hyps(1)] by auto
next
  case (hop_overflowed d v out' k)
  then show ?case using containedI [OF hop_overflowed.prems(1,2) hop_overflowed.hyps(1)] by auto
next
  case (hop_redirected d v out' location d' k tr t)
  show ?case
  proof (cases "HSent p out \<in> set tr")
    case True
    then show ?thesis using hop_redirected.IH next_destination_Inr [OF hop_redirected.hyps(3)] by blast
  next
    case False
    then show ?thesis
      using containedI [OF hop_redirected.prems(1,2) hop_redirected.hyps(1)] hop_redirected.prems(3)
      by auto
  qed
qed auto

text \<open>Reservations are settled one by one, and never for more than was reserved.\<close>

fun settled_in_turn :: "hop_event list \<Rightarrow> bool" where
  "settled_in_turn [] = True"
| "settled_in_turn (HReserved v # HSettled v' n t # tr) =
     (v' = v \<and> n \<le> ev_response_reserved v \<and> settled_in_turn tr)"
| "settled_in_turn (HReserved v # HSent p out # HSettled v' n t # tr) =
     (v' = v \<and> n \<le> ev_response_reserved v \<and> ev_destination_id v = ed_id p \<and> settled_in_turn tr)"
| "settled_in_turn _ = False"

definition redirects_to :: "egress_destination \<Rightarrow> egress_destination \<Rightarrow> bool" where
  "redirects_to a b \<longleftrightarrow> ed_id b = ed_id a \<or> ed_id b \<in> set (ed_redirect_to a)"

lemma hop_trace_settled:
  assumes "hop_trace env ctx state expected q method secret k d tr"
    and "\<forall>p \<in> snd ` set (vc_destinations (rs_config state)). ed_max_response_bytes p < usize_max"
    and "ad_policy d \<in> snd ` set (vc_destinations (rs_config state))"
  shows "settled_in_turn tr \<and> (\<forall>v. HReserved v \<in> set tr \<longrightarrow> ev_session_id v = session_id ctx)"
  using assms
proof (induction rule: hop_trace.induct)
  case (hop_redirected d v out location d' k tr t)
  then show ?case using next_destination_listed [OF hop_redirected.hyps(3)] by (auto simp: sent_under_def reserved_for_def)
qed (auto simp: sent_under_def reserved_for_def)

lemma hop_trace_redirects:
  assumes "hop_trace env ctx state expected q method secret k d tr"
  shows "length (sent_to tr) \<le> Suc k" and "method \<noteq> ''GET'' \<Longrightarrow> method \<noteq> ''HEAD'' \<Longrightarrow> length (sent_to tr) \<le> 1"
    and "sent_to tr = [] \<or> hd (sent_to tr) = ad_policy d \<and> successively redirects_to (sent_to tr)"
  using assms
proof (induction rule: hop_trace.induct)
  case (hop_redirected d v out location d' k tr t)
  case 3
  then show ?case
    using hop_redirected.IH(3) next_destination_Inr [OF hop_redirected.hyps(3)]
    by (cases "sent_to tr") (auto simp: redirects_to_def)
qed auto


text \<open>C10. Every budget reservation is settled. In the observations of one call each reservation is
  followed, after at most one request to its destination, by its own settlement before anything else
  is reserved; no reservation stays open, also when resolving, connecting or reading fails or the
  timer fires. A settlement never reports more bytes than were reserved, which is what the exact
  accounting of the budget relies on, and every reservation is in the caller's session. The
  response-byte caps of the policy are below the largest \<open>usize\<close>.\<close>

theorem execute_settles:
  assumes "execute_scoped env ctx expected q w = (r, tr, w')"
    and "\<forall>d \<in> snd ` set (vc_destinations (rs_config (snapshot_state env w))). ed_max_response_bytes d < usize_max"
  shows "settled_in_turn tr \<and> (\<forall>v. HReserved v \<in> set tr \<longrightarrow> ev_session_id v = session_id ctx)"
proof (cases "tr = []")
  case False
  then show ?thesis
    using execute_scoped_trace [OF assms(1)] hop_trace_settled [OF _ assms(2) authorize_listed]
    unfolding request_trace_def by metis
qed simp

text \<open>C18. Redirects are bounded and allowlisted. Under a validated production policy one call sends at
  most six requests, and no more than one above the first destination's redirect cap. A method other
  than GET or HEAD is sent at most once, so a redirect never repeats a mutation. Each request after
  the first goes to the same destination as the one before or to one of its \<open>redirect_to\<close> list.\<close>

theorem execute_redirects_bounded:
  assumes "execute_scoped env ctx expected q w = (r, tr, w')"
    and "config_wf allow_http (rs_config (snapshot_state env w))"
  shows "length (sent_to tr) \<le> 6
    \<and> (sent_to tr \<noteq> [] \<longrightarrow> length (sent_to tr) \<le> unat (ed_max_redirects (hd (sent_to tr))) + 1)
    \<and> (to_ascii_uppercase (hq_method q) \<notin> {''GET'', ''HEAD''} \<longrightarrow> length (sent_to tr) \<le> 1)
    \<and> successively redirects_to (sent_to tr)"
proof (cases "sent_to tr = []")
  case False
  then have "tr \<noteq> []" by auto
  then obtain d secret where d: "ad_policy d \<in> snd ` set (vc_destinations (rs_config (snapshot_state env w)))"
    and t: "hop_trace env ctx (snapshot_state env w) expected q (to_ascii_uppercase (hq_method q)) secret
      (unat (ed_max_redirects (ad_policy d))) d tr"
    using execute_scoped_trace [OF assms(1)] authorize_listed unfolding request_trace_def by metis
  have "ed_max_redirects (ad_policy d) \<le> 5" using d assms(2) by (auto simp: config_wf_def destination_wf_def)
  then have "unat (ed_max_redirects (ad_policy d)) \<le> 5" by (simp add: word_le_nat_alt)
  then show ?thesis using hop_trace_redirects [OF t] False by auto
qed simp

subsection \<open>A sample exchange\<close>

definition sample_env :: "unit egress_env" where
  "sample_env =
     \<lparr>env_parse_url = sample_parse_url, env_join = (\<lambda>_. sample_parse_url), env_parse_ip = (\<lambda>_. None),
      env_var = (\<lambda>_ _. None), env_now = (\<lambda>w. (0, w)), env_random = (\<lambda>n w. (Some (replicate n (CHR ''r'')), w)),
      env_resolve = (\<lambda>_ port w. (Ready (Inr [(V4 0x08080808, port)]), w)), env_client = (\<lambda>_ _. True),
      env_send = (\<lambda>_ w. (Ready (Some \<lparr>reply_status = 204, reply_headers = [], reply_content_length = None,
                                       reply_body = []\<rparr>), w)),
      env_method = (\<lambda>_. True), env_header_name = Some, env_header_value = (\<lambda>_. True), env_header_text = Some,
      env_sha256 = id, env_hex = id, env_json_text = (\<lambda>_. Some ''json''), env_destination_json = (\<lambda>_. JNull),
      env_secret_json = (\<lambda>_. JNull), env_effect_scope = (\<lambda>_. Some ''turn'')\<rparr>"

text \<open>The sample policy with another method, and a request with it.\<close>

definition sample_target :: "string \<Rightarrow> egress_destination" where
  "sample_target m = sample_destination\<lparr>ed_methods := [m]\<rparr>"

definition sample_world :: "string \<Rightarrow> unit egress_world" where
  "sample_world m =
     \<lparr>eg_runtime = \<lparr>er_state = \<lparr>rs_config = sample_policy\<lparr>vc_destinations := [(''research'', sample_target m)]\<rparr>,
                                rs_revoked_destinations = {}, rs_revoked_secrets = {}, rs_generation = 1\<rparr>,
                    er_handles = [], er_durable = egress_store_default, er_allow_http = False\<rparr>,
      eg_rest = ()\<rparr>"

definition sample_ctx :: "unit egress_world invocation_ctx" where
  "sample_ctx = (ctx_new \<lparr>allowed = {''egress.destination:research''}\<rparr>)\<lparr>session_id := ''s1'',
     approvals := (\<lambda>_ _ w. (Inr Approved, w))\<rparr>"

definition sample_request :: "string \<Rightarrow> http_request" where
  "sample_request m = \<lparr>hq_method = m, hq_url = ''https://api.example.com/v1/search'', hq_headers = [],
     hq_body = None, hq_auth = None, hq_timeout_ms = None\<rparr>"

definition sample_goal :: "string \<Rightarrow> authorized_destination" where
  "sample_goal m = \<lparr>ad_policy = sample_target m, ad_url = sample_url ''/v1/search''\<rparr>"

lemma sample_target_fields [simp]:
  "ed_id (sample_target m) = ''research''" "ed_version (sample_target m) = 1" "ed_max_redirects (sample_target m) = 0"
  "ed_max_request_bytes (sample_target m) = 256 * 2 ^ 10" "ed_request_timeout_ms (sample_target m) = 15000"
  "ed_max_response_bytes (sample_target m) = 2 ^ 20" "ed_host (sample_target m) = ''api.example.com''"
  "ed_port (sample_target m) = 443" "ed_allow_private_ips (sample_target m) = False"
  "ad_policy (sample_goal m) = sample_target m" "ad_url (sample_goal m) = sample_url ''/v1/search''"
  by (simp_all add: sample_target_def sample_destination_def default_destination_def sample_goal_def)

lemma sample_fields [simp]:
  "hq_timeout_ms (sample_request m) = None" "hq_body (sample_request m) = None" "hq_auth (sample_request m) = None"
  "hq_headers (sample_request m) = []" "hq_method (sample_request m) = m"
  "hq_url (sample_request m) = ''https://api.example.com/v1/search''"
  "session_id sample_ctx = ''s1''" "allowed (grants sample_ctx) = {''egress.destination:research''}"
  "vc_session_limits (rs_config (er_state (eg_runtime (sample_world m)))) = vc_session_limits sample_policy"
  "vc_destinations (rs_config (er_state (eg_runtime (sample_world m)))) = [(''research'', sample_target m)]"
  "rs_revoked_destinations (er_state (eg_runtime (sample_world m))) = {}"
  "er_durable (eg_runtime (sample_world m)) = egress_store_default"
  by (simp_all add: sample_request_def sample_ctx_def ctx_new_def ctx_with_approvals_def sample_world_def)

lemma sample_env_fields [simp]:
  "env_now sample_env w = (0, w)" "env_random sample_env k w = (Some (replicate k (CHR ''r'')), w)"
  "env_parse_url sample_env = sample_parse_url" "env_method sample_env m"
  "env_json_text sample_env v = Some ''json''" "env_effect_scope sample_env ctx = Some ''turn''"
  "approvals sample_ctx a t w = (Inr Approved, w)" "events sample_ctx e j w = (Inr (), w)"
  by (simp_all add: sample_env_def sample_ctx_def ctx_new_def ctx_with_approvals_def noop_host_event_sink_def)

lemma sample_addresses: "validate_resolved_addresses [(V4 0x08080808, 443)] 443 False = Inr [(V4 0x08080808, 443)]"
proof -
  have "acceptable False (V4 0x08080808)" "normalize_ip (V4 0x08080808) = V4 0x08080808"
    by (simp_all add: never4_def nonpublic4_def dotted_def normalize_ip_def)
  then show ?thesis
    using validate_addresses_Inr [of "[]" "[(V4 0x08080808, 443)]" 443 False "[(V4 0x08080808, 443)]"]
    by (simp add: validate_resolved_addresses_def)
qed

lemma sample_headers [simp]: "validate_request_headers p [] = Inr ()"
  by (simp add: validate_request_headers_def)

lemma sample_hop:
  "\<exists>out. perform_hop sample_env (sample_goal m) m (sample_request m) None w
     = (Inr (Final 204 [] None [] 0 0), [HSent (sample_target m) out], w)"
  using sample_addresses
  by (simp add: perform_hop_def eg_defs sample_env_def request_headers_def receive_def exposed_response_headers_def
      EXPOSED_RESPONSE_HEADERS_def get_all_def final_response_def from_utf8_def Let_def)

lemma sample_snapshot: "snapshot_state sample_env (sample_world m) = er_state (eg_runtime (sample_world m))"
  by (simp add: snapshot_state_def)

lemma sample_size:
  "length m = 3 \<Longrightarrow> request_size_for_url (sample_request m) (url_as_str (sample_url ''/v1/search'')) None = Inr 36"
  by (simp add: request_size_for_url_def request_size_without_secret_value_def sample_url_def usize_checked_add_def)

lemma default_reservation:
  "validate_reservation egress_usage_default l 36 (2 ^ 20) 15000 = Inr ()"
  if "l = \<lparr>el_max_requests = 16, el_max_request_bytes = 2 ^ 20, el_max_response_bytes = 2 ^ 23, el_max_time_ms = 120000\<rparr>
    \<or> l = \<lparr>el_max_requests = 8, el_max_request_bytes = 2 ^ 19, el_max_response_bytes = 2 ^ 22, el_max_time_ms = 60000\<rparr>"
  using that by (auto simp: validate_reservation_def egress_usage_default_def sat_add_def)

lemma sample_budget:
  "\<exists>b. budget_request sample_env sample_ctx (vc_session_limits sample_policy) (sample_target m) 36 15000 w
     = (Inr b, [], w) \<and> fst (store_reserve_budget egress_store_default b) = Inr (reservation_of b)"
proof -
  let ?b = "\<lparr>eq_reservation_id = replicate 16 (CHR ''r''), eq_session_id = ''s1'', eq_destination_id = ''research'',
    eq_request_bytes = 36, eq_response_reserved = 2 ^ 20, eq_time_reserved_ms = 15000,
    eq_session_limits = \<lparr>el_max_requests = 16, el_max_request_bytes = 2 ^ 20, el_max_response_bytes = 2 ^ 23,
                         el_max_time_ms = 120000\<rparr>,
    eq_destination_limits = \<lparr>el_max_requests = 8, el_max_request_bytes = 2 ^ 19, el_max_response_bytes = 2 ^ 22,
                             el_max_time_ms = 60000\<rparr>\<rparr>"
  have "budget_request sample_env sample_ctx (vc_session_limits sample_policy) (sample_target m) 36 15000 w
      = (Inr ?b, [], w)"
    by (simp add: budget_request_def eg_defs random_token_def sample_env_def u64_of_usize_def session_usage_limits_def
        destination_usage_limits_def sample_policy_def default_session_limits_def sample_target_def
        sample_destination_def default_destination_def)
  moreover have "fst (store_reserve_budget egress_store_default ?b) = Inr (reservation_of ?b)"
    using default_reservation
    by (simp add: store_reserve_budget_def reserve_def egress_store_default_def budget_book_default_def Let_def
        session_or_default_def session_usage_default_def usage_or_default_def)
  ultimately show ?thesis by blast
qed

lemma sample_authorized: "authorize_destination sample_ctx (er_state (eg_runtime (sample_world m'))) (sample_target m) = Inr ()"
  by (simp add: authorize_destination_def require_exact_grant_def)

text \<open>Budgets that hold nothing yet; the effect records do not matter.\<close>

lemma fresh_reservation:
  assumes "vs_budgets (er_durable (eg_runtime w)) = budget_book_default"
    and "fst (store_reserve_budget egress_store_default b) = Inr v"
  shows "\<exists>w'. durable (\<lambda>st. store_reserve_budget st b) w = (Inr v, [], w')"
  using assms
  by (auto simp: durable_def eg_run_def Let_def store_reserve_budget_def egress_store_default_def split: prod.splits)

lemma sample_attempt:
  assumes "length m = 3" and "vs_budgets (er_durable (eg_runtime w)) = budget_book_default"
  shows "\<exists>v t out w'. attempt_hop sample_env sample_ctx (er_state (eg_runtime (sample_world m))) (sample_request m) m
       (sample_goal m) None w
     = (Inr (v, t, Inr (Final 204 [] None [] 0 0)), [HReserved v, HSent (sample_target m) out], w')"
proof -
  obtain b where b: "budget_request sample_env sample_ctx (vc_session_limits sample_policy) (sample_target m) 36 15000 w
      = (Inr b, [], w)" "fst (store_reserve_budget egress_store_default b) = Inr (reservation_of b)"
    using sample_budget by blast
  then obtain w1 where w: "durable (\<lambda>st. store_reserve_budget st b) w = (Inr (reservation_of b), [], w1)"
    using fresh_reservation [OF assms(2)] by blast
  obtain out where "perform_hop sample_env (sample_goal m) m (sample_request m) None w1
      = (Inr (Final 204 [] None [] 0 0), [HSent (sample_target m) out], w1)"
    using sample_hop by blast
  then show ?thesis
    using b(1) w
    by (simp add: attempt_hop_def Let_def sample_authorized sample_size [OF assms(1)] eg_bind_def eg_observe_def eg_now_def
        eg_run_def eg_try_def split: prod.splits)
qed

lemma sample_loop:
  assumes "length m = 3" and "vs_budgets (er_durable (eg_runtime w)) = budget_book_default"
  shows "\<exists>r v out n t w'. hop_loop sample_env sample_ctx (er_state (eg_runtime (sample_world m))) expected (sample_request m) m
       None 0 0 (sample_goal m) w
     = (r, [HReserved v, HSent (sample_target m) out, HSettled v n t], w')"
proof -
  obtain v t out w' where a: "attempt_hop sample_env sample_ctx (er_state (eg_runtime (sample_world m))) (sample_request m) m
       (sample_goal m) None w
     = (Inr (v, t, Inr (Final 204 [] None [] 0 0)), [HReserved v, HSent (sample_target m) out], w')"
    using sample_attempt [OF assms] by blast
  have u: "u64_of_usize ''response size overflow'' 0 = Inr 0" by (simp add: u64_of_usize_def)
  show ?thesis
    by (subst hop_loop.simps)
      (auto simp: eg_bind_def [of "attempt_hop _ _ _ _ _ _ _"] a u settle_hop_def durable_def eg_defs Let_def
        split: prod.splits sum.splits)
qed

lemma sample_get:
  "sample_target ''GET'' = sample_destination" "rs_config (er_state (eg_runtime (sample_world ''GET''))) = sample_policy"
  by (simp_all add: sample_target_def sample_world_def sample_destination_def default_destination_def sample_policy_def)

lemma sample_caps:
  "\<forall>d \<in> snd ` set (vc_destinations (rs_config (snapshot_state sample_env (sample_world m)))). ed_max_response_bytes d < usize_max"
  by (simp add: sample_snapshot)

lemma sample_execute:
  obtains r tr w v out n t where "execute_scoped sample_env sample_ctx None (sample_request ''GET'') (sample_world ''GET'') = (r, tr, w)"
    "tr = [HReserved v, HSent sample_destination out, HSettled v n t]"
proof -
  obtain r v out n t w where l: "hop_loop sample_env sample_ctx (er_state (eg_runtime (sample_world ''GET''))) None
      (sample_request ''GET'') ''GET'' None 0 0 (sample_goal ''GET'') (sample_world ''GET'')
     = (r, [HReserved v, HSent sample_destination out, HSettled v n t], w)"
    using sample_loop [of "''GET''" "sample_world ''GET''" None] by (auto simp: sample_get egress_store_default_def)
  have "authorize sample_parse_url (rs_config (er_state (eg_runtime (sample_world ''GET''))))
      ''https://api.example.com/v1/search'' ''GET'' = Inr (sample_goal ''GET'')"
    by (simp add: sample_authorize sample_get sample_goal_def)
  then have "\<exists>r w. execute_scoped sample_env sample_ctx None (sample_request ''GET'') (sample_world ''GET'')
      = (r, [HReserved v, HSent sample_destination out, HSettled v n t], w)"
    using l
    by (simp add: execute_scoped_def execute_authorized_def execute_hops_def or_deny_def eg_defs random_token_def audit_def
        emit_event_def require_session_def sample_authorized sample_size Let_def split: prod.splits sum.splits)
  then show ?thesis using that by blast
qed


theorem execute_settles_witness:
  "\<exists>r tr w. execute_scoped sample_env sample_ctx None (sample_request ''GET'') (sample_world ''GET'') = (r, tr, w) \<and> tr \<noteq> [] \<and> settled_in_turn tr"
proof (rule sample_execute)
  fix r tr w v out n t
  assume e: "execute_scoped sample_env sample_ctx None (sample_request ''GET'') (sample_world ''GET'') = (r, tr, w)"
    and "tr = [HReserved v, HSent sample_destination out, HSettled v n t]"
  then show ?thesis using execute_settles [OF e sample_caps] by blast
qed

theorem execute_redirects_bounded_witness:
  "\<exists>r tr w. execute_scoped sample_env sample_ctx None (sample_request ''GET'') (sample_world ''GET'') = (r, tr, w)
     \<and> sent_to tr = [sample_destination] \<and> length (sent_to tr) \<le> 6 \<and> successively redirects_to (sent_to tr)"
proof (rule sample_execute)
  fix r tr w v out n t
  assume e: "execute_scoped sample_env sample_ctx None (sample_request ''GET'') (sample_world ''GET'') = (r, tr, w)"
    and t: "tr = [HReserved v, HSent sample_destination out, HSettled v n t]"
  have "config_wf False (rs_config (snapshot_state sample_env (sample_world ''GET'')))"
    using validate_config_wf_aux(1) [OF sample_validate] by (simp add: sample_snapshot sample_get)
  then show ?thesis using execute_redirects_bounded [OF e] e t by auto
qed

end
