(* ===== verification/Egress_Mutation.thy ===== *)
theory Egress_Mutation
  imports Egress_Trace
begin

text \<open>
  Requests other than GET, the mutation half of \<open>tm-egress/src/runtime.rs\<close>: the snapshot a mutation is
  approved against, the claim of its durable effect, the exchange, and the recording of its outcome.
  Two observations follow an effect: \<open>HClaimed\<close> when its record was created, and \<open>HFinished\<close> when its
  outcome is handed to the store.
\<close>

subsection \<open>The snapshot\<close>

record prepared_mutation =
  pm_state :: runtime_state
  pm_destination :: authorized_destination
  pm_policy_generation :: u64
  pm_destination_id :: string
  pm_destination_version :: u64
  pm_canonical_url :: string
  pm_target_digest :: string
  pm_request_digest :: string
  pm_query_digest :: string
  pm_request_bytes :: nat
  pm_secret :: "secret_snapshot option"

definition same_prepared :: "prepared_mutation \<Rightarrow> prepared_mutation \<Rightarrow> bool" where
  "same_prepared a b \<longleftrightarrow>
     pm_policy_generation a = pm_policy_generation b \<and> pm_destination_id a = pm_destination_id b
     \<and> pm_destination_version a = pm_destination_version b \<and> pm_canonical_url a = pm_canonical_url b
     \<and> pm_target_digest a = pm_target_digest b \<and> pm_request_digest a = pm_request_digest b
     \<and> pm_query_digest a = pm_query_digest b \<and> pm_request_bytes a = pm_request_bytes b
     \<and> pm_secret a = pm_secret b"

datatype mutation_execution = MExecute egress_mutation_record | MReplay egress_mutation_record

fun canonical_headers ::
    "(string \<times> string) list \<Rightarrow> (string \<times> string) list \<Rightarrow> (string \<times> string) list egress_result" where
  "canonical_headers [] canonical = Inr canonical"
| "canonical_headers ((name, value) # headers) canonical =
     (let n = to_ascii_lowercase name
      in if map_of canonical n \<noteq> None then Inl (EgInvalidRequest ''duplicate request header name'')
         else canonical_headers headers (bt_insert n value canonical))"

definition canonical_request_headers :: "(string \<times> string) list \<Rightarrow> (string \<times> string) list egress_result" where
  "canonical_request_headers headers = canonical_headers headers []"

definition json_option :: "('a \<Rightarrow> json) \<Rightarrow> 'a option \<Rightarrow> json" where
  "json_option f x = (case x of None \<Rightarrow> JNull | Some y \<Rightarrow> f y)"

abbreviation json_nat :: "nat \<Rightarrow> json" where
  "json_nat n \<equiv> JNumber (PosInt n)"

definition target_json :: "'w egress_env \<Rightarrow> egress_destination \<Rightarrow> egress_secret option \<Rightarrow> json" where
  "target_json env p s =
     JObject [(''destination'', env_destination_json env p), (''secret'', json_option (env_secret_json env) s)]"

definition request_json ::
    "'w egress_env \<Rightarrow> http_request \<Rightarrow> string \<Rightarrow> string \<Rightarrow> (string \<times> string) list \<Rightarrow> secret_snapshot option \<Rightarrow> string \<Rightarrow> json" where
  "request_json env q method canonical_url headers secret target_digest =
     (let body = (case hq_body q of None \<Rightarrow> [] | Some b \<Rightarrow> b) in
      JObject [(''bodyBytes'', json_nat (length body)),
               (''bodyDigest'', JString (sha256_domain env ''tm.egress.body.v1'' body)),
               (''headers'', JObject (map (\<lambda>(n, v). (n, JString v)) headers)),
               (''method'', JString method),
               (''secretHandleDigest'', json_option (\<lambda>s. JString (sn_handle_digest s)) secret),
               (''secretId'', json_option (\<lambda>s. JString (sn_secret_id s)) secret),
               (''secretVersion'', json_option (\<lambda>s. json_nat (unat (sn_secret_version s))) secret),
               (''targetDigest'', JString target_digest),
               (''timeoutMs'', json_option (\<lambda>t. json_nat (unat t)) (hq_timeout_ms q)),
               (''url'', JString canonical_url), (''version'', json_nat 1)])"

definition prepare_mutation_snapshot ::
    "'w egress_env \<Rightarrow> 'w egress_world invocation_ctx \<Rightarrow> http_request \<Rightarrow> (prepared_mutation, 'w) eg" where
  "prepare_mutation_snapshot env ctx q =
     eg_bind (eg_lift (require_session ctx)) (\<lambda>_.
       let method = to_ascii_uppercase (hq_method q) in
       if method = ''GET'' then eg_lift (Inl (EgInvalidRequest ''GET does not use the mutation boundary''))
       else
         eg_bind (eg_get (\<lambda>w. er_state (eg_runtime w))) (\<lambda>state.
         eg_bind (eg_lift (authorize (env_parse_url env) (rs_config state) (hq_url q) method)) (\<lambda>d.
         eg_bind (eg_lift (authorize_destination ctx state (ad_policy d))) (\<lambda>_.
         eg_bind (eg_lift (validate_request_headers (ad_policy d) (hq_headers q))) (\<lambda>_.
         eg_bind (eg_lift (canonical_request_headers (hq_headers q))) (\<lambda>headers.
         eg_bind (case hq_auth q of
                    None \<Rightarrow> eg_lift (Inr None)
                  | Some token \<Rightarrow>
                      eg_bind (resolve_secret_snapshot env ctx state token (ad_policy d))
                        (\<lambda>s. eg_lift (Inr (Some s)))) (\<lambda>secret_config.
         eg_bind (eg_lift (sha256_json env (target_json env (ad_policy d) (map_option snd secret_config)))) (\<lambda>target_digest.
           let canonical_url = url_as_str (ad_url d);
               secret = map_option fst secret_config
           in
           eg_bind (eg_lift (sha256_json env
                      (request_json env q method canonical_url headers secret target_digest))) (\<lambda>request_digest.
           eg_bind (eg_lift (request_size_without_secret_value q canonical_url)) (\<lambda>request_bytes.
           eg_lift (Inr \<lparr>pm_state = state, pm_destination = d, pm_policy_generation = rs_generation state,
                         pm_destination_id = ed_id (ad_policy d), pm_destination_version = ed_version (ad_policy d),
                         pm_canonical_url = canonical_url, pm_target_digest = target_digest,
                         pm_request_digest = request_digest,
                         pm_query_digest = sha256_domain env ''tm.egress.query.v1''
                           (case url_query (ad_url d) of None \<Rightarrow> [] | Some s \<Rightarrow> s),
                         pm_request_bytes = request_bytes, pm_secret = secret\<rparr>)))))))))))"

definition prepare_mutation ::
    "'w egress_env \<Rightarrow> 'w egress_world invocation_ctx \<Rightarrow> http_request \<Rightarrow> (prepared_mutation, 'w) eg" where
  "prepare_mutation env ctx q =
     eg_bind (eg_try (prepare_mutation_snapshot env ctx q)) (\<lambda>result.
       case result of
         Inr p \<Rightarrow> eg_lift (Inr p)
       | Inl e \<Rightarrow>
           eg_bind (random_token env 16) (\<lambda>audit_id.
           eg_bind (eg_get (\<lambda>w. rs_generation (er_state (eg_runtime w)))) (\<lambda>generation.
           eg_bind (emit_denial ctx audit_id (to_ascii_uppercase (hq_method q)) None generation e) (\<lambda>_.
           eg_lift (Inl e)))))"

subsection \<open>The effect\<close>

definition effect_json :: "string \<Rightarrow> string \<Rightarrow> string \<Rightarrow> prepared_mutation \<Rightarrow> json" where
  "effect_json effect_scope_id session_digest actor_digest p =
     JObject [(''actorDigest'', JString actor_digest), (''destinationId'', JString (pm_destination_id p)),
              (''destinationVersion'', json_nat (unat (pm_destination_version p))),
              (''effectScopeId'', JString effect_scope_id), (''requestDigest'', JString (pm_request_digest p)),
              (''sessionDigest'', JString session_digest), (''targetDigest'', JString (pm_target_digest p)),
              (''version'', json_nat 1)]"

definition begin_mutation ::
    "'w egress_env \<Rightarrow> 'w egress_world invocation_ctx \<Rightarrow> prepared_mutation \<Rightarrow> (mutation_execution, 'w) eg" where
  "begin_mutation env ctx p =
     (case env_effect_scope env ctx of
        None \<Rightarrow> eg_lift (Inl (EgDurability ''HTTP mutation requires a host-owned durable effect scope''))
      | Some effect_scope_id \<Rightarrow>
          let session_digest = sha256_domain env ''tm.egress.session.v1'' (session_id ctx);
              actor_digest = sha256_domain env ''tm.egress.actor.v1''
                (case actor_id ctx of None \<Rightarrow> ''root'' | Some a \<Rightarrow> a)
          in
          eg_bind (eg_lift (sha256_json env (effect_json effect_scope_id session_digest actor_digest p))) (\<lambda>effect_id.
            let intent = \<lparr>mi_effect_id = effect_id, mi_session_id = session_id ctx,
                          mi_effect_scope_id = effect_scope_id, mi_session_digest = session_digest,
                          mi_actor_digest = actor_digest, mi_destination_id = pm_destination_id p,
                          mi_destination_version = pm_destination_version p,
                          mi_target_digest = pm_target_digest p, mi_request_digest = pm_request_digest p,
                          mi_request_bytes = pm_request_bytes p\<rparr>
            in
            eg_bind (durable (\<lambda>st. store_begin_mutation st intent)) (\<lambda>claim.
              if mc_created claim
              then eg_bind (eg_observe (HClaimed (mc_record claim))) (\<lambda>_. eg_lift (Inr (MExecute (mc_record claim))))
              else if mr_status (mc_record claim) = MStarted
              then eg_bind (durable (\<lambda>st. store_finish_mutation st (mi_effect_id (mr_intent (mc_record claim)))
                              MUncertain None None (Some ''interrupted_before_terminal_persistence'') None))
                     (\<lambda>record. eg_lift (Inr (MReplay record)))
              else eg_lift (Inr (MReplay (mc_record claim))))))"

subsection \<open>The outcome\<close>

definition result_json :: "'w egress_env \<Rightarrow> http_response \<Rightarrow> json" where
  "result_json env r =
     JObject [(''bodyDigest'', JString (sha256_domain env ''tm.egress.response-body.v1'' (hp_body r))),
              (''contentType'', json_option JString (hp_content_type r)),
              (''destinationId'', JString (hp_destination_id r)),
              (''redirects'', json_nat (unat (hp_redirects r))), (''responseBytes'', json_nat (hp_response_bytes r)),
              (''secretRedactions'', json_nat (hp_secret_redactions r)), (''status'', json_nat (hp_status r))]"

definition response_status :: "http_response \<Rightarrow> egress_mutation_status" where
  "response_status r = (if hp_status r < 400 then MSucceeded else MFailed)"

text \<open>The hand-over of a terminal outcome to the store.\<close>

definition finish_effect ::
    "egress_mutation_record \<Rightarrow> egress_mutation_status \<Rightarrow> string option \<Rightarrow> nat option \<Rightarrow> string option
     \<Rightarrow> string option \<Rightarrow> (unit, 'w) eg" where
  "finish_effect eff status result_digest result_bytes error_code error_digest =
     eg_bind (eg_observe (HFinished (mi_effect_id (mr_intent eff)) status)) (\<lambda>_.
     eg_bind (durable (\<lambda>st. store_finish_mutation st (mi_effect_id (mr_intent eff)) status
                              result_digest result_bytes error_code error_digest)) (\<lambda>_.
     eg_lift (Inr ())))"

definition finish_mutation_response ::
    "'w egress_env \<Rightarrow> egress_mutation_record \<Rightarrow> http_response \<Rightarrow> (unit, 'w) eg" where
  "finish_mutation_response env eff r =
     eg_bind (eg_lift (sha256_json env (result_json env r))) (\<lambda>result_digest.
       if hp_status r < 400
       then finish_effect eff (response_status r) (Some result_digest) (Some (hp_response_bytes r)) None None
       else finish_effect eff (response_status r) (Some result_digest) (Some (hp_response_bytes r))
              (Some ''http_error_status'')
              (Some (sha256_domain env ''tm.egress.http-status.v1'' (show_nat (hp_status r)))))"

fun error_status :: "egress_error \<Rightarrow> egress_mutation_status" where
  "error_status EgTransport = MUncertain"
| "error_status EgTimeout = MUncertain"
| "error_status EgAudit = MUncertain"
| "error_status (EgDurability _) = MUncertain"
| "error_status _ = MFailed"

definition finish_mutation_error ::
    "'w egress_env \<Rightarrow> egress_mutation_record \<Rightarrow> egress_error \<Rightarrow> (unit, 'w) eg" where
  "finish_mutation_error env eff e =
     finish_effect eff (error_status e) None None (Some (egress_code e))
       (Some (sha256_domain env ''tm.egress.error.v1'' (egress_code e)))"

text \<open>\<open>Err(error) => { self.finish_mutation_error(effect, &error).await?; return Err(error); }\<close>\<close>

definition or_finish ::
    "'w egress_env \<Rightarrow> egress_mutation_record \<Rightarrow> ('a, 'w) eg \<Rightarrow> ('a, 'w) eg" where
  "or_finish env eff m =
     eg_bind (eg_try m) (\<lambda>r.
       case r of
         Inl e \<Rightarrow> eg_bind (finish_mutation_error env eff e) (\<lambda>_. eg_lift (Inl e))
       | Inr x \<Rightarrow> eg_lift (Inr x))"

subsection \<open>The exchange\<close>

definition mutation_secret ::
    "'w egress_env \<Rightarrow> 'w egress_world invocation_ctx \<Rightarrow> http_request \<Rightarrow> prepared_mutation
     \<Rightarrow> (resolved_secret option, 'w) eg" where
  "mutation_secret env ctx q p =
     (case (hq_auth q, pm_secret p) of
        (Some token, Some expected) \<Rightarrow>
          eg_bind (resolve_secret_snapshot env ctx (pm_state p) token (ad_policy (pm_destination p))) (\<lambda>current.
            if fst current \<noteq> expected then eg_lift (Inl EgInvalidSecretHandle)
            else eg_bind (resolve_secret env ctx (pm_state p) token (ad_policy (pm_destination p)))
                   (\<lambda>s. eg_lift (Inr (Some s))))
      | (None, None) \<Rightarrow> eg_lift (Inr None)
      | _ \<Rightarrow> eg_lift (Inl EgInvalidSecretHandle))"

definition mutation_started_json ::
    "string \<Rightarrow> egress_mutation_record \<Rightarrow> prepared_mutation \<Rightarrow> string \<Rightarrow> nat \<Rightarrow> bool \<Rightarrow> json" where
  "mutation_started_json audit_id eff p method request_bytes uses_secret =
     JObject [(''auditId'', JString audit_id), (''destinationId'', JString (pm_destination_id p)),
              (''destinationVersion'', json_nat (unat (pm_destination_version p))),
              (''effectId'', JString (mi_effect_id (mr_intent eff))), (''method'', JString method),
              (''policyGeneration'', json_nat (unat (pm_policy_generation p))),
              (''requestBytes'', json_nat request_bytes), (''usesSecret'', JBool uses_secret)]"

definition mutation_completed_json ::
    "string \<Rightarrow> egress_mutation_record \<Rightarrow> prepared_mutation \<Rightarrow> http_response \<Rightarrow> string \<Rightarrow> u64 \<Rightarrow> json" where
  "mutation_completed_json audit_id eff p r method elapsed_ms =
     JObject [(''auditId'', JString audit_id), (''destinationId'', JString (hp_destination_id r)),
              (''effectId'', JString (mi_effect_id (mr_intent eff))),
              (''elapsedMs'', json_nat (unat elapsed_ms)), (''method'', JString method),
              (''policyGeneration'', json_nat (unat (pm_policy_generation p))),
              (''redirects'', json_nat (unat (hp_redirects r))), (''responseBytes'', json_nat (hp_response_bytes r)),
              (''secretRedactions'', json_nat (hp_secret_redactions r)), (''status'', json_nat (hp_status r))]"

definition mutation_failed_json ::
    "string \<Rightarrow> egress_mutation_record \<Rightarrow> prepared_mutation \<Rightarrow> string \<Rightarrow> egress_error \<Rightarrow> u64 \<Rightarrow> json" where
  "mutation_failed_json audit_id eff p method e elapsed_ms =
     JObject [(''auditId'', JString audit_id), (''destinationId'', JString (pm_destination_id p)),
              (''effectId'', JString (mi_effect_id (mr_intent eff))),
              (''elapsedMs'', json_nat (unat elapsed_ms)), (''errorCode'', JString (egress_code e)),
              (''method'', JString method), (''policyGeneration'', json_nat (unat (pm_policy_generation p)))]"

definition execute_prepared_mutation ::
    "'w egress_env \<Rightarrow> 'w egress_world invocation_ctx \<Rightarrow> http_request \<Rightarrow> prepared_mutation \<Rightarrow> egress_mutation_record
     \<Rightarrow> (http_response, 'w) eg" where
  "execute_prepared_mutation env ctx q p eff =
     (let audit_id = str_of_chars (take 32 (str_chars (mi_effect_id (mr_intent eff))));
          method = to_ascii_uppercase (hq_method q)
      in
      eg_bind (eg_now env) (\<lambda>started.
      eg_bind (or_finish env eff (mutation_secret env ctx q p)) (\<lambda>secret.
      eg_bind (or_finish env eff
                 (eg_lift (request_size_for_url q (url_as_str (ad_url (pm_destination p))) secret))) (\<lambda>request_bytes.
      eg_bind (or_finish env eff (audit ctx ''egress_started''
                 (mutation_started_json audit_id eff p method request_bytes (secret \<noteq> None)))) (\<lambda>_.
      eg_bind (eg_try (execute_hops env ctx (pm_state p) (Some (pm_destination_id p)) q (pm_destination p) secret)) (\<lambda>result.
      eg_bind (eg_now env) (\<lambda>now.
        let elapsed_ms = duration_ms (now - started)
        in case result of
             Inr r \<Rightarrow>
               eg_bind (finish_mutation_response env eff r) (\<lambda>_.
               eg_bind (audit ctx ''egress_completed''
                          (mutation_completed_json audit_id eff p r method elapsed_ms)) (\<lambda>_.
               eg_lift (Inr r)))
           | Inl e \<Rightarrow>
               eg_bind (finish_mutation_error env eff e) (\<lambda>_.
               eg_bind (audit ctx ''egress_failed''
                          (mutation_failed_json audit_id eff p method e elapsed_ms)) (\<lambda>_.
               eg_lift (Inl e))))))))))"


subsection \<open>The trace of a mutation\<close>

text \<open>The result a caller sees for a recorded status: the response or the error it was recorded for,
  unless the store or the audit failed after that.\<close>

definition reported :: "http_response egress_result \<Rightarrow> egress_mutation_status \<Rightarrow> bool" where
  "reported r s \<longleftrightarrow>
     (case r of
        Inr response \<Rightarrow> s = response_status response
      | Inl e \<Rightarrow> s = error_status e \<or> e = EgAudit \<or> (\<exists>m. e = EgDurability m))"

lemma status_terminal: "is_terminal (error_status e)" "is_terminal (response_status x)" "error_status e \<noteq> MSucceeded"
  by (cases e; simp add: is_terminal_def response_status_def)+

lemma store_finish_error:
  "fst (store_finish_mutation st i s d n c x) = Inl e \<Longrightarrow> \<exists>m. e = EgDurability m"
  by (auto simp: store_finish_mutation_def Let_def split: if_splits option.splits)

lemma finish_effect_trace:
  assumes "finish_effect eff s d n c x w = (r, tr, w')"
  shows "tr = [HFinished (mi_effect_id (mr_intent eff)) s] \<and> (r = Inr () \<or> (\<exists>m. r = Inl (EgDurability m)))"
proof -
  let ?store = "\<lambda>st. store_finish_mutation st (mi_effect_id (mr_intent eff)) s d n c x"
  obtain r1 tr1 w1 where d: "durable ?store w = (r1, tr1, w1)" by (metis prod_cases3)
  have tr1: "tr1 = []" using durable_run [OF d] by simp
  have err: "\<exists>m. e = EgDurability m" if "r1 = Inl e" for e using durable_run [OF d] that store_finish_error by metis
  show ?thesis
  proof (cases r1)
    case (Inl e)
    then show ?thesis using assms d tr1 err by (auto simp: finish_effect_def eg_bind_def eg_observe_def)
  next
    case (Inr y)
    then show ?thesis using assms d tr1 by (simp add: finish_effect_def eg_bind_def eg_observe_def eg_lift_def)
  qed
qed

lemma finish_error_trace:
  assumes "eg_bind (finish_mutation_error env eff e) f w = (r, tr, w')" and "\<And>x. quiet (f x)"
    and "\<And>w r tr w'. f () w = (r, tr, w') \<Longrightarrow> r = Inl e \<or> r = Inl EgAudit"
  shows "tr = [HFinished (mi_effect_id (mr_intent eff)) (error_status e)] \<and> (\<exists>e'. r = Inl e' \<and> reported (Inl e') (error_status e))"
  using assms(1)
proof (cases rule: eg_bind_cases)
  case (1 e')
  then show ?thesis using finish_effect_trace [OF 1(1) [unfolded finish_mutation_error_def]] by (auto simp: reported_def)
next
  case (2 x tr1 w1 tr2)
  then show ?thesis
    using finish_effect_trace [OF 2(1) [unfolded finish_mutation_error_def]] quietD [OF assms(2) 2(2)] assms(3) [of w1 r tr2 w']
    by (auto simp: reported_def)
qed

lemma or_finish_trace:
  fixes m :: "('a, 'w) eg"
  assumes "eg_bind (or_finish env eff m) f w = (r, tr, w')" and "quiet m"
  obtains s where "tr = [HFinished (mi_effect_id (mr_intent eff)) s]" "s \<noteq> MSucceeded \<and> is_terminal s"
      "\<exists>e. r = Inl e \<and> reported (Inl e) s"
  | x w1 where "f x w1 = (r, tr, w')"
proof -
  obtain res w1 where m: "m w = (res, [], w1)" using quietD [OF assms(2)] by (metis prod_cases3)
  show thesis
  proof (cases res)
    case (Inl e)
    obtain r1 :: "'a egress_result" and tr1 w2 where o: "eg_bind (finish_mutation_error env eff e) (\<lambda>_. eg_lift (Inl e)) w1 = (r1, tr1, w2)"
      by (metis prod_cases3)
    then have "or_finish env eff m w = (r1, tr1, w2)"
      using m Inl by (simp add: or_finish_def eg_bind_def [of "eg_try m"] eg_try_def)
    moreover have "tr1 = [HFinished (mi_effect_id (mr_intent eff)) (error_status e)]
        \<and> (\<exists>e'. r1 = Inl e' \<and> reported (Inl e') (error_status e))"
      using finish_error_trace [OF o] by (auto intro: quiet_intros)
    ultimately show thesis using assms(1) status_terminal by (auto intro!: that(1) simp: eg_bind_def)
  next
    case (Inr x)
    then have "or_finish env eff m w = (Inr x, [], w1)"
      using m by (simp add: or_finish_def eg_bind_def [of "eg_try m"] eg_try_def eg_lift_def)
    then have "f x w1 = (r, tr, w')" using assms(1) by (simp add: eg_bind_def split: prod.splits)
    then show thesis by (rule that(2))
  qed
qed


lemma quiet_mutation_secret [quiet_intros]: "quiet (mutation_secret env ctx q p)"
  unfolding mutation_secret_def prod.case by (intro quiet_intros)

lemma execute_hops_sent:
  assumes "execute_hops env ctx state expected q d secret w = (Inr r, tr, w')"
  shows "sent_to tr \<noteq> []"
  using assms by (auto simp: execute_hops_def Let_def split: if_splits elim: hop_loop_round)

text \<open>What follows the exchange: the outcome is recorded before the closing audit event.\<close>

lemma recorded_outcome:
  assumes "(case result of
        Inr r \<Rightarrow> eg_bind (finish_mutation_response env eff r) (\<lambda>_. eg_bind (audit ctx t1 (j1 r)) (\<lambda>_. eg_lift (Inr r)))
      | Inl e \<Rightarrow> eg_bind (finish_mutation_error env eff e) (\<lambda>_. eg_bind (audit ctx t2 (j2 e)) (\<lambda>_. eg_lift (Inl e)))) w
      = (r, tr, w')"
    and json: "\<forall>v. env_json_text env v \<noteq> None"
  obtains s where "tr = [HFinished (mi_effect_id (mr_intent eff)) s]" "reported r s" "is_terminal s"
    "s = MSucceeded \<longrightarrow> (\<exists>x. result = Inr x)"
proof (cases result)
  case (Inl e)
  have "tr = [HFinished (mi_effect_id (mr_intent eff)) (error_status e)] \<and> (\<exists>e'. r = Inl e' \<and> reported (Inl e') (error_status e))"
    using assms(1) Inl
    by (intro finish_error_trace [of env eff e "\<lambda>_. eg_bind (audit ctx t2 (j2 e)) (\<lambda>_. eg_lift (Inl e))" w r tr w'])
      (auto intro!: quiet_intros simp: audit_def eg_defs split: prod.splits sum.splits)
  then show thesis using that status_terminal by auto
next
  case (Inr x)
  obtain digest where "sha256_json env (result_json env x) = Inr digest" 
    using json [rule_format, of "result_json env x"] by (auto simp: sha256_json_def)
  then obtain a b c d where f: "finish_mutation_response env eff x = finish_effect eff (response_status x) a b c d"
    by (cases "hp_status x < 400") (auto simp: finish_mutation_response_def)
  from assms(1) [unfolded Inr sum.case f] show thesis
  proof (cases rule: eg_bind_cases)
    case (1 e)
    then show thesis using finish_effect_trace [OF 1(1)] Inr status_terminal(2)
      by (intro that) (auto simp: reported_def)
  next
    case (2 u tr1 w1 tr2)
    moreover from 2(2) have "tr2 = []" "r = Inr x \<or> r = Inl EgAudit"
      by (auto simp: audit_def eg_defs split: prod.splits sum.splits)
    ultimately show thesis using finish_effect_trace [OF 2(1)] Inr status_terminal(2)
      by (intro that) (auto simp: reported_def)
  qed
qed


lemma try_now_bind:
  assumes "eg_bind (eg_try m) (\<lambda>result. eg_bind (eg_now env) (f result)) w = (r, tr, w')"
  obtains res tr1 w1 now w2 tr2 where "m w = (res, tr1, w1)" "f res now w2 = (r, tr2, w')" "tr = tr1 @ tr2"
  using assms by (auto simp: eg_bind_def eg_try_def eg_now_def eg_run_def split: prod.splits)

lemma prepared_trace:
  assumes "execute_prepared_mutation env ctx q p eff w = (r, tr, w')" and json: "\<forall>v. env_json_text env v \<noteq> None"
  obtains hops s where "tr = hops @ [HFinished (mi_effect_id (mr_intent eff)) s]" "reported r s" "is_terminal s"
    "s = MSucceeded \<longrightarrow> sent_to hops \<noteq> []"
    "hops = [] \<or> (\<exists>secret w1 r1 w2.
       execute_hops env ctx (pm_state p) (Some (pm_destination_id p)) q (pm_destination p) secret w1 = (r1, hops, w2))"
proof -
  note goal = that
  have stop: thesis if "tr = [HFinished (mi_effect_id (mr_intent eff)) s]" "s \<noteq> MSucceeded \<and> is_terminal s"
    "\<exists>e. r = Inl e \<and> reported (Inl e) s" for s
    using that goal [of "[]" s] by auto
  from assms(1) show thesis
    unfolding execute_prepared_mutation_def Let_def
    apply (elim quiet_bindE [OF _ quiet_basic(4)] or_finish_trace [OF _ quiet_mutation_secret]
        or_finish_trace [OF _ quiet_basic(1)] or_finish_trace [OF _ quiet_basic(6)])
        apply (simp add: eg_now_def eg_run_def)
       apply (erule (2) stop)
      apply (erule (2) stop)
     apply (erule (2) stop)
    apply (elim try_now_bind)
    apply (erule recorded_outcome [OF _ json])
    apply (rule goal)
        apply (simp; fail)
       apply assumption
      apply assumption
     apply (use execute_hops_sent in blast)
    apply blast
    done
qed


lemma hop_trace_events: "hop_trace env ctx state expected q verb secret k d tr \<Longrightarrow> HFinished i s \<notin> set tr"
  by (induction rule: hop_trace.induct) auto

lemma execute_hops_trace:
  assumes "execute_hops env ctx state expected q d secret w = (r, tr, w')"
    and "\<forall>e. expected = Some e \<longrightarrow> ed_id (ad_policy d) = e"
  shows "tr = [] \<or> request_trace env ctx state expected q d tr"
  using emitsD [OF execute_hops_emits [OF assms(2)] assms(1)] .



text \<open>A mutation on the sample world of the exchange.\<close>

lemma sample_mutation:
  assumes "vs_budgets (er_durable (eg_runtime w)) = budget_book_default" and "length m = 3" "to_ascii_uppercase m = m"
    and p: "pm_state p = er_state (eg_runtime (sample_world m))" "pm_destination p = sample_goal m"
      "pm_destination_id p = ''research''" "pm_secret p = None"
  obtains r out tr w' where "execute_prepared_mutation sample_env sample_ctx (sample_request m) p eff w = (r, tr, w')"
    "HSent (sample_target m) out \<in> set tr"
proof -
  obtain r v out n t w1 where l: "hop_loop sample_env sample_ctx (er_state (eg_runtime (sample_world m))) (Some ''research'')
      (sample_request m) m None 0 0 (sample_goal m) w
     = (r, [HReserved v, HSent (sample_target m) out, HSettled v n t], w1)"
    using sample_loop [OF assms(2,1)] by blast
  obtain r1 tr w2 where e: "execute_prepared_mutation sample_env sample_ctx (sample_request m) p eff w = (r1, tr, w2)"
    by (metis prod_cases3)
  have "HSent (sample_target m) out \<in> set tr"
    using e l assms(2,3) p
    by (auto simp: execute_prepared_mutation_def mutation_secret_def or_finish_def execute_hops_def eg_defs audit_def
        emit_event_def sample_size Let_def split: prod.splits sum.splits)
  with e show thesis by (rule that)
qed

lemma sample_put [simp]: "to_ascii_uppercase ''PUT'' = ''PUT''"
  by code_simp

definition sample_prepared :: "string \<Rightarrow> prepared_mutation" where
  "sample_prepared m = \<lparr>pm_state = er_state (eg_runtime (sample_world m)), pm_destination = sample_goal m,
     pm_policy_generation = 1, pm_destination_id = ''research'', pm_destination_version = 1,
     pm_canonical_url = ''https://api.example.com/v1/search'', pm_target_digest = ''t'', pm_request_digest = ''r'',
     pm_query_digest = ''q'', pm_request_bytes = 36, pm_secret = None\<rparr>"

definition sample_effect :: egress_mutation_record where
  "sample_effect = mutation_started \<lparr>mi_effect_id = ''e1'', mi_session_id = ''s1'', mi_effect_scope_id = ''turn'',
     mi_session_digest = ''s'', mi_actor_digest = ''a'', mi_destination_id = ''research'', mi_destination_version = 1,
     mi_target_digest = ''t'', mi_request_digest = ''r'', mi_request_bytes = 36\<rparr>"


end
