(* ===== verification/Egress_Preview.thy ===== *)
theory Egress_Preview
  imports Egress_Exchange
begin

text \<open>
  The texts an approver sees for an outgoing mutation, the preview functions of
  \<open>tm-egress/src/host.rs\<close>: path, query and JSON body with credentials masked and text cut.
  \<open>same_public\<close> relates two JSON values that differ only in what the preview is to hide.
\<close>

subsection \<open>Cutting and recognising\<close>

definition bounded_text :: "string \<Rightarrow> nat \<Rightarrow> string" where
  "bounded_text value max_chars =
     (let chars = str_chars value;
          bounded = str_of_chars (map (\<lambda>c. if is_control c then 0xFFFD else c) (take max_chars chars))
      in if max_chars < length chars then bounded @ str_of_chars [0x2026] else bounded)"

definition sensitive_key :: "string \<Rightarrow> bool" where
  "sensitive_key key \<longleftrightarrow>
     (let normalized = to_ascii_lowercase (str_of_chars (filter is_ascii_alphanumeric (str_chars key)))
      in list_ex (str_contains normalized)
           [''authorization'', ''password'', ''passwd'', ''credential'', ''cookie'', ''secret'', ''token'']
         \<or> normalized \<in> {''key'', ''apikey'', ''privatekey'', ''accesskey''})"

definition looks_like_secret :: "string \<Rightarrow> bool" where
  "looks_like_secret value \<longleftrightarrow>
     (let trimmed = str_trim value; lower = to_ascii_lowercase trimmed
      in starts_with lower ''bearer '' \<or> starts_with lower ''basic '' \<or> starts_with lower ''sk-''
         \<or> starts_with lower ''ghp_'' \<or> starts_with lower ''github_pat_'' \<or> starts_with lower ''xox''
         \<or> starts_with lower ''akia'' \<or> starts_with lower ''-----begin ''
         \<or> (starts_with lower ''eyj'' \<and> count_list lower (CHR ''.'') = 2)
         \<or> str_contains lower ''token='' \<or> str_contains lower ''secret='' \<or> str_contains lower ''api_key=''
         \<or> str_contains lower ''password='' \<or> str_contains lower ''secret''
         \<or> (32 \<le> length trimmed \<and> \<not> list_ex is_whitespace (str_chars trimmed)
             \<and> list_ex is_ascii_digit (str_chars trimmed) \<and> list_ex is_ascii_alphabetic (str_chars trimmed)))"

subsection \<open>Path and query\<close>

fun preview_segments :: "bool \<Rightarrow> string list \<Rightarrow> string list" where
  "preview_segments previous_sensitive [] = []"
| "preview_segments previous_sensitive (segment # segments) =
     (if previous_sensitive \<or> looks_like_secret segment then ''[REDACTED]'' else bounded_text segment 96)
     # preview_segments (sensitive_key (to_ascii_lowercase segment)) segments"

definition redacted_path_preview :: "string \<Rightarrow> string" where
  "redacted_path_preview path = str_join ''/'' (preview_segments False (str_split (CHR ''/'') path))"

definition preview_pair :: "string \<times> string \<Rightarrow> json" where
  "preview_pair p =
     (let key = bounded_text (fst p) 64
      in JObject [(''name'', JString key),
                  (''value'', JString (if sensitive_key key \<or> looks_like_secret (snd p) then ''[REDACTED]''
                                      else bounded_text (snd p) 128))])"

definition redacted_query_preview :: "(string \<times> string) list \<Rightarrow> json" where
  "redacted_query_preview pairs =
     JObject [(''pairs'', JArray (map preview_pair (take 32 pairs))), (''truncated'', JBool (32 < length pairs))]"

subsection \<open>JSON bodies\<close>

record json_preview_budget =
  jb_nodes :: nat
  jb_text_bytes :: nat

definition bounded_budget_text :: "string \<Rightarrow> nat \<Rightarrow> json_preview_budget \<Rightarrow> string \<times> json_preview_budget" where
  "bounded_budget_text value max_chars b =
     (let bounded = bounded_text value (min max_chars (jb_text_bytes b))
      in (bounded, b\<lparr>jb_text_bytes := jb_text_bytes b - length bounded\<rparr>))"

definition spend_node :: "json_preview_budget \<Rightarrow> json_preview_budget" where
  "spend_node b = b\<lparr>jb_nodes := jb_nodes b - 1\<rparr>"

fun redacted_json_preview :: "json \<Rightarrow> nat \<Rightarrow> json_preview_budget \<Rightarrow> json \<times> json_preview_budget"
and preview_items :: "json list \<Rightarrow> nat \<Rightarrow> json_preview_budget \<Rightarrow> json list \<times> json_preview_budget"
and preview_members ::
  "(string \<times> json) list \<Rightarrow> nat \<Rightarrow> (string \<times> json) list \<Rightarrow> json_preview_budget \<Rightarrow> (string \<times> json) list \<times> json_preview_budget" where
  "redacted_json_preview v depth b =
     (if jb_nodes b = 0 \<or> 4 < depth then (JString ''[TRUNCATED]'', b)
      else (case v of
          JString s \<Rightarrow>
            if looks_like_secret s then (JString ''[REDACTED]'', spend_node b)
            else let t = bounded_budget_text s 128 (spend_node b) in (JString (fst t), snd t)
        | JArray vs \<Rightarrow> let r = preview_items vs depth (spend_node b) in (JArray (fst r), snd r)
        | JObject ms \<Rightarrow> let r = preview_members ms depth [] (spend_node b) in (JObject (fst r), snd r)
        | _ \<Rightarrow> (v, spend_node b)))"
| "preview_items [] depth b = ([], b)"
| "preview_items (v # vs) depth b =
     (if jb_nodes b = 0 then ([JString ''[TRUNCATED]''], b)
      else let first = redacted_json_preview v (depth + 1) b; rest = preview_items vs depth (snd first)
           in (fst first # fst rest, snd rest))"
| "preview_members [] depth preview b = (preview, b)"
| "preview_members ((key, v) # ms) depth preview b =
     (if jb_nodes b = 0 then (bt_insert ''[TRUNCATED]'' (JBool True) preview, b)
      else let k = bounded_budget_text key 64 b;
               value = (if sensitive_key key then (JString ''[REDACTED]'', spend_node (snd k))
                        else redacted_json_preview v (depth + 1) (snd k))
           in preview_members ms depth (bt_insert (fst k) (fst value) preview) (snd value))"

declare redacted_json_preview.simps [simp del] preview_items.simps [simp del] preview_members.simps [simp del]

text \<open>\<open>parse_json\<close> is \<open>serde_json::from_str\<close>.\<close>

definition json_body_preview :: "(string \<Rightarrow> json option) \<Rightarrow> string \<Rightarrow> json option" where
  "json_body_preview parse_json body =
     (if 64 * 1024 < length body
      then Some (JObject [(''reason'', JString ''json_body_exceeds_preview_cap''), (''truncated'', JBool True)])
      else map_option (\<lambda>v. fst (redacted_json_preview v 0 \<lparr>jb_nodes = 64, jb_text_bytes = 1024\<rparr>)) (parse_json body))"

subsection \<open>What the previews hide\<close>

fun same_public :: "json \<Rightarrow> json \<Rightarrow> bool"
and same_items :: "json list \<Rightarrow> json list \<Rightarrow> bool"
and same_members :: "(string \<times> json) list \<Rightarrow> (string \<times> json) list \<Rightarrow> bool" where
  "same_public v w =
     (case v of
        JString s \<Rightarrow> (case w of JString t \<Rightarrow> s = t \<or> looks_like_secret s \<and> looks_like_secret t | _ \<Rightarrow> False)
      | JArray vs \<Rightarrow> (case w of JArray ws \<Rightarrow> same_items vs ws | _ \<Rightarrow> False)
      | JObject ms \<Rightarrow> (case w of JObject ns \<Rightarrow> same_members ms ns | _ \<Rightarrow> False)
      | _ \<Rightarrow> w = v)"
| "same_items [] ws \<longleftrightarrow> ws = []"
| "same_items (v # vs) ws = (case ws of [] \<Rightarrow> False | w # ws \<Rightarrow> same_public v w \<and> same_items vs ws)"
| "same_members [] ns \<longleftrightarrow> ns = []"
| "same_members ((k, v) # ms) ns =
     (case ns of
        [] \<Rightarrow> False
      | n # ns \<Rightarrow> fst n = k \<and> (sensitive_key k \<or> same_public v (snd n)) \<and> same_members ms ns)"

declare same_public.simps [simp del] same_items.simps [simp del] same_members.simps [simp del]

definition same_pair :: "string \<times> string \<Rightarrow> string \<times> string \<Rightarrow> bool" where
  "same_pair p q \<longleftrightarrow> fst p = fst q
     \<and> (snd p = snd q \<or> sensitive_key (bounded_text (fst p) 64) \<or> looks_like_secret (snd p) \<and> looks_like_secret (snd q))"

lemma preview_same_public:
  "same_public v w \<Longrightarrow> redacted_json_preview v depth b = redacted_json_preview w depth b"
  "same_items vs ws \<Longrightarrow> preview_items vs depth b = preview_items ws depth b"
  "same_members ms ns \<Longrightarrow> preview_members ms depth preview b = preview_members ns depth preview b"
proof (induction v depth b and vs depth b and ms depth preview b arbitrary: w and ws and ns
    rule: redacted_json_preview_preview_items_preview_members.induct)
  case (1 v depth b)
  then show ?case
    by (subst (1 2) redacted_json_preview.simps)
      (auto simp: Let_def same_public.simps [of v] split: json.splits if_splits)
next
  case (2 depth b)
  then show ?case by (simp add: same_items.simps)
next
  case (3 v vs depth b)
  from "3.prems" obtain w ws' where ws: "ws = w # ws'" "same_public v w" "same_items vs ws'"
    by (auto simp: same_items.simps split: list.splits)
  show ?case
  proof (cases "jb_nodes b = 0")
    case False
    show ?thesis using "3.IH"(1) [OF False ws(2)] "3.IH"(2) [OF False refl ws(3)] False ws(1)
      by (simp add: preview_items.simps Let_def)
  qed (simp add: ws(1) preview_items.simps)
next
  case (4 depth preview b)
  then show ?case by (simp add: same_members.simps)
next
  case (5 key v ms depth preview b)
  from "5.prems" obtain w ns' where ns: "ns = (key, w) # ns'" "sensitive_key key \<or> same_public v w" "same_members ms ns'"
    by (auto simp: same_members.simps split: list.splits)
  show ?case
  proof (cases "jb_nodes b = 0")
    case False
    let ?k = "bounded_budget_text key 64 b"
    have "\<not> sensitive_key key \<Longrightarrow> redacted_json_preview v (depth + 1) (snd ?k) = redacted_json_preview w (depth + 1) (snd ?k)"
      using "5.IH"(1) [OF False refl] ns(2) by simp
    then show ?thesis using "5.IH"(2) [OF False refl refl ns(3)] False ns(1)
      by (simp add: preview_members.simps Let_def)
  qed (simp add: ns(1) preview_members.simps)
qed

lemma preview_same_pair: "same_pair p q \<Longrightarrow> preview_pair p = preview_pair q"
  by (auto simp: same_pair_def preview_pair_def Let_def)

lemma preview_same_pairs:
  assumes "list_all2 same_pair ps qs"
  shows "redacted_query_preview ps = redacted_query_preview qs"
proof -
  have "map preview_pair ps = map preview_pair qs"
    using assms by (induction rule: list_all2_induct) (simp_all add: preview_same_pair)
  then show ?thesis using list_all2_lengthD [OF assms] by (simp add: redacted_query_preview_def take_map [symmetric])
qed



text \<open>The elements of an array below the greatest depth each leave a marker and spend no node.\<close>

lemma preview_deep_items:
  "0 < jb_nodes b \<Longrightarrow> preview_items (replicate n v) (Suc (Suc (Suc (Suc 0)))) b = (replicate n (JString ''[TRUNCATED]''), b)"
  by (induction n) (simp_all add: preview_items.simps redacted_json_preview.simps Let_def)

definition nested :: "json list \<Rightarrow> json" where
  "nested vs = JArray [JArray [JArray [JArray [JArray vs]]]]"

text \<open>The node budget does not bound the preview of a JSON body. Elements below the greatest
  depth are replaced by a marker without being counted, so an array of \<open>n\<close> elements inside four
  others is shown with \<open>n\<close> markers, although only 64 nodes are allowed; the only bound left is the one
  on the length of the body.\<close>

lemma preview_nodes_unbounded:
  "redacted_json_preview (nested (replicate n JNull)) 0 \<lparr>jb_nodes = 64, jb_text_bytes = 1024\<rparr>
     = (nested (replicate n (JString ''[TRUNCATED]'')), \<lparr>jb_nodes = 59, jb_text_bytes = 1024\<rparr>)"
  by (simp add: nested_def redacted_json_preview.simps preview_items.simps spend_node_def Let_def
      preview_deep_items)

lemma sample_secret_texts:
  "sensitive_key ''token''" "\<not> sensitive_key ''q''"
  by code_simp+


lemma trim_ascii:
  assumes "list_all (\<lambda>b. byte b < 128) s" and "s \<noteq> []" and "\<not> is_whitespace (byte (hd s))" and "\<not> is_whitespace (byte (last s))"
  shows "str_trim s = s"
proof -
  have "str_chars s = map of_char s" using assms(1) by (rule str_chars_ascii)
  moreover have "dropWhile is_whitespace (map of_char s) = map of_char s" using assms(2,3) by (cases s) auto
  moreover have "dropWhile is_whitespace (rev (map of_char s)) = rev (map of_char s)"
    using assms(2,4) by (cases s rule: rev_cases) auto
  ultimately show ?thesis using str_of_chars_ascii [OF assms(1)] by (simp add: str_trim_def)
qed

lemma sample_secret_strings: "looks_like_secret ''sk-1''" "looks_like_secret ''bearer x''"
  by (simp_all add: looks_like_secret_def trim_ascii is_whitespace_def to_ascii_lowercase_def ascii_lower_def ascii_defs
      starts_with_def Let_def)


end
