(* ===== verification/Egress_Http.thy ===== *)
theory Egress_Http
  imports Egress_Mutation Egress_Preview
begin

text \<open>
  The host functions \<open>secrets.use\<close> and \<open>http.request\<close> of \<open>tm-egress/src/host.rs\<close>: decoding of the
  arguments, the approval of mutations between two snapshots, and the registration of both functions.
  Argument decoding, JSON parsing and printing, and the splitting of a query string are members of
  \<open>http_env\<close>; an error of theirs is its text.
\<close>

record 'w http_env =
  he_env :: "'w egress_env"
  he_parse_request :: "json \<Rightarrow> string + http_request"
  he_parse_name :: "json \<Rightarrow> string + string"
  he_query_pairs :: "url \<Rightarrow> (string \<times> string) list"
  he_parse_json :: "string \<Rightarrow> json option"
  he_json_text :: "json \<Rightarrow> string + string"

type_synonym 'w host_run = "(host_error, json, 'w) run"

text \<open>\<open>map_err(|error| error.into_host())\<close>\<close>

definition eg_host :: "('a, 'w) eg \<Rightarrow> (host_error, 'a, 'w) run" where
  "eg_host m w = (case m w of (r, tr, w') \<Rightarrow> (case r of Inl e \<Rightarrow> Inl (into_host e) | Inr x \<Rightarrow> Inr x, tr, w'))"

definition ask_approval :: "'w egress_world invocation_ctx \<Rightarrow> string \<Rightarrow> (host_error, unit, 'w) run" where
  "ask_approval ctx action w =
     (case require_approval ctx action w of
        (Inl e, w') \<Rightarrow> (Inl e, [], w')
      | (Inr _, w') \<Rightarrow> (Inr (), [HApproved action], w'))"

subsection \<open>What is shown and returned\<close>

text \<open>The response headers are left out of the encoding.\<close>

definition response_json :: "http_response \<Rightarrow> json" where
  "response_json r =
     JObject [(''body'', JString (hp_body r)), (''contentType'', json_option JString (hp_content_type r)),
              (''destinationId'', JString (hp_destination_id r)), (''redirects'', json_nat (unat (hp_redirects r))),
              (''responseBytes'', json_nat (hp_response_bytes r)),
              (''secretRedactions'', json_nat (hp_secret_redactions r)), (''status'', json_nat (hp_status r))]"

definition handle_json :: "string \<Rightarrow> json" where
  "handle_json token = JObject [(''token'', JString token)]"

fun mutation_status_text :: "egress_mutation_status \<Rightarrow> string" where
  "mutation_status_text MStarted = ''started''"
| "mutation_status_text MSucceeded = ''succeeded''"
| "mutation_status_text MFailed = ''failed''"
| "mutation_status_text MUncertain = ''uncertain''"

definition mutation_replay_receipt :: "egress_mutation_record \<Rightarrow> json" where
  "mutation_replay_receipt m =
     JObject [(''destinationId'', JString (mi_destination_id (mr_intent m))),
              (''destinationVersion'', json_nat (unat (mi_destination_version (mr_intent m)))),
              (''effectId'', JString (mi_effect_id (mr_intent m))),
              (''errorCode'', json_option JString (mr_error_code m)),
              (''errorDigest'', json_option JString (mr_error_digest m)), (''replayed'', JBool True),
              (''requestDigest'', JString (mi_request_digest (mr_intent m))),
              (''resultBytes'', json_option json_nat (mr_result_bytes m)),
              (''resultDigest'', json_option JString (mr_result_digest m)),
              (''status'', JString (mutation_status_text (mr_status m))),
              (''targetDigest'', JString (mi_target_digest (mr_intent m)))]"

definition approval_json :: "'w http_env \<Rightarrow> http_request \<Rightarrow> prepared_mutation \<Rightarrow> url \<Rightarrow> string \<Rightarrow> json" where
  "approval_json he q p url host =
     JObject [(''bodyBytes'', json_nat (case hq_body q of None \<Rightarrow> 0 | Some b \<Rightarrow> length b)),
              (''bodyPreview'', json_option id (Option.bind (hq_body q) (json_body_preview (he_parse_json he)))),
              (''bodySha256'', json_option (\<lambda>b. JString (env_hex (he_env he) (env_sha256 (he_env he) b))) (hq_body q)),
              (''destinationId'', JString (pm_destination_id p)),
              (''destinationVersion'', json_nat (unat (pm_destination_version p))),
              (''headerNames'', JArray (map (\<lambda>(n, _). JString (bounded_text (to_ascii_lowercase n) 64)) (take 32 (hq_headers q)))),
              (''headerNamesTruncated'', JBool (32 < length (hq_headers q))), (''host'', JString host),
              (''method'', JString (bounded_text (to_ascii_uppercase (hq_method q)) 32)),
              (''operation'', JString ''http.request''),
              (''path'', JString (bounded_text (redacted_path_preview (url_path url)) 512)),
              (''pathBytes'', json_nat (length (url_path url))),
              (''port'', json_option (\<lambda>n. json_nat (unat n)) (url_port_or_known_default url)),
              (''queryBytes'', json_nat (case url_query url of None \<Rightarrow> 0 | Some s \<Rightarrow> length s)),
              (''queryDigest'', JString (pm_query_digest p)),
              (''queryPreview'', redacted_query_preview (he_query_pairs he url)),
              (''requestDigest'', JString (pm_request_digest p)), (''scheme'', JString (url_scheme url)),
              (''secretId'', json_option (\<lambda>s. JString (sn_secret_id s)) (pm_secret p)),
              (''secretVersion'', json_option (\<lambda>s. json_nat (unat (sn_secret_version s))) (pm_secret p)),
              (''targetDigest'', JString (pm_target_digest p)), (''usesSecretHandle'', JBool (hq_auth q \<noteq> None))]"

definition approval_action :: "'w http_env \<Rightarrow> http_request \<Rightarrow> prepared_mutation \<Rightarrow> string host_result" where
  "approval_action he q p =
     (case env_parse_url (he_env he) (hq_url q) of
        None \<Rightarrow> Inl (InvalidArgs ''http.request URL must be absolute'')
      | Some url \<Rightarrow>
          (case url_host_str url of
             None \<Rightarrow> Inl (InvalidArgs ''http.request URL must have a host'')
           | Some host \<Rightarrow>
               (case he_json_text he (approval_json he q p url host) of
                  Inl e \<Rightarrow> Inl (HostCall e)
                | Inr text \<Rightarrow> Inr text)))"

subsection \<open>The functions\<close>

definition secrets_use_call ::
    "'w http_env \<Rightarrow> json \<Rightarrow> 'w egress_world invocation_ctx \<Rightarrow> 'w host_run" where
  "secrets_use_call he args ctx =
     (case he_parse_name he args of
        Inl e \<Rightarrow> eg_lift (Inl (InvalidArgs e))
      | Inr name \<Rightarrow>
          eg_bind (eg_host (issue_secret_handle (he_env he) ctx name)) (\<lambda>token. eg_lift (Inr (handle_json token))))"

definition execute_and_encode ::
    "'w http_env \<Rightarrow> 'w egress_world invocation_ctx \<Rightarrow> http_request \<Rightarrow> 'w host_run" where
  "execute_and_encode he ctx q =
     eg_bind (eg_host (execute (he_env he) ctx q)) (\<lambda>r. eg_lift (Inr (response_json r)))"

definition mutate_and_encode ::
    "'w http_env \<Rightarrow> 'w egress_world invocation_ctx \<Rightarrow> http_request \<Rightarrow> 'w host_run" where
  "mutate_and_encode he ctx q =
     (let env = he_env he in
      eg_bind (eg_host (prepare_mutation env ctx q)) (\<lambda>before.
      eg_bind (eg_lift (approval_action he q before)) (\<lambda>action.
      eg_bind (ask_approval ctx action) (\<lambda>_.
      eg_bind (eg_host (prepare_mutation env ctx q)) (\<lambda>after.
        if \<not> same_prepared before after
        then eg_lift (Inl (CapabilityDenied ''egress policy or secret handle changed during approval''))
        else
          eg_bind (eg_host (begin_mutation env ctx after)) (\<lambda>execution.
            case execution of
              MExecute eff \<Rightarrow>
                eg_bind (eg_host (execute_prepared_mutation env ctx q after eff)) (\<lambda>r.
                eg_lift (Inr (response_json r)))
            | MReplay eff \<Rightarrow> eg_lift (Inr (mutation_replay_receipt eff))))))))"

definition http_request_call ::
    "'w http_env \<Rightarrow> json \<Rightarrow> 'w egress_world invocation_ctx \<Rightarrow> 'w host_run" where
  "http_request_call he args ctx =
     (case he_parse_request he args of
        Inl e \<Rightarrow> eg_lift (Inl (InvalidArgs e))
      | Inr q \<Rightarrow>
          if eq_ignore_ascii_case (hq_method q) ''GET'' then execute_and_encode he ctx q
          else mutate_and_encode he ctx q)"

subsection \<open>Registration\<close>

definition egress_tool_docs :: "string \<Rightarrow> string \<Rightarrow> string \<Rightarrow> string \<Rightarrow> string \<Rightarrow> tool_docs" where
  "egress_tool_docs name namespace summary signature approval =
     \<lparr>td_name = name, td_namespace = namespace, td_summary = summary,
      td_description = Some (''Fail-closed host egress. URLs, methods, redirects, DNS answers, byte/time budgets, ''
        @ ''current exact grants, and runtime revocations are checked by the host. ''
        @ ''Caller Authorization and Cookie headers are forbidden.''),
      td_signature = signature, td_args_schema = JObject [(''type'', JString ''object'')],
      td_result_schema = Some (JObject [(''type'', JString ''object'')]), td_examples = [],
      td_errors =
        [\<lparr>ted_name = ''CapabilityDeniedError'',
          ted_when = ''the destination, secret, URL, DNS answer, or current grant is denied'', ted_retryable = False\<rparr>,
         \<lparr>ted_name = ''QuotaExceededError'',
          ted_when = ''a request or session byte, request-count, or time budget is exhausted'', ted_retryable = False\<rparr>,
         \<lparr>ted_name = ''TimeoutError'', ted_when = ''the per-request timeout expires'', ted_retryable = True\<rparr>],
      td_grants = [\<lparr>gd_kind = ''exact'',
        gd_description = ''requires the tool grant plus exact egress.destination:<id> and, when used, ''
          @ ''secrets.use:<id> grants''\<rparr>],
      td_sensitive = True, td_approval = approval, td_since = ''0.1.0'', td_stability = ''experimental''\<rparr>"

text \<open>A registered function answers and changes the world; its observations are not seen by the host.\<close>

definition host_call :: "'w host_run \<Rightarrow> 'w egress_world \<Rightarrow> json host_result \<times> 'w egress_world" where
  "host_call m w = (case m w of (r, tr, w') \<Rightarrow> (r, w'))"

definition secrets_use_fn :: "'w http_env \<Rightarrow> 'w egress_world host_fn" where
  "secrets_use_fn he =
     \<lparr>fn_docs = egress_tool_docs ''secrets.use'' ''secrets''
        ''Issue a session-bound opaque handle for one configured secret'' ''secrets.use({ name }) -> { token }''
        ''none; issuance requires the exact secrets.use:<id> grant'',
      fn_call = (\<lambda>args ctx. host_call (secrets_use_call he args ctx))\<rparr>"

definition http_request_fn :: "'w http_env \<Rightarrow> 'w egress_world host_fn" where
  "http_request_fn he =
     \<lparr>fn_docs = egress_tool_docs ''http.request'' ''http''
        ''Send a bounded HTTP request through the destination-scoped egress boundary''
        ''http.request({ method, url, headers?, body?, auth?, timeoutMs? }) -> HttpResponse''
        (''required for every method except GET; approval shows bounded redacted semantics plus exact digests ''
         @ ''and non-secret target metadata''),
      fn_call = (\<lambda>args ctx. host_call (http_request_call he args ctx))\<rparr>"

definition register_egress_functions ::
    "'w egress_world host_registry \<Rightarrow> 'w http_env \<Rightarrow> 'w egress_world host_registry" where
  "register_egress_functions registry he = host_register (host_register registry (secrets_use_fn he)) (http_request_fn he)"

subsection \<open>The trace of a host call\<close>

lemma quiet_host [quiet_intros]: "quiet m \<Longrightarrow> quiet (eg_host m)"
  by (auto simp: quiet_def eg_host_def split: prod.splits) (metis fst_conv snd_conv)

lemma eg_host_cases:
  assumes "eg_host m w = (r, tr, w')"
  obtains e where "m w = (Inl e, tr, w')" "r = Inl (into_host e)" | x where "m w = (Inr x, tr, w')" "r = Inr x"
  using assms by (auto simp: eg_host_def split: prod.splits sum.splits)

lemma quiet_prepare [quiet_intros]: "quiet (prepare_mutation env ctx q)"
  unfolding prepare_mutation_def prepare_mutation_snapshot_def emit_denial_def Let_def by (intro quiet_intros)

lemma store_begin_created:
  "fst (store_begin_mutation st intent) = Inr c \<Longrightarrow> mc_created c \<Longrightarrow> mc_record c = mutation_started intent"
  by (auto simp: store_begin_mutation_def Let_def split: option.splits if_splits)

lemma claim_trace:
  assumes "eg_bind (durable (\<lambda>st. store_begin_mutation st intent)) (\<lambda>claim.
      if mc_created claim
      then eg_bind (eg_observe (HClaimed (mc_record claim))) (\<lambda>_. eg_lift (Inr (MExecute (mc_record claim))))
      else if mr_status (mc_record claim) = MStarted then eg_bind (durable (f claim)) (\<lambda>record. eg_lift (Inr (MReplay record)))
      else eg_lift (Inr (MReplay (mc_record claim)))) w = (r, tr, w')"
  shows "(r = Inr (MExecute (mutation_started intent)) \<and> tr = [HClaimed (mutation_started intent)])
    \<or> (tr = [] \<and> (\<forall>eff. r \<noteq> Inr (MExecute eff)))"
proof (rule quiet_bindE [OF assms quiet_basic(7)])
  fix claim w1
  assume d: "durable (\<lambda>st. store_begin_mutation st intent) w = (Inr claim, [], w1)"
    and run: "(if mc_created claim
      then eg_bind (eg_observe (HClaimed (mc_record claim))) (\<lambda>_. eg_lift (Inr (MExecute (mc_record claim))))
      else if mr_status (mc_record claim) = MStarted then eg_bind (durable (f claim)) (\<lambda>record. eg_lift (Inr (MReplay record)))
      else eg_lift (Inr (MReplay (mc_record claim)))) w1 = (r, tr, w')"
  have "mc_created claim \<Longrightarrow> mc_record claim = mutation_started intent"
    using durable_run [OF d] store_begin_created by metis
  then show ?thesis
    using run by (auto simp: eg_bind_def eg_observe_def eg_lift_def dest!: durable_run split: if_splits prod.splits sum.splits)
qed simp

lemma begin_mutation_trace:
  assumes "begin_mutation env ctx p w = (r, tr, w')"
  shows "(\<exists>eff. r = Inr (MExecute eff) \<and> tr = [HClaimed eff] \<and> mi_request_digest (mr_intent eff) = pm_request_digest p
            \<and> mi_session_id (mr_intent eff) = session_id ctx)
    \<or> (tr = [] \<and> (\<forall>eff. r \<noteq> Inr (MExecute eff)))"
proof (cases "env_effect_scope env ctx")
  case (Some scope)
  then show ?thesis
    using assms unfolding begin_mutation_def Let_def
    by (cases "sha256_json env (effect_json scope (sha256_domain env ''tm.egress.session.v1'' (session_id ctx))
        (sha256_domain env ''tm.egress.actor.v1'' (case actor_id ctx of None \<Rightarrow> ''root'' | Some a \<Rightarrow> a)) p)")
      (auto simp: mutation_started_def dest!: claim_trace)
qed (use assms in \<open>simp add: begin_mutation_def\<close>)


lemma prepare_snapshot_Inr:
  assumes "prepare_mutation_snapshot env ctx q w = (Inr p, tr, w')"
  shows "require_session ctx = Inr () \<and> pm_state p = er_state (eg_runtime w)
    \<and> authorize (env_parse_url env) (rs_config (pm_state p)) (hq_url q) (to_ascii_uppercase (hq_method q)) = Inr (pm_destination p)
    \<and> pm_destination_id p = ed_id (ad_policy (pm_destination p))"
proof -
  let ?m = "to_ascii_uppercase (hq_method q)"
  let ?st = "er_state (eg_runtime w)"
  have s: "require_session ctx = Inr ()" and m: "?m \<noteq> ''GET''"
    using assms by (cases "require_session ctx"; auto simp: prepare_mutation_snapshot_def Let_def split: if_splits)+
  obtain d where d: "authorize (env_parse_url env) (rs_config ?st) (hq_url q) ?m = Inr d"
    using assms s m
    by (cases "authorize (env_parse_url env) (rs_config ?st) (hq_url q) ?m")
      (auto simp: prepare_mutation_snapshot_def Let_def eg_get_bind)
  have "authorize_destination ctx ?st (ad_policy d) = Inr ()"
    "validate_request_headers (ad_policy d) (hq_headers q) = Inr ()"
    using assms s m d
    by (cases "authorize_destination ctx ?st (ad_policy d)"; cases "validate_request_headers (ad_policy d) (hq_headers q)";
        simp add: prepare_mutation_snapshot_def Let_def eg_get_bind)+
  then have "pm_state p = ?st \<and> pm_destination p = d \<and> pm_destination_id p = ed_id (ad_policy d)"
    using assms s m d
    by (auto simp: prepare_mutation_snapshot_def Let_def eg_get_bind elim!: eg_bind_cases)
  then show ?thesis using s d by simp
qed

lemma prepare_Inr:
  assumes "prepare_mutation env ctx q w = (Inr p, tr, w')"
  shows "prepare_mutation_snapshot env ctx q w = (Inr p, tr, w')"
  using assms unfolding prepare_mutation_def
  by (auto simp: eg_try_def eg_bind_def eg_lift_def split: prod.splits sum.splits)


lemma ask_approval_bind:
  assumes "eg_bind (ask_approval ctx action) f w = (r, tr, w')"
  obtains e where "r = Inl e" "tr = []" | w1 tr' where "tr = HApproved action # tr'" "f () w1 = (r, tr', w')"
  using assms by (auto simp: eg_bind_def ask_approval_def split: prod.splits sum.splits)

lemma begin_bind:
  assumes "eg_bind (eg_host (begin_mutation env ctx p)) (\<lambda>execution. case execution of
      MExecute eff \<Rightarrow> eg_bind (eg_host (execute_prepared_mutation env ctx q p eff)) (\<lambda>r. eg_lift (Inr (f r)))
    | MReplay eff \<Rightarrow> eg_lift (Inr (g eff))) w = (r, tr, w')"
  obtains "tr = []"
  | eff r2 w1 w2 rest where "tr = HClaimed eff # rest" "execute_prepared_mutation env ctx q p eff w1 = (r2, rest, w2)"
      "mi_request_digest (mr_intent eff) = pm_request_digest p" "mi_session_id (mr_intent eff) = session_id ctx"
proof -
  obtain r1 tr1 w1 where b: "begin_mutation env ctx p w = (r1, tr1, w1)" by (metis prod_cases3)
  show thesis
  proof (cases "\<exists>eff. r1 = Inr (MExecute eff)")
    case True
    then obtain eff where e: "r1 = Inr (MExecute eff)" "tr1 = [HClaimed eff]"
      "mi_request_digest (mr_intent eff) = pm_request_digest p" "mi_session_id (mr_intent eff) = session_id ctx"
      using begin_mutation_trace [OF b] by auto
    obtain r2 rest w2 where x: "execute_prepared_mutation env ctx q p eff w1 = (r2, rest, w2)" by (metis prod_cases3)
    have "tr = HClaimed eff # rest"
      using assms b e(1,2) x by (auto simp: eg_bind_def eg_host_def eg_lift_def split: sum.splits)
    then show thesis using that(2) x e(3,4) by blast
  next
    case False
    then have "tr1 = []" using begin_mutation_trace [OF b] by blast
    then have "tr = []"
      using assms b False
      by (auto simp: eg_bind_def eg_host_def eg_lift_def split: sum.splits mutation_execution.splits)
    then show thesis by (rule that(1))
  qed
qed

lemma sent_to_mem: "HSent p out \<in> set tr \<Longrightarrow> p \<in> set (sent_to tr)"
  by (induction tr rule: sent_to.induct) auto

lemma sent_to_append: "sent_to (a @ b) = sent_to a @ sent_to b"
  by (induction a rule: sent_to.induct) auto

lemma mutate_trace:
  assumes "mutate_and_encode he ctx q w = (r, tr, w')"
  obtains "sent_to tr = []"
  | before v after action eff rest r2 w0 w1 w2 w3 where "prepare_mutation (he_env he) ctx q w = (Inr before, [], v)" "tr = HApproved action # HClaimed eff # rest"
      "approval_action he q before = Inr action" "same_prepared before after"
      "prepare_mutation (he_env he) ctx q w0 = (Inr after, [], w1)"
      "execute_prepared_mutation (he_env he) ctx q after eff w2 = (r2, rest, w3)"
      "mi_request_digest (mr_intent eff) = pm_request_digest after" "mi_session_id (mr_intent eff) = session_id ctx"
proof -
  note q = quiet_host [OF quiet_prepare]
  show thesis
    using assms unfolding mutate_and_encode_def Let_def
    apply (elim quiet_bindE [OF _ q] quiet_bindE [OF _ quiet_basic(1)] ask_approval_bind)
        apply (auto intro: that(1))[4]
    subgoal premises run for before wa action wb wc tr' after wd
    proof (cases "same_prepared before after")
      case True
      have after: "prepare_mutation (he_env he) ctx q wc = (Inr after, [], wd)"
        using run(4) by (auto elim: eg_host_cases)
      have before: "prepare_mutation (he_env he) ctx q w = (Inr before, [], wa)"
        using run(1) by (auto elim: eg_host_cases)
      have action: "approval_action he q before = Inr action" using run(2) by simp
      from run(5) True have "eg_bind (eg_host (begin_mutation (he_env he) ctx after)) (\<lambda>execution. case execution of
          MExecute eff \<Rightarrow> eg_bind (eg_host (execute_prepared_mutation (he_env he) ctx q after eff)) (\<lambda>r. eg_lift (Inr (response_json r)))
        | MReplay eff \<Rightarrow> eg_lift (Inr (mutation_replay_receipt eff))) wd = (r, tr', w')"
        by simp
      then show thesis
        by (rule begin_bind) (use run(3) that before action True after in auto)
    qed (use run in \<open>auto intro: that(1)\<close>)
    done
qed


subsection \<open>No unapproved change\<close>

text \<open>C1. Nothing is changed on the network without an approval. When a call of \<open>http.request\<close> with a
  method other than GET sends a request, its observations start with the approval of an
  action, the text that describes the request as it was prepared, and with the claim of a fresh effect that carries the
  approved digest and session; they end with the recorded outcome of that effect. What was prepared
  again after the approval agrees with what was approved, the request goes to the approved
  destination under the grants, the policy and the resolved addresses of the containment property,
  and unless the method is HEAD it is the only request sent. JSON values are taken to be printable.\<close>

theorem http_mutation_guarded:
  assumes "http_request_call he args ctx w = (r, tr, w')" and "he_parse_request he args = Inr q"
    and "\<not> eq_ignore_ascii_case (hq_method q) ''GET''" and "HSent p out \<in> set tr"
    and "\<forall>v. env_json_text (he_env he) v \<noteq> None"
  shows "\<exists>before v after action eff hops s. prepare_mutation (he_env he) ctx q w = (Inr before, [], v)
    \<and> tr = HApproved action # HClaimed eff # hops @ [HFinished (mi_effect_id (mr_intent eff)) s]
    \<and> approval_action he q before = Inr action \<and> same_prepared before after
    \<and> mi_request_digest (mr_intent eff) = pm_request_digest before \<and> mi_session_id (mr_intent eff) = session_id ctx
    \<and> contained (he_env he) ctx (pm_state after) (Some (pm_destination_id before)) q p out
    \<and> (to_ascii_uppercase (hq_method q) \<notin> {''GET'', ''HEAD''} \<longrightarrow> sent_to tr = [p])"
proof -
  from assms(1-3) have "mutate_and_encode he ctx q w = (r, tr, w')" by (simp add: http_request_call_def)
  then show ?thesis
  proof (cases rule: mutate_trace)
    case 1
    with assms(4) show ?thesis using sent_to_mem by fastforce
  next
    case (2 before v after action eff rest r2 w0 w1 w2 w3)
    note prepared = prepare_snapshot_Inr [OF prepare_Inr [OF 2(5)]]
    obtain hops s secret v1 r1 v2 where h: "rest = hops @ [HFinished (mi_effect_id (mr_intent eff)) s]"
      "hops = [] \<or> execute_hops (he_env he) ctx (pm_state after) (Some (pm_destination_id after)) q
         (pm_destination after) secret v1 = (r1, hops, v2)"
      using prepared_trace [OF 2(6) assms(5)] by metis
    have sent: "HSent p out \<in> set hops" using assms(4) 2(2) h(1) by auto
    then have "request_trace (he_env he) ctx (pm_state after) (Some (pm_destination_id after)) q (pm_destination after) hops"
      using execute_hops_trace h(2) prepared by (metis empty_iff empty_set option.inject)
    then obtain secret where t: "hop_trace (he_env he) ctx (pm_state after) (Some (pm_destination_id after)) q
        (to_ascii_uppercase (hq_method q)) secret (unat (ed_max_redirects (ad_policy (pm_destination after))))
        (pm_destination after) hops"
      by (auto simp: request_trace_def)
    have c: "contained (he_env he) ctx (pm_state after) (Some (pm_destination_id after)) q p out"
      using prepared by (intro hop_trace_contained [OF t _ _ sent]) auto
    have same: "pm_destination_id after = pm_destination_id before" "pm_request_digest after = pm_request_digest before"
      using 2(4) by (auto simp: same_prepared_def)
    have "sent_to tr = [p]" if "to_ascii_uppercase (hq_method q) \<notin> {''GET'', ''HEAD''}"
      using hop_trace_redirects(2) [OF t] that sent_to_mem [OF sent] 2(2) h(1)
      by (cases "sent_to hops") (auto simp: sent_to_append)
    then show ?thesis using 2(1-4,7,8) h(1) c same by metis
  qed
qed


subsection \<open>A sample mutation\<close>

definition sample_http :: "unit http_env" where
  "sample_http = \<lparr>he_env = sample_env, he_parse_request = (\<lambda>_. Inr (sample_request ''PUT'')), he_parse_name = (\<lambda>_. Inl []),
     he_query_pairs = (\<lambda>_. []), he_parse_json = (\<lambda>_. None), he_json_text = (\<lambda>_. Inr ''PUT /v1/search'')\<rparr>"

lemma sample_prepare:
  obtains p where "prepare_mutation sample_env sample_ctx (sample_request ''PUT'') (sample_world ''PUT'')
      = (Inr p, [], sample_world ''PUT'')"
    "pm_state p = er_state (eg_runtime (sample_world ''PUT''))" "pm_destination p = sample_goal ''PUT''"
    "pm_destination_id p = ''research''" "pm_secret p = None"
proof -
  have "authorize sample_parse_url (rs_config (er_state (eg_runtime (sample_world ''PUT''))))
      ''https://api.example.com/v1/search'' ''PUT'' = Inr (sample_goal ''PUT'')"
    by (simp add: authorize_def sample_world_def sample_goal_def sample_target_def sample_parse_url_def ends_with_def
        sample_policy_def url_shape_denied_def sample_url_def has_byte_def has_ambiguous_path_encoding_def
        to_ascii_lowercase_def ascii_lower_def ascii_defs starts_with_def destination_matches_def sample_destination_def
        default_destination_def path_prefix_matches_def Let_def)
  then show thesis
    using sample_authorized [of "''PUT''" "''PUT''"]
    by (intro that) (auto simp: prepare_mutation_def prepare_mutation_snapshot_def eg_defs Let_def eg_try_def
      canonical_request_headers_def sha256_json_def require_session_def validate_request_headers_def
      request_size_without_secret_value_def sample_url_def usize_checked_add_def)
qed


lemma sample_begin:
  obtains eff w where "begin_mutation sample_env sample_ctx p (sample_world ''PUT'') = (Inr (MExecute eff), [HClaimed eff], w)"
    "vs_budgets (er_durable (eg_runtime w)) = budget_book_default"
  by (auto simp: begin_mutation_def sha256_json_def Let_def eg_defs durable_def store_begin_mutation_def
      sample_world_def egress_store_default_def on_runtime_def intro: that)

lemma sample_http_run:
  obtains r tr w out where "http_request_call sample_http JNull sample_ctx (sample_world ''PUT'') = (r, tr, w)"
    "HSent (sample_target ''PUT'') out \<in> set tr"
proof -
  obtain p where p: "prepare_mutation sample_env sample_ctx (sample_request ''PUT'') (sample_world ''PUT'')
      = (Inr p, [], sample_world ''PUT'')"
    "pm_state p = er_state (eg_runtime (sample_world ''PUT''))" "pm_destination p = sample_goal ''PUT''"
    "pm_destination_id p = ''research''" "pm_secret p = None"
    by (rule sample_prepare)
  obtain eff w1 where b: "begin_mutation sample_env sample_ctx p (sample_world ''PUT'') = (Inr (MExecute eff), [HClaimed eff], w1)"
    "vs_budgets (er_durable (eg_runtime w1)) = budget_book_default"
    by (rule sample_begin)
  obtain r1 out tr1 w2 where x: "execute_prepared_mutation sample_env sample_ctx (sample_request ''PUT'') p eff w1 = (r1, tr1, w2)"
    "HSent (sample_target ''PUT'') out \<in> set tr1"
    by (rule sample_mutation [OF b(2) _ _ p(2-5)]) simp_all
  have a: "approval_action sample_http (sample_request ''PUT'') p = Inr ''PUT /v1/search''"
    by (simp add: approval_action_def sample_http_def sample_parse_url_def sample_url_def ends_with_def)
  obtain r tr w where run: "http_request_call sample_http JNull sample_ctx (sample_world ''PUT'') = (r, tr, w)"
    by (metis prod_cases3)
  have "\<not> eq_ignore_ascii_case ''PUT'' ''GET''" by code_simp
  then have "HSent (sample_target ''PUT'') out \<in> set tr"
    using run p(1) b(1) x a
    by (auto simp: http_request_call_def mutate_and_encode_def sample_http_def eg_defs eg_host_def ask_approval_def
        require_approval_def same_prepared_def Let_def split: sum.splits)
  with run show thesis by (rule that)
qed

theorem http_mutation_guarded_witness:
  "\<exists>r tr w out action eff hops s.
     http_request_call sample_http JNull sample_ctx (sample_world ''PUT'') = (r, tr, w)
   \<and> HSent (sample_target ''PUT'') out \<in> set tr
   \<and> tr = HApproved action # HClaimed eff # hops @ [HFinished (mi_effect_id (mr_intent eff)) s]
   \<and> sent_to tr = [sample_target ''PUT'']"
proof -
  obtain r tr w out where run: "http_request_call sample_http JNull sample_ctx (sample_world ''PUT'') = (r, tr, w)"
    "HSent (sample_target ''PUT'') out \<in> set tr"
    by (rule sample_http_run)
  have "\<not> eq_ignore_ascii_case ''PUT'' ''GET''" by code_simp
  then have "\<exists>action eff hops s. tr = HApproved action # HClaimed eff # hops @ [HFinished (mi_effect_id (mr_intent eff)) s]
      \<and> sent_to tr = [sample_target ''PUT'']"
    using http_mutation_guarded [OF run(1) _ _ run(2), of "sample_request ''PUT''"] by (auto simp: sample_http_def)
  then show ?thesis using run by blast
qed

end
