(* ===== verification/Egress_Admin.thy ===== *)
theory Egress_Admin
  imports Egress_Trace "HOL-Library.Sublist"
begin

text \<open>
  What the administrative operations of \<open>EgressRuntime\<close> promise (\<open>tm-egress/src/runtime.rs\<close>): which
  revocations survive a sequence of policy replacements, and that the table of opaque secret handles
  stays within its caps and is bound to session and actor, whatever sequence of operations runs.
\<close>

subsection \<open>The ambient parameters\<close>

text \<open>Reading the clock, drawing random bytes and emitting an event leave the runtime's own state alone.\<close>

definition ambient :: "'w egress_env \<Rightarrow> bool" where
  "ambient env \<longleftrightarrow>
     (\<forall>w. eg_runtime (snd (env_now env w)) = eg_runtime w)
     \<and> (\<forall>n w. eg_runtime (snd (env_random env n w)) = eg_runtime w)"

definition ambient_events :: "'w egress_world invocation_ctx \<Rightarrow> bool" where
  "ambient_events ctx \<longleftrightarrow> (\<forall>t j w. eg_runtime (snd (emit_event ctx t j w)) = eg_runtime w)"

lemma ambient_now: "ambient env \<Longrightarrow> eg_runtime (snd (env_now env w)) = eg_runtime w"
  by (simp add: ambient_def)

lemma ambient_random: "ambient env \<Longrightarrow> eg_runtime (snd (env_random env n w)) = eg_runtime w"
  by (simp add: ambient_def)

lemma eg_runtime_on_runtime [simp]: "eg_runtime (on_runtime f w) = f (eg_runtime w)"
  by (simp add: on_runtime_def)

subsection \<open>Replacing the policy\<close>

definition accepted :: "'w egress_env \<Rightarrow> bool \<Rightarrow> egress_config list \<Rightarrow> validated_config list" where
  "accepted env allow_http cs =
     List.map_filter (\<lambda>c. case validate_config (env_parse_url env) c allow_http of Inl _ \<Rightarrow> None | Inr v \<Rightarrow> Some v) cs"

definition replacements :: "'w egress_env \<Rightarrow> egress_config list \<Rightarrow> 'w egress_world \<Rightarrow> 'w egress_world" where
  "replacements env cs w = foldl (\<lambda>w c. snd (snd (replace_policy env c w))) w cs"

definition names_destination :: "validated_config \<Rightarrow> target_version \<Rightarrow> bool" where
  "names_destination v t \<longleftrightarrow> (\<exists>d. map_of (vc_destinations v) (fst t) = Some d \<and> ed_version d = snd t)"

definition names_secret :: "validated_config \<Rightarrow> target_version \<Rightarrow> bool" where
  "names_secret v t \<longleftrightarrow> (\<exists>s. map_of (vc_secrets v) (fst t) = Some s \<and> es_version s = snd t)"

lemma retain_handles_runtime:
  assumes "ambient env"
  shows "eg_runtime (snd (retain_handles env secrets hs w)) = eg_runtime w"
  by (induction hs arbitrary: w) (auto simp: Let_def ambient_now [OF assms])

lemma replace_policy_state:
  assumes "ambient env"
  shows "er_state (eg_runtime (snd (snd (replace_policy env c w))))
      = (case validate_config (env_parse_url env) c (er_allow_http (eg_runtime w)) of
           Inl _ \<Rightarrow> er_state (eg_runtime w) | Inr v \<Rightarrow> replaced_state v (er_state (eg_runtime w)))"
    and "er_allow_http (eg_runtime (snd (snd (replace_policy env c w)))) = er_allow_http (eg_runtime w)"
  by (auto simp: replace_policy_def eg_run_def Let_def retain_handles_runtime [OF assms] split: sum.splits)

lemma replaced_revocations:
  "rs_revoked_destinations (replaced_state v state) = {t \<in> rs_revoked_destinations state. names_destination v t}"
  "rs_revoked_secrets (replaced_state v state) = {t \<in> rs_revoked_secrets state. names_secret v t}"
  by (auto simp: replaced_state_def names_destination_def names_secret_def split: option.splits)

text \<open>C23. Exactly the revocations that every accepted policy still names survive a sequence of
  replacements. After replacing the policy any number of times, a revoked destination or secret is
  still revoked if and only if each policy that passed validation contains that id at that version;
  rejected policies change nothing. In particular a single policy that leaves a revoked target out
  forgets its revocation, and a later policy that brings the same version back re-authorizes it.
  Reading the clock leaves the runtime alone.\<close>

theorem revocations_after_replacements:
  assumes "ambient env"
  shows "rs_revoked_destinations (er_state (eg_runtime (replacements env cs w)))
      = {t \<in> rs_revoked_destinations (er_state (eg_runtime w)).
           list_all (\<lambda>v. names_destination v t) (accepted env (er_allow_http (eg_runtime w)) cs)}
    \<and> rs_revoked_secrets (er_state (eg_runtime (replacements env cs w)))
      = {t \<in> rs_revoked_secrets (er_state (eg_runtime w)).
           list_all (\<lambda>v. names_secret v t) (accepted env (er_allow_http (eg_runtime w)) cs)}"
proof (induction cs arbitrary: w)
  case (Cons c cs)
  let ?w = "snd (snd (replace_policy env c w))"
  have "replacements env (c # cs) w = replacements env cs ?w" by (simp add: replacements_def)
  then show ?case
    using Cons [of ?w] replace_policy_state [OF assms, of c w]
    by (cases "validate_config (env_parse_url env) c (er_allow_http (eg_runtime w))")
      (auto simp: accepted_def List.map_filter_simps replaced_revocations)
qed (simp add: replacements_def accepted_def List.map_filter_simps)

text \<open>The sample destination is revoked, left out by a policy that switches egress off, and authorized
  again by the original policy at the version that was revoked.\<close>

definition sample_off :: egress_config where
  "sample_off = \<lparr>ec_enabled = False, ec_session_limits = default_session_limits, ec_destinations = [], ec_secrets = []\<rparr>"

lemma sample_off_accepted: "\<exists>v. validate_config sample_parse_url sample_off False = Inr v \<and> vc_destinations v = []"
  by (simp add: validate_config_def sample_off_def validate_session_limits_def default_session_limits_def check_all_def)

lemma sample_ambient: "ambient sample_env"
  by (simp add: ambient_def)

theorem revocations_after_replacements_witness:
  "authorize_destination sample_ctx
     (er_state (eg_runtime (snd (snd (revoke_destination ''research'' (sample_world ''GET''))))))
     (sample_target ''GET'') = Inl (EgRevoked ''destination'')
   \<and> authorize_destination sample_ctx
       (er_state (eg_runtime (replacements sample_env [sample_off, sample_config]
          (snd (snd (revoke_destination ''research'' (sample_world ''GET''))))))) (sample_target ''GET'') = Inr ()"
proof -
  let ?w = "snd (snd (revoke_destination ''research'' (sample_world ''GET'')))"
  have w: "er_allow_http (eg_runtime ?w) = False" "rs_revoked_destinations (er_state (eg_runtime ?w)) = {(''research'', 1)}"
    by (simp_all add: revoke_destination_def eg_run_def sample_world_def sample_policy_def Let_def)
  have "rs_revoked_destinations (er_state (eg_runtime (replacements sample_env [sample_off, sample_config] ?w))) = {}"
    using revocations_after_replacements [OF sample_ambient, of "[sample_off, sample_config]" ?w] w sample_off_accepted
    by (auto simp: accepted_def List.map_filter_simps names_destination_def)
  then show ?thesis using w by (simp add: authorize_destination_def require_exact_grant_def)
qed


subsection \<open>The table of secret handles\<close>

text \<open>The calls that made the current handles are remembered beside the world: the contexts and secret
  ids of the calls of \<open>issue_secret_handle\<close>. Everything else a session does, an exchange included,
  leaves the policy alone and can only drop handles.\<close>

inductive runtime_run ::
    "'w egress_env \<Rightarrow> ('w egress_world invocation_ctx \<times> string) set \<Rightarrow> 'w egress_world \<Rightarrow> bool" for env where
  run_new: "runtime_new (env_parse_url env) c allow_http = Inr (eg_runtime w) \<Longrightarrow> runtime_run env {} w"
| run_replace: "runtime_run env calls w \<Longrightarrow> runtime_run env calls (snd (snd (replace_policy env c w)))"
| run_revoke_destination: "runtime_run env calls w \<Longrightarrow> runtime_run env calls (snd (snd (revoke_destination i w)))"
| run_revoke_secret: "runtime_run env calls w \<Longrightarrow> runtime_run env calls (snd (snd (revoke_secret i w)))"
| run_clear: "runtime_run env calls w \<Longrightarrow> runtime_run env calls (runtime_clear_session sid w)"
| run_issue: "runtime_run env calls w \<Longrightarrow> ambient_events ctx
    \<Longrightarrow> runtime_run env (insert (ctx, i) calls) (snd (snd (issue_secret_handle env ctx i w)))"
| run_elsewhere: "runtime_run env calls w \<Longrightarrow> er_state (eg_runtime w') = er_state (eg_runtime w)
    \<Longrightarrow> er_allow_http (eg_runtime w') = er_allow_http (eg_runtime w)
    \<Longrightarrow> subseq (er_handles (eg_runtime w')) (er_handles (eg_runtime w)) \<Longrightarrow> runtime_run env calls w'"

definition of_session :: "string \<Rightarrow> (string \<times> handle_record) list \<Rightarrow> (string \<times> handle_record) list" where
  "of_session sid hs = filter (\<lambda>(_, h). hr_session_id h = sid) hs"

definition handles_bounded :: "(string \<times> handle_record) list \<Rightarrow> bool" where
  "handles_bounded hs \<longleftrightarrow> distinct (map fst hs) \<and> length hs \<le> MAX_SECRET_HANDLES_TOTAL
     \<and> (\<forall>sid. length (of_session sid hs) \<le> MAX_SECRET_HANDLES_PER_SESSION)"

definition issued_by :: "('w invocation_ctx \<times> string) set \<Rightarrow> handle_record \<Rightarrow> bool" where
  "issued_by calls h \<longleftrightarrow> (\<exists>ctx. (ctx, hr_secret_id h) \<in> calls \<and> session_id ctx = hr_session_id h \<and> actor_id ctx = hr_actor_id h
     \<and> ''secrets.use:'' @ hr_secret_id h \<in> allowed (grants ctx))"

definition handles_inv :: "('w invocation_ctx \<times> string) set \<Rightarrow> (string \<times> handle_record) list \<Rightarrow> bool" where
  "handles_inv calls hs \<longleftrightarrow> handles_bounded hs \<and> (\<forall>(token, h) \<in> set hs. issued_by calls h)"

lemma handles_inv_subseq:
  assumes "subseq xs ys" "handles_inv calls ys"
  shows "handles_inv calls xs"
proof -
  have "length (of_session sid xs) \<le> length (of_session sid ys)" for sid
    unfolding of_session_def by (rule list_emb_length [OF subseq_filter [OF assms(1)]])
  moreover have "length xs \<le> length ys" using assms(1) by (rule list_emb_length)
  moreover have "distinct (map fst ys) \<longrightarrow> distinct (map fst xs)"
    using assms(1) by (metis subseq_map subseq_conv_nths distinct_nthsI)
  moreover have "set xs \<subseteq> set ys" using assms(1) by (auto dest: list_emb_set)
  ultimately show ?thesis
    using assms(2) unfolding handles_inv_def handles_bounded_def by (blast intro: order_trans)
qed

lemma retain_handles_subseq: "subseq (fst (retain_handles env secrets hs w)) hs"
proof (induction hs arbitrary: w)
  case (Cons x hs)
  have "subseq (fst (retain_handles env secrets hs w)) (x # hs)" for w by (rule list_emb_Cons [OF Cons])
  then show ?case using Cons by (cases x) (simp add: Let_def)
qed simp

lemma handles_inv_insert: "handles_inv calls hs \<Longrightarrow> handles_inv (insert c calls) hs"
  by (auto simp: handles_inv_def issued_by_def)

lemma filter_update_length:
  "length (filter P (AList.update k v xs)) \<le> length (filter P xs) + (if P (k, v) then 1 else 0)"
  by (induction xs) auto

lemma in_update: "(t, x) \<in> set (AList.update k v xs) \<Longrightarrow> (t = k \<and> x = v) \<or> (t, x) \<in> set xs"
  by (induction xs) (auto split: if_splits)

lemma handles_inv_update:
  assumes "handles_inv calls hs" "length hs < MAX_SECRET_HANDLES_TOTAL"
    and "length (of_session (hr_session_id h) hs) < MAX_SECRET_HANDLES_PER_SESSION" and "issued_by calls h"
  shows "handles_inv calls (AList.update token h hs)"
proof -
  have "length (of_session sid (AList.update token h hs)) \<le> MAX_SECRET_HANDLES_PER_SESSION" for sid
    using filter_update_length [of "\<lambda>(_, h). hr_session_id h = sid" token h hs] assms(1,3)
    by (auto simp: of_session_def handles_inv_def handles_bounded_def split: if_splits intro: order_trans)
  moreover have "length (AList.update token h hs) \<le> MAX_SECRET_HANDLES_TOTAL"
    using filter_update_length [of "\<lambda>_. True" token h hs] assms(2) by simp
  moreover have "\<forall>(t, x) \<in> set (AList.update token h hs). issued_by calls x"
    using assms(1,4) in_update [of _ _ token h hs] by (fastforce simp: handles_inv_def)
  ultimately show ?thesis
    using assms(1) by (simp add: handles_inv_def handles_bounded_def distinct_update)
qed

lemma live_subseq: "subseq (live_handles now hs) hs"
  by (simp add: live_handles_def)

lemma claim_handle_inv:
  assumes "handles_inv calls (er_handles (eg_runtime w))" and "ambient env"
    and "(ctx, es_id s) \<in> calls" "''secrets.use:'' @ es_id s \<in> allowed (grants ctx)"
  shows "handles_inv calls (er_handles (eg_runtime (snd (snd (claim_handle env ctx s now w)))))
    \<and> er_state (eg_runtime (snd (snd (claim_handle env ctx s now w)))) = er_state (eg_runtime w)
    \<and> er_allow_http (eg_runtime (snd (snd (claim_handle env ctx s now w)))) = er_allow_http (eg_runtime w)"
proof -
  let ?hs = "live_handles now (er_handles (eg_runtime w))"
  have live: "handles_inv calls ?hs" using handles_inv_subseq [OF live_subseq assms(1)] .
  have "issued_by calls (handle_for ctx s now)"
    using assms(3,4) by (auto simp: issued_by_def handle_for_def)
  then have "handles_inv calls (AList.update token (handle_for ctx s now) ?hs)"
    if "length ?hs < MAX_SECRET_HANDLES_TOTAL" "length (of_session (session_id ctx) ?hs) < MAX_SECRET_HANDLES_PER_SESSION" for token
    using handles_inv_update [OF live] that by (simp add: handle_for_def)
  then show ?thesis
    using live
    by (auto simp: claim_handle_def eg_bind_def eg_run_def eg_lift_def Let_def random_token_def of_session_def
        ambient_random [OF assms(2)] split: option.splits)
qed


lemma config_secret_id: "config_wf a v \<Longrightarrow> map_of (vc_secrets v) i = Some s \<Longrightarrow> es_id s = i"
  by (auto simp: config_wf_def dest: map_of_SomeD)

lemma audit_runtime: "ambient_events ctx \<Longrightarrow> eg_runtime (snd (snd (audit ctx t j w))) = eg_runtime w"
  by (simp add: audit_def eg_run_def ambient_events_def)

definition keeps :: "('w egress_world \<Rightarrow> bool) \<Rightarrow> ('e, 'a, 'w) run \<Rightarrow> bool" where
  "keeps Q m \<longleftrightarrow> (\<forall>w. Q w \<longrightarrow> Q (snd (snd (m w))))"

lemma keeps_basic: "keeps Q (eg_lift r)" "keeps Q (eg_get f)"
  by (simp_all add: keeps_def eg_lift_def eg_get_def)

lemma keeps_lift_bind: "(\<And>x. r = Inr x \<Longrightarrow> keeps Q (f x)) \<Longrightarrow> keeps Q (eg_bind (eg_lift r) f)"
  by (cases r) (auto simp: keeps_def eg_bind_def eg_lift_def split: prod.splits)

lemma keeps_bind: "keeps Q m \<Longrightarrow> (\<And>x. keeps Q (f x)) \<Longrightarrow> keeps Q (eg_bind m f)"
  unfolding keeps_def eg_bind_def by (auto split: prod.splits sum.splits) (metis snd_conv)+

lemma keeps_get_bind:
  assumes "\<And>w. Q w \<Longrightarrow> g w = state" and "keeps Q (f state)"
  shows "keeps Q (eg_bind (eg_get g) f)"
  using assms by (auto simp: keeps_def eg_bind_def eg_get_def split: prod.splits)

lemma issue_handle_inv:
  assumes "handles_inv calls (er_handles (eg_runtime w))" "config_wf a (rs_config (er_state (eg_runtime w)))"
    and "ambient env" "ambient_events ctx"
  shows "handles_inv (insert (ctx, i) calls) (er_handles (eg_runtime (snd (snd (issue_secret_handle env ctx i w)))))
    \<and> er_state (eg_runtime (snd (snd (issue_secret_handle env ctx i w)))) = er_state (eg_runtime w)
    \<and> er_allow_http (eg_runtime (snd (snd (issue_secret_handle env ctx i w)))) = er_allow_http (eg_runtime w)"
proof -
  let ?state = "er_state (eg_runtime w)"
  let ?Q = "\<lambda>w'. handles_inv (insert (ctx, i) calls) (er_handles (eg_runtime w')) \<and> er_state (eg_runtime w') = ?state
      \<and> er_allow_http (eg_runtime w') = er_allow_http (eg_runtime w)"
  have now: "keeps ?Q (eg_now env)" by (simp add: keeps_def eg_now_def eg_run_def ambient_now [OF assms(3)])
  have audit: "keeps ?Q (audit ctx t j)" for t j by (simp add: keeps_def audit_runtime [OF assms(4)])
  have claim: "keeps ?Q (claim_handle env ctx s now)"
    if "map_of (vc_secrets (rs_config ?state)) i = Some s" "require_exact_grant (grants ctx) (''secrets.use:'' @ i) = Inr u" for s now u
    using claim_handle_inv [of "insert (ctx, i) calls" _ env ctx s now] config_secret_id [OF assms(2) that(1)] assms(3) that(2)
    by (auto simp: keeps_def require_exact_grant_def split: if_splits)
  have "keeps ?Q (issue_secret_handle env ctx i)"
    unfolding issue_secret_handle_def
    apply (rule keeps_lift_bind)
    apply (rule keeps_get_bind [where state = ?state])
     apply simp
    apply (split if_split, intro conjI impI keeps_basic keeps_lift_bind)
    apply (split option.split, intro conjI impI allI keeps_basic keeps_lift_bind)
    apply (intro keeps_bind [OF now])
    apply (rule keeps_bind [OF claim], assumption, assumption)
    apply (clarsimp split: prod.splits)
    apply (intro keeps_bind [OF audit] keeps_basic)
    done
  then show ?thesis using handles_inv_insert [OF assms(1)] by (simp add: keeps_def)
qed

lemma runtime_run_inv:
  assumes "runtime_run env calls w" and "ambient env"
  shows "handles_inv calls (er_handles (eg_runtime w))
    \<and> config_wf (er_allow_http (eg_runtime w)) (rs_config (er_state (eg_runtime w)))"
  using assms(1)
proof induction
  case (run_new c allow_http w)
  then obtain v where "validate_config (env_parse_url env) c allow_http = Inr v"
    "eg_runtime w = \<lparr>er_state = \<lparr>rs_config = v, rs_revoked_destinations = {}, rs_revoked_secrets = {}, rs_generation = 1\<rparr>,
       er_handles = [], er_durable = egress_store_default, er_allow_http = allow_http\<rparr>"
    by (auto simp: runtime_new_def split: sum.splits)
  then show ?case
    using validate_config_wf_aux(1) by (simp add: handles_inv_def handles_bounded_def of_session_def)
next
  case (run_replace calls w c)
  show ?case
  proof (cases "validate_config (env_parse_url env) c (er_allow_http (eg_runtime w))")
    case (Inl e)
    then show ?thesis using run_replace.IH by (simp add: replace_policy_def eg_run_def)
  next
    case (Inr v)
    have "handles_inv calls (fst (retain_handles env secrets (er_handles (eg_runtime w)) w1))" for secrets w1
      using handles_inv_subseq [OF retain_handles_subseq] run_replace.IH by blast
    then show ?thesis
      using Inr replace_policy_state [OF assms(2), of c w] validate_config_wf_aux(1) [OF Inr]
      by (simp add: replaced_state_def) (simp add: replace_policy_def eg_run_def Let_def)
  qed
next
  case (run_revoke_destination calls w i)
  then show ?case by (auto simp: revoke_destination_def eg_run_def Let_def split: option.splits)
next
  case (run_revoke_secret calls w i)
  then show ?case by (auto simp: revoke_secret_def eg_run_def Let_def split: option.splits)
next
  case (run_clear calls w sid)
  then show ?case by (auto simp: runtime_clear_session_def intro: handles_inv_subseq [OF subseq_filter_left])
next
  case (run_issue calls w ctx i)
  then show ?case using issue_handle_inv [OF run_issue.IH [THEN conjunct1] run_issue.IH [THEN conjunct2] assms(2)] by simp
next
  case (run_elsewhere calls w w')
  then show ?case using handles_inv_subseq [OF run_elsewhere.hyps(4) run_elsewhere.IH [THEN conjunct1]] by simp
qed

lemma resolve_snapshot_Inr:
  assumes "resolve_secret_snapshot env ctx state token d w = (Inr (snap, s), tr, w')" and "ambient env"
  obtains h where "(token, h) \<in> set (er_handles (eg_runtime w))" "fst (env_now env w) < hr_expires_at h"
    "hr_session_id h = session_id ctx" "hr_actor_id h = actor_id ctx"
    "map_of (vc_secrets (rs_config state)) (hr_secret_id h) = Some s" "es_version s = hr_secret_version h"
    "(es_id s, es_version s) \<notin> rs_revoked_secrets state" "''secrets.use:'' @ es_id s \<in> allowed (grants ctx)"
    "ed_id d \<in> set (es_destinations s)"
proof -
  let ?hs = "live_handles (fst (env_now env w)) (er_handles (eg_runtime w))"
  obtain h where h: "map_of ?hs token = Some h"
    using assms
    by (cases "map_of ?hs token") (auto simp: resolve_secret_snapshot_def eg_bind_def eg_now_def eg_run_def Let_def ambient_now)
  then have "(token, h) \<in> set ?hs" by (rule map_of_SomeD)
  moreover obtain s' where "map_of (vc_secrets (rs_config state)) (hr_secret_id h) = Some s'"
    using assms h
    by (cases "map_of (vc_secrets (rs_config state)) (hr_secret_id h)")
      (auto simp: resolve_secret_snapshot_def eg_bind_def eg_now_def eg_run_def eg_lift_def Let_def ambient_now split: if_splits)
  ultimately show thesis
    using assms h
    by (intro that [of h])
      (auto simp: resolve_secret_snapshot_def eg_bind_def eg_now_def eg_run_def eg_lift_def Let_def ambient_now live_handles_def
        ensure_secret_not_revoked_def authorize_secret_for_config_def require_exact_grant_def split: if_splits)
qed

text \<open>C8. The table of secret handles stays within its caps, and a handle is worth nothing to anyone
  but its owner. Whatever policies are installed, targets revoked, sessions cleared and handles issued,
  the table holds at most 4096 handles under distinct tokens and at most 64 of one session. A token
  resolves, under a policy of that or of an earlier moment, only for the session and actor that issued
  it, before it expires, to a secret that the policy still has at the issued version, that is not
  revoked and that lists the destination, when both the issuing and the resolving call hold the exact
  grant for that secret. The clock, the random source and the event sink leave the runtime alone.\<close>

theorem secret_handles_bound_to_owner:
  assumes "runtime_run env calls w" "ambient env"
  shows "length (er_handles (eg_runtime w)) \<le> MAX_SECRET_HANDLES_TOTAL
    \<and> length (of_session sid (er_handles (eg_runtime w))) \<le> MAX_SECRET_HANDLES_PER_SESSION
    \<and> distinct (map fst (er_handles (eg_runtime w)))
    \<and> (runtime_run env earlier w0
       \<longrightarrow> resolve_secret_snapshot env ctx (er_state (eg_runtime w0)) token d w = (Inr (snap, s), tr, w')
       \<longrightarrow> (\<exists>owner h. (owner, es_id s) \<in> calls \<and> map_of (er_handles (eg_runtime w)) token = Some h
            \<and> fst (env_now env w) < hr_expires_at h \<and> hr_secret_version h = es_version s
            \<and> session_id owner = session_id ctx \<and> actor_id owner = actor_id ctx
            \<and> ''secrets.use:'' @ es_id s \<in> allowed (grants owner) \<inter> allowed (grants ctx)
            \<and> ed_id d \<in> set (es_destinations s)
            \<and> (es_id s, es_version s) \<notin> rs_revoked_secrets (er_state (eg_runtime w0))))"
proof -
  note inv = runtime_run_inv [OF assms]
  have "\<exists>owner h. (owner, es_id s) \<in> calls \<and> map_of (er_handles (eg_runtime w)) token = Some h
            \<and> fst (env_now env w) < hr_expires_at h \<and> hr_secret_version h = es_version s
            \<and> session_id owner = session_id ctx \<and> actor_id owner = actor_id ctx
            \<and> ''secrets.use:'' @ es_id s \<in> allowed (grants owner) \<inter> allowed (grants ctx)
            \<and> ed_id d \<in> set (es_destinations s) \<and> (es_id s, es_version s) \<notin> rs_revoked_secrets (er_state (eg_runtime w0))"
    if "runtime_run env earlier w0"
      and r: "resolve_secret_snapshot env ctx (er_state (eg_runtime w0)) token d w = (Inr (snap, s), tr, w')"
  proof (rule resolve_snapshot_Inr [OF r assms(2)])
    fix h
    assume h: "(token, h) \<in> set (er_handles (eg_runtime w))" "fst (env_now env w) < hr_expires_at h"
      "hr_session_id h = session_id ctx" "hr_actor_id h = actor_id ctx"
      "map_of (vc_secrets (rs_config (er_state (eg_runtime w0)))) (hr_secret_id h) = Some s" "es_version s = hr_secret_version h"
      "(es_id s, es_version s) \<notin> rs_revoked_secrets (er_state (eg_runtime w0))"
      "''secrets.use:'' @ es_id s \<in> allowed (grants ctx)" "ed_id d \<in> set (es_destinations s)"
    have "es_id s = hr_secret_id h"
      using config_secret_id h(5) runtime_run_inv [OF that(1) assms(2)] by blast
    moreover have "issued_by calls h" using inv h(1) by (auto simp: handles_inv_def)
    moreover have "map_of (er_handles (eg_runtime w)) token = Some h"
      using inv h(1) by (simp add: handles_inv_def handles_bounded_def)
    ultimately show ?thesis using h unfolding issued_by_def Int_iff by metis
  qed
  moreover have "handles_bounded (er_handles (eg_runtime w))" using inv by (simp add: handles_inv_def)
  ultimately show ?thesis unfolding handles_bounded_def by (intro conjI impI) simp_all
qed


text \<open>A handle issued and resolved on the sample policy.\<close>

definition sample_runtime :: "unit egress_world" where
  "sample_runtime = \<lparr>eg_runtime = \<lparr>er_state = \<lparr>rs_config = sample_policy, rs_revoked_destinations = {},
     rs_revoked_secrets = {}, rs_generation = 1\<rparr>, er_handles = [], er_durable = egress_store_default, er_allow_http = False\<rparr>,
     eg_rest = ()\<rparr>"

definition sample_owner :: "unit egress_world invocation_ctx" where
  "sample_owner = sample_ctx\<lparr>grants := \<lparr>allowed = {''secrets.use:api''}\<rparr>\<rparr>"

abbreviation (input) sample_issued :: "unit egress_world" where
  "sample_issued \<equiv> snd (snd (issue_secret_handle sample_env sample_owner ''api'' sample_runtime))"

lemma sample_owner_fields [simp]:
  "session_id sample_owner = ''s1''" "actor_id sample_owner = None" "allowed (grants sample_owner) = {''secrets.use:api''}"
  "emit_event sample_owner t j w = (Inr (), w)"
  by (simp_all add: sample_owner_def sample_ctx_def ctx_new_def ctx_with_approvals_def noop_host_event_sink_def emit_event_def)

lemma sample_runtime_run: "runtime_run sample_env {} sample_runtime" "runtime_run sample_env {(sample_owner, ''api'')} sample_issued"
proof -
  show new: "runtime_run sample_env {} sample_runtime"
    by (rule run_new [of _ sample_config False]) (simp add: runtime_new_def sample_validate sample_runtime_def)
  show "runtime_run sample_env {(sample_owner, ''api'')} sample_issued"
    by (rule run_issue [OF new]) (simp add: ambient_events_def)
qed

lemma sample_resolves:
  "\<exists>token snap s tr w. resolve_secret_snapshot sample_env sample_owner (er_state (eg_runtime sample_runtime)) token
      sample_destination sample_issued = (Inr (snap, s), tr, w)"
  by (rule exI [of _ "env_hex sample_env (replicate 32 (CHR ''r''))"])
    (simp add: resolve_secret_snapshot_def issue_secret_handle_def claim_handle_def eg_bind_def eg_run_def eg_lift_def eg_get_def
      eg_now_def audit_def random_token_def sample_runtime_def sample_policy_def sample_secret_def require_session_def
      require_exact_grant_def ensure_secret_not_revoked_def authorize_secret_for_config_def live_handles_def handle_for_def
      on_runtime_def sample_destination_def default_destination_def Let_def)

theorem secret_handles_bound_to_owner_witness:
  "\<exists>token snap s tr w owner h. resolve_secret_snapshot sample_env sample_owner (er_state (eg_runtime sample_runtime)) token
      sample_destination sample_issued = (Inr (snap, s), tr, w)
    \<and> (owner, es_id s) \<in> {(sample_owner, ''api'')} \<and> map_of (er_handles (eg_runtime sample_issued)) token = Some h
    \<and> session_id owner = ''s1'' \<and> ''secrets.use:'' @ es_id s \<in> allowed (grants owner)"
proof -
  obtain token snap s tr w where r: "resolve_secret_snapshot sample_env sample_owner (er_state (eg_runtime sample_runtime)) token
      sample_destination sample_issued = (Inr (snap, s), tr, w)"
    using sample_resolves by blast
  have "\<exists>owner h. (owner, es_id s) \<in> {(sample_owner, ''api'')} \<and> map_of (er_handles (eg_runtime sample_issued)) token = Some h
    \<and> session_id owner = ''s1'' \<and> ''secrets.use:'' @ es_id s \<in> allowed (grants owner)"
    using secret_handles_bound_to_owner [OF sample_runtime_run(2) sample_ambient, of "''s1''" "{}" sample_runtime sample_owner
        token sample_destination snap s tr w, THEN conjunct2, THEN conjunct2, THEN conjunct2, rule_format,
        OF sample_runtime_run(1) r]
    unfolding sample_owner_fields Int_iff by blast
  then show ?thesis using r by blast
qed

end
