(* ===== verification/Line_Patch.thy ===== *)
theory Line_Patch
  imports Capability
begin

text \<open>
  Line-based patches of text files, \<open>tm-host/src/linked/util/patch.rs\<close>: \<open>apply_line_hunks\<close> checks the
  hunks of an \<open>fs.patch\<close> call against the text they were made for and rewrites it in one pass, and
  \<open>simple_diff\<close> shows the change. The properties relate the pass to a position-wise specification.
\<close>

subsection \<open>Lines\<close>

text \<open>\<open>str::split\<close> on a string separator that is not empty.\<close>

function split_on :: "string \<Rightarrow> string \<Rightarrow> string list" where
  "split_on sep s =
     (if sep \<noteq> [] \<and> s \<noteq> [] \<and> starts_with s sep then [] # split_on sep (drop (length sep) s)
      else (case s of
              [] \<Rightarrow> [[]]
            | b # bs \<Rightarrow> (case split_on sep bs of [] \<Rightarrow> [[b]] | w # ws \<Rightarrow> (b # w) # ws)))"
  by pat_completeness auto
termination split_on
  by (relation "measure (\<lambda>(_, s). length s)") auto

declare split_on.simps [simp del]

fun crlf_count :: "string \<Rightarrow> nat" where
  "crlf_count (a # b # s) = (if a = CR \<and> b = LF then 1 else 0) + crlf_count (b # s)"
| "crlf_count _ = 0"

definition dominant_line_ending :: "string \<Rightarrow> string" where
  "dominant_line_ending s =
     (let newline_count = length (filter (\<lambda>b. b = LF) s)
      in if 0 < newline_count \<and> newline_count = crlf_count s then [CR, LF] else [LF])"

subsection \<open>Hunks\<close>

datatype patch_hunk =
    Replace nat nat "string list" "string list"
  | Delete nat nat "string list"
  | InsertBefore nat string "string list"
  | InsertAfter nat string "string list"
  | Prepend "string list"
  | Append "string list"

record replacement =
  rp_start :: nat
  rp_end :: nat
  rp_lines :: "string list"

type_synonym inserts = "(nat \<times> string list) list"

definition validate_range :: "nat \<Rightarrow> nat \<Rightarrow> nat \<Rightarrow> unit host_result" where
  "validate_range start end len =
     (if start = 0 \<or> end < start \<or> len < end
      then Inl (InvalidArgs (''invalid line range '' @ show_nat start @ ''-'' @ show_nat end @ '' for '' @ show_nat len @ '' lines''))
      else Inr ())"

definition validate_line :: "nat \<Rightarrow> nat \<Rightarrow> unit host_result" where
  "validate_line line len =
     (if line = 0 \<or> len < line
      then Inl (InvalidArgs (''invalid line '' @ show_nat line @ '' for '' @ show_nat len @ '' lines''))
      else Inr ())"

definition validate_expected_range :: "nat \<Rightarrow> nat \<Rightarrow> string list \<Rightarrow> string list \<Rightarrow> unit host_result" where
  "validate_expected_range start end expected actual =
     (let range_len = end - start + 1
      in if length expected \<noteq> range_len
         then Inl (InvalidArgs (''fs.patch expectedLines has '' @ show_nat (length expected) @ '' lines but range ''
                     @ show_nat start @ ''-'' @ show_nat end @ '' has '' @ show_nat range_len))
         else if take (end - (start - 1)) (drop (start - 1) actual) \<noteq> expected
         then Inl (InvalidArgs (''fs.patch context mismatch at lines '' @ show_nat start @ ''-'' @ show_nat end
                     @ ''; re-read the file and retry''))
         else Inr ())"

definition validate_expected_line :: "nat \<Rightarrow> string \<Rightarrow> string list \<Rightarrow> unit host_result" where
  "validate_expected_line line expected actual =
     (if actual ! (line - 1) \<noteq> expected
      then Inl (InvalidArgs (''fs.patch context mismatch at line '' @ show_nat line @ ''; re-read the file and retry''))
      else Inr ())"

text \<open>\<open>inserts.entry(i).or_default().extend(new_lines)\<close>\<close>

definition extend_at :: "nat \<Rightarrow> string list \<Rightarrow> inserts \<Rightarrow> inserts" where
  "extend_at i new_lines ins =
     bt_insert i ((case map_of ins i of None \<Rightarrow> [] | Some ls \<Rightarrow> ls) @ new_lines) ins"

definition collect_range ::
    "string list \<Rightarrow> nat \<Rightarrow> nat \<Rightarrow> string list \<Rightarrow> string list \<Rightarrow> replacement list \<Rightarrow> inserts
     \<Rightarrow> (replacement list \<times> inserts) host_result" where
  "collect_range ls start end expected new_lines rs ins =
     (case validate_range start end (length ls) of
        Inl e \<Rightarrow> Inl e
      | Inr _ \<Rightarrow>
          (case validate_expected_range start end expected ls of
             Inl e \<Rightarrow> Inl e
           | Inr _ \<Rightarrow> Inr (rs @ [\<lparr>rp_start = start - 1, rp_end = end, rp_lines = new_lines\<rparr>], ins)))"

definition collect_insert ::
    "string list \<Rightarrow> nat \<Rightarrow> string \<Rightarrow> nat \<Rightarrow> string list \<Rightarrow> replacement list \<Rightarrow> inserts
     \<Rightarrow> (replacement list \<times> inserts) host_result" where
  "collect_insert ls line expected position new_lines rs ins =
     (case validate_line line (length ls) of
        Inl e \<Rightarrow> Inl e
      | Inr _ \<Rightarrow>
          (case validate_expected_line line expected ls of
             Inl e \<Rightarrow> Inl e
           | Inr _ \<Rightarrow> Inr (rs, extend_at position new_lines ins)))"

fun collect_hunk ::
    "string list \<Rightarrow> patch_hunk \<Rightarrow> replacement list \<Rightarrow> inserts \<Rightarrow> (replacement list \<times> inserts) host_result" where
  "collect_hunk ls (Replace start end expected new_lines) rs ins = collect_range ls start end expected new_lines rs ins"
| "collect_hunk ls (Delete start end expected) rs ins = collect_range ls start end expected [] rs ins"
| "collect_hunk ls (InsertBefore line expected new_lines) rs ins =
     collect_insert ls line expected (line - 1) new_lines rs ins"
| "collect_hunk ls (InsertAfter line expected new_lines) rs ins = collect_insert ls line expected line new_lines rs ins"
| "collect_hunk ls (Prepend new_lines) rs ins = Inr (rs, extend_at 0 new_lines ins)"
| "collect_hunk ls (Append new_lines) rs ins = Inr (rs, extend_at (length ls) new_lines ins)"

fun collect_hunks ::
    "string list \<Rightarrow> patch_hunk list \<Rightarrow> replacement list \<Rightarrow> inserts \<Rightarrow> (replacement list \<times> inserts) host_result" where
  "collect_hunks ls [] rs ins = Inr (rs, ins)"
| "collect_hunks ls (h # hs) rs ins =
     (case collect_hunk ls h rs ins of Inl e \<Rightarrow> Inl e | Inr (rs', ins') \<Rightarrow> collect_hunks ls hs rs' ins')"

fun windows_overlap :: "replacement list \<Rightarrow> bool" where
  "windows_overlap (a # b # rs) \<longleftrightarrow> rp_start b < rp_end a \<or> windows_overlap (b # rs)"
| "windows_overlap _ \<longleftrightarrow> False"

definition insert_inside :: "inserts \<Rightarrow> replacement \<Rightarrow> bool" where
  "insert_inside ins r \<longleftrightarrow> list_ex (\<lambda>(position, _). rp_start r < position \<and> position < rp_end r) ins"

subsection \<open>The rewriting pass\<close>

text \<open>The rest of \<open>replacements\<close> from \<open>replacement_idx\<close> on is the argument \<open>rs\<close>.\<close>

function emit_lines :: "string list \<Rightarrow> inserts \<Rightarrow> nat \<Rightarrow> replacement list \<Rightarrow> string list" where
  "emit_lines ls ins idx rs =
     (if length ls < idx then []
      else
        (case map_of ins idx of None \<Rightarrow> [] | Some new_lines \<Rightarrow> new_lines)
        @ (if idx = length ls then []
           else if rs \<noteq> [] \<and> rp_start (hd rs) = idx
           then rp_lines (hd rs) @ emit_lines ls ins (rp_end (hd rs)) (tl rs)
           else ls ! idx # emit_lines ls ins (idx + 1) rs))"
  by pat_completeness auto
termination emit_lines
  by (relation "measures [\<lambda>(ls, ins, idx, rs). length rs, \<lambda>(ls, ins, idx, rs). Suc (length ls) - idx]") auto

declare emit_lines.simps [simp del]

definition text_body :: "string \<Rightarrow> string list" where
  "text_body old =
     (let newline = dominant_line_ending old;
          body = (if ends_with old newline then take (length old - length newline) old else old)
      in if body = [] then [] else split_on newline body)"

definition apply_line_hunks :: "string \<Rightarrow> patch_hunk list \<Rightarrow> string host_result" where
  "apply_line_hunks old hunks =
     (let newline = dominant_line_ending old; ls = text_body old
      in case collect_hunks ls hunks [] [] of
           Inl e \<Rightarrow> Inl e
         | Inr (rs, ins) \<Rightarrow>
             let rs' = sort_key rp_start rs
             in if windows_overlap rs' then Inl (InvalidArgs ''overlapping replace/delete hunks'')
                else if list_ex (insert_inside ins) rs'
                then Inl (InvalidArgs ''insert hunk overlaps a replaced/deleted line range'')
                else Inr (str_join newline (emit_lines ls ins 0 rs') @ (if ends_with old newline then newline else [])))"

subsection \<open>The diff\<close>

definition common_prefix :: "string list \<Rightarrow> string list \<Rightarrow> nat" where
  "common_prefix xs ys = length (takeWhile (\<lambda>(x, y). x = y) (zip xs ys))"

definition marked :: "string \<Rightarrow> string list \<Rightarrow> string" where
  "marked mark ls = concat (map (\<lambda>l. mark @ l @ [LF]) ls)"

abbreviation (input) CONTEXT_LINES :: nat where "CONTEXT_LINES \<equiv> 3"

definition simple_diff :: "string \<Rightarrow> string \<Rightarrow> string \<Rightarrow> string" where
  "simple_diff old new path =
     (if old = new then []
      else
        let old_lines = str_lines old; new_lines = str_lines new;
            prefix = common_prefix old_lines new_lines;
            suffix = common_prefix (rev (drop prefix old_lines)) (rev (drop prefix new_lines));
            old_change_end = length old_lines - suffix;
            new_change_end = length new_lines - suffix;
            hunk_start = prefix - CONTEXT_LINES;
            old_hunk_end = min (old_change_end + CONTEXT_LINES) (length old_lines);
            new_hunk_end = min (new_change_end + CONTEXT_LINES) (length new_lines)
        in ''--- '' @ path @ [LF] @ ''+++ '' @ path @ [LF]
           @ ''@@ -'' @ show_nat (hunk_start + 1) @ '','' @ show_nat (old_hunk_end - hunk_start)
           @ '' +'' @ show_nat (hunk_start + 1) @ '','' @ show_nat (new_hunk_end - hunk_start) @ '' @@'' @ [LF]
           @ marked '' '' (take (prefix - hunk_start) (drop hunk_start old_lines))
           @ marked ''-'' (take (old_change_end - prefix) (drop prefix old_lines))
           @ marked ''+'' (take (new_change_end - prefix) (drop prefix new_lines))
           @ marked '' '' (take (new_hunk_end - new_change_end) (drop new_change_end new_lines))
           @ (if old_lines = new_lines then CHR 0x5C # '' No newline at end of file changed'' @ [LF] else []))"


subsection \<open>What the hunks ask for\<close>

text \<open>A specification by positions: what is inserted before each line and after the last, and what
  becomes of each line.\<close>

fun context_ok :: "string list \<Rightarrow> patch_hunk \<Rightarrow> bool" where
  "context_ok ls (Replace start end expected _) \<longleftrightarrow>
     1 \<le> start \<and> start \<le> end \<and> end \<le> length ls \<and> take (end - (start - 1)) (drop (start - 1) ls) = expected"
| "context_ok ls (Delete start end expected) \<longleftrightarrow>
     1 \<le> start \<and> start \<le> end \<and> end \<le> length ls \<and> take (end - (start - 1)) (drop (start - 1) ls) = expected"
| "context_ok ls (InsertBefore line expected _) \<longleftrightarrow> 1 \<le> line \<and> line \<le> length ls \<and> ls ! (line - 1) = expected"
| "context_ok ls (InsertAfter line expected _) \<longleftrightarrow> 1 \<le> line \<and> line \<le> length ls \<and> ls ! (line - 1) = expected"
| "context_ok ls _ \<longleftrightarrow> True"

fun hunk_range :: "patch_hunk \<Rightarrow> replacement list" where
  "hunk_range (Replace start end _ new_lines) = [\<lparr>rp_start = start - 1, rp_end = end, rp_lines = new_lines\<rparr>]"
| "hunk_range (Delete start end _) = [\<lparr>rp_start = start - 1, rp_end = end, rp_lines = []\<rparr>]"
| "hunk_range _ = []"

fun hunk_insert :: "nat \<Rightarrow> patch_hunk \<Rightarrow> (nat \<times> string list) list" where
  "hunk_insert n (InsertBefore line _ new_lines) = [(line - 1, new_lines)]"
| "hunk_insert n (InsertAfter line _ new_lines) = [(line, new_lines)]"
| "hunk_insert n (Prepend new_lines) = [(0, new_lines)]"
| "hunk_insert n (Append new_lines) = [(n, new_lines)]"
| "hunk_insert n _ = []"

definition ranges :: "patch_hunk list \<Rightarrow> replacement list" where
  "ranges hs = concat (map hunk_range hs)"

definition insertions :: "nat \<Rightarrow> patch_hunk list \<Rightarrow> (nat \<times> string list) list" where
  "insertions n hs = concat (map (hunk_insert n) hs)"

definition inserted_at :: "(nat \<times> string list) list \<Rightarrow> nat \<Rightarrow> string list" where
  "inserted_at xs i = concat (map snd (filter (\<lambda>(j, _). j = i) xs))"

definition apart :: "replacement \<Rightarrow> replacement \<Rightarrow> bool" where
  "apart a b \<longleftrightarrow> rp_end a \<le> rp_start b \<or> rp_end b \<le> rp_start a"

definition compatible :: "string list \<Rightarrow> patch_hunk list \<Rightarrow> bool" where
  "compatible ls hs \<longleftrightarrow>
     list_all (context_ok ls) hs \<and> sorted_wrt apart (ranges hs)
     \<and> list_all (\<lambda>r. list_all (\<lambda>(j, _). \<not> (rp_start r < j \<and> j < rp_end r)) (insertions (length ls) hs)) (ranges hs)"

definition line_at :: "string list \<Rightarrow> replacement list \<Rightarrow> nat \<Rightarrow> string list" where
  "line_at ls rs i =
     (if length ls \<le> i then []
      else case find (\<lambda>r. rp_start r = i) rs of
             Some r \<Rightarrow> rp_lines r
           | None \<Rightarrow> if list_ex (\<lambda>r. rp_start r < i \<and> i < rp_end r) rs then [] else [ls ! i])"

definition patched :: "string list \<Rightarrow> patch_hunk list \<Rightarrow> string list" where
  "patched ls hs =
     concat (map (\<lambda>i. inserted_at (insertions (length ls) hs) i @ line_at ls (ranges hs) i) [0..<Suc (length ls)])"

subsection \<open>Collecting the hunks\<close>

abbreviation (input) lookup :: "inserts \<Rightarrow> nat \<Rightarrow> string list" where
  "lookup ins i \<equiv> (case map_of ins i of None \<Rightarrow> [] | Some ls \<Rightarrow> ls)"

definition range_ok :: "string list \<Rightarrow> replacement \<Rightarrow> bool" where
  "range_ok ls r \<longleftrightarrow> rp_start r < rp_end r \<and> rp_end r \<le> length ls"

lemma extend_at_props:
  assumes "bt_wf ins"
  shows "bt_wf (extend_at i new_lines ins)"
    and "lookup (extend_at i new_lines ins) j = lookup ins j @ inserted_at [(i, new_lines)] j"
    and "fst ` set (extend_at i new_lines ins) = insert i (fst ` set ins)"
  using assms by (auto simp: extend_at_def bt_wf_insert bt.get_put set_fst_bt_insert inserted_at_def)

lemma collect_hunk_cases:
  "if context_ok ls h
   then \<exists>ins'. collect_hunk ls h rs ins = Inr (rs @ hunk_range h, ins')
     \<and> ins' = fold (\<lambda>(j, x). extend_at j x) (hunk_insert (length ls) h) ins
   else \<exists>e. collect_hunk ls h rs ins = Inl (InvalidArgs e)"
  by (cases h) (auto simp: collect_range_def collect_insert_def validate_range_def validate_line_def
      validate_expected_range_def validate_expected_line_def Let_def)


abbreviation (input) extend_all :: "(nat \<times> string list) list \<Rightarrow> inserts \<Rightarrow> inserts" where
  "extend_all xs ins \<equiv> fold (\<lambda>(j, x). extend_at j x) xs ins"

lemma collect_hunks_cases:
  "if list_all (context_ok ls) hs
   then collect_hunks ls hs rs ins = Inr (rs @ ranges hs, extend_all (insertions (length ls) hs) ins)
   else \<exists>e. collect_hunks ls hs rs ins = Inl (InvalidArgs e)"
proof (induction hs arbitrary: rs ins)
  case (Cons h hs)
  show ?case
  proof (cases "context_ok ls h")
    case True
    then have "collect_hunk ls h rs ins = Inr (rs @ hunk_range h, extend_all (hunk_insert (length ls) h) ins)"
      using collect_hunk_cases [of ls h rs ins] by simp
    then show ?thesis
      using True Cons [of "rs @ hunk_range h" "extend_all (hunk_insert (length ls) h) ins"]
      by (simp add: ranges_def insertions_def)
  next
    case False
    then show ?thesis using collect_hunk_cases [of ls h rs ins] by auto
  qed
qed (simp add: ranges_def insertions_def)

lemma inserted_at_append: "inserted_at (xs @ ys) i = inserted_at xs i @ inserted_at ys i"
  by (simp add: inserted_at_def)

lemma extend_all_props:
  assumes "bt_wf ins"
  shows "lookup (extend_all xs ins) j = lookup ins j @ inserted_at xs j"
    and "fst ` set (extend_all xs ins) = fst ` set xs \<union> fst ` set ins"
  using assms
proof (induction xs arbitrary: ins)
  case (Cons x xs)
  obtain k y where x: "x = (k, y)" by (cases x)
  {
    case 1
    show ?case
      using Cons.IH(1) [of "extend_at k y ins"] extend_at_props [OF 1] inserted_at_append [of "[x]" xs] by (simp add: x)
  next
    case 2
    show ?case using Cons.IH(2) [of "extend_at k y ins"] extend_at_props [OF 2] by (auto simp: x)
  }
qed (simp_all add: inserted_at_def)

subsection \<open>Order and overlap\<close>

lemma context_range_ok: "list_all (context_ok ls) hs \<Longrightarrow> list_all (range_ok ls) (ranges hs)"
proof (induction hs)
  case (Cons h hs)
  then show ?case by (cases h) (auto simp: ranges_def range_ok_def)
qed (simp add: ranges_def)

lemma sorted_wrt_insort_key:
  assumes "\<And>x y. P x y = P y x"
  shows "sorted_wrt P (insort_key f x xs) = sorted_wrt P (x # xs)"
  by (induction xs) (auto simp: set_insort_key assms)

lemma sorted_wrt_sort_key:
  assumes "\<And>x y. P x y = P y x"
  shows "sorted_wrt P (sort_key f xs) = sorted_wrt P xs"
  by (induction xs) (simp_all add: sorted_wrt_insort_key [OF assms])

lemma windows_overlap_iff:
  assumes "sorted (map rp_start rs)" "list_all (range_ok ls) rs"
  shows "windows_overlap rs \<longleftrightarrow> \<not> sorted_wrt apart rs"
  using assms
proof (induction rs rule: windows_overlap.induct)
  case (1 a b rs)
  have "apart a c" if "rp_end a \<le> rp_start b" "c \<in> set rs" for c
    using that 1 by (auto simp: apart_def list_all_iff range_ok_def)
  moreover have "rp_end a \<le> rp_start b" if "apart a b"
    using that 1 by (auto simp: apart_def range_ok_def)
  ultimately show ?case using 1 by (auto simp: apart_def)
qed auto

lemma apart_ends:
  assumes "sorted (map rp_start (r # rs))" "list_all (range_ok ls) (r # rs)" "sorted_wrt apart (r # rs)" "r' \<in> set rs"
  shows "rp_end r \<le> rp_start r'"
  using assms by (fastforce simp: apart_def range_ok_def list_all_iff)


subsection \<open>The pass against the specification\<close>

lemma line_at_from:
  assumes "\<forall>r \<in> set rs. i < rp_start r" "i < length ls"
  shows "line_at ls rs i = [ls ! i]"
proof -
  have "find (\<lambda>r. rp_start r = i) rs = None" using assms(1) by (auto simp: find_None_iff)
  then show ?thesis using assms by (auto simp: line_at_def list_ex_iff)
qed

lemma line_at_skip:
  assumes "sorted (map rp_start (r # rs))" "list_all (range_ok ls) (r # rs)" "sorted_wrt apart (r # rs)"
  shows "rp_start r < i \<Longrightarrow> i < rp_end r \<Longrightarrow> line_at ls (r # rs) i = []"
    and "rp_end r \<le> i \<Longrightarrow> line_at ls (r # rs) i = line_at ls rs i"
    and "line_at ls (r # rs) (rp_start r) = rp_lines r"
proof -
  note ends = apart_ends [OF assms]
  have r: "rp_start r < rp_end r" "rp_end r \<le> length ls" using assms(2) by (simp_all add: range_ok_def)
  show "line_at ls (r # rs) i = []" if "rp_start r < i" "i < rp_end r"
  proof -
    have "find (\<lambda>r. rp_start r = i) (r # rs) = None" using ends that by (fastforce simp: find_None_iff)
    then show ?thesis using that r by (simp add: line_at_def)
  qed
  show "line_at ls (r # rs) i = line_at ls rs i" if "rp_end r \<le> i"
    using that r by (simp add: line_at_def)
  show "line_at ls (r # rs) (rp_start r) = rp_lines r" using r by (simp add: line_at_def)
qed

lemma emit_lines_spec:
  assumes "sorted (map rp_start rs)" "list_all (range_ok ls) rs" "sorted_wrt apart rs"
    and "\<forall>r \<in> set rs. idx \<le> rp_start r" "idx \<le> length ls"
    and "\<not> list_ex (insert_inside ins) rs"
  shows "emit_lines ls ins idx rs = concat (map (\<lambda>i. lookup ins i @ line_at ls rs i) [idx..<Suc (length ls)])"
  using assms
proof (induction ls ins idx rs rule: emit_lines.induct)
  case (1 ls ins idx rs)
  consider (last) "idx = length ls" | (range) r rs' where "idx < length ls" "rs = r # rs'" "rp_start r = idx"
    | (keep) "idx < length ls" "\<forall>r \<in> set rs. idx < rp_start r"
  proof (cases "idx = length ls")
    case False
    then have l: "idx < length ls" using "1.prems"(5) by simp
    show thesis
    proof (cases "\<exists>r rs'. rs = r # rs' \<and> rp_start r = idx")
      case True
      then show thesis using l that(2) by blast
    next
      case False
      have "idx < rp_start r" if "r \<in> set rs" for r
      proof (cases rs)
        case (Cons r0 rs0)
        then have "idx < rp_start r0" "rp_start r0 \<le> rp_start r"
          using False "1.prems"(1,4) that by (auto simp: order.strict_iff_order)
        then show ?thesis by simp
      qed (use that in simp)
      then show thesis using l that(3) by blast
    qed
  qed (rule that(1))
  then show ?case
  proof cases
    case last
    then show ?thesis by (subst emit_lines.simps) (simp add: line_at_def)
  next
    case range
    note p = "1.prems" [unfolded range(2)]
    have r: "idx < rp_end r" "rp_end r \<le> length ls" using p(2) range(3) by (auto simp: range_ok_def)
    have ends: "\<forall>r' \<in> set rs'. rp_end r \<le> rp_start r'" using apart_ends [OF p(1-3)] by blast
    have rest: "emit_lines ls ins (rp_end r) rs' = concat (map (\<lambda>i. lookup ins i @ line_at ls rs' i) [rp_end r..<Suc (length ls)])"
    proof -
      have "emit_lines ls ins (rp_end (hd rs)) (tl rs)
          = concat (map (\<lambda>i. lookup ins i @ line_at ls (tl rs) i) [rp_end (hd rs)..<Suc (length ls)])"
        by (rule "1.IH"(1)) (use range r ends p in \<open>simp_all del: upt_Suc\<close>)
      then show ?thesis by (simp only: range(2) list.sel)
    qed
    have none: "map_of ins i = None" if "idx < i" "i < rp_end r" for i
      using p(6) that range(3) by (auto simp: insert_inside_def list_ex_iff map_of_eq_None_iff)
    have split: "[idx..<Suc (length ls)] = idx # [Suc idx..<rp_end r] @ [rp_end r..<Suc (length ls)]"
      using r upt_add_eq_append [of "Suc idx" "rp_end r" "Suc (length ls) - rp_end r"] upt_conv_Cons [of idx "Suc (length ls)"]
      by (simp del: upt_Suc)
    have gap: "concat (map (\<lambda>i. lookup ins i @ line_at ls rs i) [Suc idx..<rp_end r]) = []"
      using none line_at_skip(1) [OF p(1-3)] range by (auto simp: concat_eq_Nil_conv)
    have tail: "map (\<lambda>i. lookup ins i @ line_at ls rs i) [rp_end r..<Suc (length ls)]
        = map (\<lambda>i. lookup ins i @ line_at ls rs' i) [rp_end r..<Suc (length ls)]"
      using line_at_skip(2) [OF p(1-3)] range(2) by auto
    have step: "emit_lines ls ins idx rs = lookup ins idx @ rp_lines r @ emit_lines ls ins (rp_end r) rs'"
      using range by (subst emit_lines.simps) simp
    have start: "line_at ls rs idx = rp_lines r" using line_at_skip(3) [OF p(1-3)] range(2,3) by simp
    show ?thesis
      by (simp only: step rest split list.map map_append concat.simps concat_append gap tail start append_assoc append_Nil)
  next
    case keep
    then have "emit_lines ls ins idx rs = lookup ins idx @ ls ! idx # emit_lines ls ins (idx + 1) rs"
      by (subst emit_lines.simps) (cases rs; auto)
    moreover have "emit_lines ls ins (idx + 1) rs
        = concat (map (\<lambda>i. lookup ins i @ line_at ls rs i) [idx + 1..<Suc (length ls)])"
    proof (rule "1.IH"(2))
      show "\<not> (rs \<noteq> [] \<and> rp_start (hd rs) = idx)" using keep(2) by (cases rs) auto
    qed (use "1.prems" keep in \<open>simp_all add: Suc_le_eq\<close>)
    moreover have "[idx..<Suc (length ls)] = idx # [idx + 1..<Suc (length ls)]"
      using keep(1) by (simp add: upt_conv_Cons)
    ultimately show ?thesis using line_at_from [OF keep(2,1)] by simp
  qed
qed


text \<open>At most one range starts at a position, so the order of the ranges does not matter.\<close>

lemma find_unique:
  assumes "set xs = set ys" and "\<And>x y. x \<in> set xs \<Longrightarrow> y \<in> set xs \<Longrightarrow> P x \<Longrightarrow> P y \<Longrightarrow> x = y"
  shows "find P xs = find P ys"
proof (cases "find P xs")
  case None
  then have "find P ys = None" using assms(1) by (simp add: find_None_iff)
  with None show ?thesis by simp
next
  case (Some x)
  then have x: "P x" "x \<in> set xs" by (auto simp: find_Some_iff)
  then obtain y where y: "find P ys = Some y" using assms(1) by (cases "find P ys") (auto simp: find_None_iff)
  then have "P y" "y \<in> set xs" using assms(1) by (auto simp: find_Some_iff)
  then show ?thesis using assms(2) x y Some by metis
qed

lemma sorted_wrt_pair:
  assumes "sorted_wrt P xs" "\<And>x y. P x y = P y x" "x \<in> set xs" "y \<in> set xs" "x \<noteq> y"
  shows "P x y"
  using assms(1,3-5) by (induction xs) (auto simp: assms(2))

lemma apart_sym: "apart a b = apart b a"
  by (auto simp: apart_def)

lemma line_at_sort:
  assumes "list_all (range_ok ls) rs" "sorted_wrt apart rs"
  shows "line_at ls (sort_key rp_start rs) i = line_at ls rs i"
proof -
  have "r = r'" if "r \<in> set rs" "r' \<in> set rs" "rp_start r = i" "rp_start r' = i" for r r'
    using sorted_wrt_pair [OF assms(2) apart_sym that(1,2)] assms(1) that
    by (cases "r = r'") (auto simp: apart_def range_ok_def list_all_iff)
  then have "find (\<lambda>r. rp_start r = i) (sort_key rp_start rs) = find (\<lambda>r. rp_start r = i) rs"
    by (intro find_unique) auto
  then show ?thesis by (auto simp: line_at_def list_ex_iff)
qed


lemma insert_inside_keys:
  assumes "fst ` set ins = fst ` set xs"
  shows "list_ex (insert_inside ins) rs
    \<longleftrightarrow> \<not> list_all (\<lambda>r. list_all (\<lambda>(j, _). \<not> (rp_start r < j \<and> j < rp_end r)) xs) rs"
proof -
  have "insert_inside ins r \<longleftrightarrow> (\<exists>j \<in> fst ` set ins. rp_start r < j \<and> j < rp_end r)" for r
    by (force simp: insert_inside_def list_ex_iff)
  moreover have "list_all (\<lambda>(j, _). \<not> (rp_start r < j \<and> j < rp_end r)) xs
      \<longleftrightarrow> \<not> (\<exists>j \<in> fst ` set xs. rp_start r < j \<and> j < rp_end r)" for r
    by (force simp: list_all_iff)
  ultimately show ?thesis unfolding assms by (simp only: list_ex_iff list_all_iff) blast
qed

lemma split_on_Nil: "split_on sep [] = [[]]"
  by (simp add: split_on.simps)

lemma split_on_not_Nil: "split_on sep s \<noteq> []"
  by (subst split_on.simps) (auto split: list.splits)

lemma str_join_Cons: "xs \<noteq> [] \<Longrightarrow> str_join sep (x # xs) = x @ sep @ str_join sep xs"
  by (cases xs) simp_all

lemma join_split_on: "str_join sep (split_on sep s) = s"
proof (induction sep s rule: split_on.induct)
  case (1 sep s)
  show ?case
  proof (cases "sep \<noteq> [] \<and> s \<noteq> [] \<and> starts_with s sep")
    case True
    then have "str_join sep (split_on sep s) = sep @ drop (length sep) s"
      using "1.IH"(1) by (subst split_on.simps) (simp add: str_join_Cons split_on_not_Nil)
    also have "\<dots> = s" using True append_take_drop_id [of "length sep" s] by (simp add: starts_with_def)
    finally show ?thesis .
  next
    case False
    show ?thesis
    proof (cases s)
      case (Cons b bs)
      have IH: "str_join sep (split_on sep bs) = bs" using "1.IH"(2) [OF False Cons] .
      obtain w ws where w: "split_on sep bs = w # ws" using split_on_not_Nil by (metis neq_Nil_conv)
      have "split_on sep s = (b # w) # ws" using False Cons w by (subst split_on.simps) simp
      then show ?thesis using IH w Cons by (cases ws) simp_all
    qed (simp add: split_on_Nil)
  qed
qed

definition line_end :: "string \<Rightarrow> string" where
  "line_end old = (if ends_with old (dominant_line_ending old) then dominant_line_ending old else [])"

lemma text_body_join: "str_join (dominant_line_ending old) (text_body old) @ line_end old = old"
proof -
  let ?nl = "dominant_line_ending old"
  let ?body = "if ends_with old ?nl then take (length old - length ?nl) old else old"
  have "?body @ line_end old = old"
  proof (cases "ends_with old ?nl")
    case True
    then have "drop (length old - length ?nl) old = ?nl" by (simp add: ends_with_def)
    then have "take (length old - length ?nl) old @ ?nl = old" by (metis append_take_drop_id)
    with True show ?thesis by (simp only: line_end_def if_True)
  qed (simp add: line_end_def)
  moreover have "str_join ?nl (text_body old) = ?body"
    unfolding text_body_def Let_def by (cases "?body = []") (simp_all only: if_True if_False join_split_on str_join.simps refl)
  ultimately show ?thesis by simp
qed

lemma patched_nothing: "patched ls [] = ls"
proof -
  have "concat (map (line_at ls []) [0..<length ls]) = ls"
  proof -
    have "map (line_at ls []) [0..<length ls] = map (\<lambda>i. [ls ! i]) [0..<length ls]"
      by (simp add: line_at_def)
    then show ?thesis by (simp only: concat_map_singleton map_nth)
  qed
  moreover have "line_at ls [] (length ls) = []" by (simp add: line_at_def)
  ultimately show ?thesis
    by (simp add: patched_def insertions_def ranges_def inserted_at_def)
qed

text \<open>C22. A patch is applied exactly as its hunks ask, or refused. When every hunk names existing lines
  with the content it expects, no two ranges overlap and nothing is inserted inside a range, the result
  is the text whose lines are, position by position, what is inserted there in the order of the hunks
  followed by the line itself, by the replacement of the range that starts there, or by nothing inside
  a range; the line ending and the final line break are kept. Otherwise the patch is refused as an
  invalid argument. A patch without hunks gives the text back unchanged.\<close>

theorem apply_line_hunks_correct:
  "(if compatible (text_body old) hs
    then apply_line_hunks old hs = Inr (str_join (dominant_line_ending old) (patched (text_body old) hs) @ line_end old)
    else (\<exists>e. apply_line_hunks old hs = Inl (InvalidArgs e)))
   \<and> apply_line_hunks old [] = Inr old"
proof -
  have all: "if compatible (text_body old) hs
    then apply_line_hunks old hs = Inr (str_join (dominant_line_ending old) (patched (text_body old) hs) @ line_end old)
    else (\<exists>e. apply_line_hunks old hs = Inl (InvalidArgs e))" for hs
  proof (cases "list_all (context_ok (text_body old)) hs")
    case True
    let ?ls = "text_body old"
    let ?rs = "sort_key rp_start (ranges hs)"
    let ?ins = "extend_all (insertions (length ?ls) hs) []"
    have c: "collect_hunks ?ls hs [] [] = Inr (ranges hs, ?ins)"
      using True collect_hunks_cases [of ?ls hs "[]" "[]"] by simp
    have ok: "list_all (range_ok ?ls) (ranges hs)" by (rule context_range_ok [OF True])
    then have ok': "list_all (range_ok ?ls) ?rs" by (simp add: list_all_iff)
    have overlap: "windows_overlap ?rs \<longleftrightarrow> \<not> sorted_wrt apart (ranges hs)"
      using windows_overlap_iff [OF _ ok'] sorted_wrt_sort_key [of apart rp_start "ranges hs", OF apart_sym] by simp
    have keys: "fst ` set ?ins = fst ` set (insertions (length ?ls) hs)"
      using extend_all_props(2) [of "[]"] by (simp add: bt_wf_def)
    have inside: "list_ex (insert_inside ?ins) ?rs
        \<longleftrightarrow> \<not> list_all (\<lambda>r. list_all (\<lambda>(j, _). \<not> (rp_start r < j \<and> j < rp_end r)) (insertions (length ?ls) hs)) (ranges hs)"
      using insert_inside_keys [OF keys, of ?rs] by (simp add: list_all_iff)
    show ?thesis
    proof (cases "compatible ?ls hs")
      case True
      then have s: "sorted_wrt apart (ranges hs)" "\<not> windows_overlap ?rs" "\<not> list_ex (insert_inside ?ins) ?rs"
        using overlap inside by (auto simp: compatible_def)
      have "emit_lines ?ls ?ins 0 ?rs = concat (map (\<lambda>i. lookup ?ins i @ line_at ?ls ?rs i) [0..<Suc (length ?ls)])"
        using ok' s sorted_wrt_sort_key [of apart rp_start "ranges hs", OF apart_sym] by (intro emit_lines_spec) auto
      also have "\<dots> = patched ?ls hs"
        unfolding patched_def using extend_all_props(1) [of "[]"] line_at_sort [OF ok s(1)] by (simp add: bt_wf_def del: upt_Suc)
      finally show ?thesis using True c s(2,3) by (simp add: apply_line_hunks_def line_end_def Let_def)
    next
      case False
      then have "windows_overlap ?rs \<or> list_ex (insert_inside ?ins) ?rs"
        using True overlap inside by (auto simp: compatible_def)
      then show ?thesis using False c by (auto simp: apply_line_hunks_def Let_def)
    qed
  next
    case False
    then show ?thesis
      using collect_hunks_cases [of "text_body old" hs "[]" "[]"] by (auto simp: compatible_def apply_line_hunks_def Let_def)
  qed
  moreover have "compatible (text_body old) []" by (simp add: compatible_def ranges_def)
  ultimately show ?thesis using all [of "[]"] text_body_join [of old] by (simp add: patched_nothing)
qed


text \<open>A text that is a single empty line counts as a text without lines: a line put before it takes its
  place, and the line itself cannot be replaced. A text whose only line is deleted keeps a line break.\<close>

lemma single_empty_line:
  "apply_line_hunks [LF] [Prepend [''a'']] = Inr (''a'' @ [LF])"
  "\<exists>e. apply_line_hunks [LF] [Replace 1 1 [[]] [''a'']] = Inl (InvalidArgs e)"
  "apply_line_hunks (''a'' @ [LF]) [Delete 1 1 [''a'']] = Inr [LF]"
  by (simp_all add: apply_line_hunks_def text_body_def dominant_line_ending_def ends_with_def split_on.simps [of _ "_ # _"]
      split_on_Nil starts_with_def collect_range_def validate_range_def validate_expected_range_def extend_at_def
      emit_lines.simps insert_inside_def Let_def)

subsection \<open>The diff\<close>

lemma common_prefix_Cons: "common_prefix (x # xs) (y # ys) = (if x = y then Suc (common_prefix xs ys) else 0)"
  by (simp add: common_prefix_def)

lemma common_prefix_take:
  "take (common_prefix xs ys) xs = take (common_prefix xs ys) ys
   \<and> common_prefix xs ys \<le> length xs \<and> common_prefix xs ys \<le> length ys"
proof (induction xs arbitrary: ys)
  case (Cons x xs)
  then show ?case by (cases ys) (auto simp: common_prefix_Cons, simp_all add: common_prefix_def)
qed (simp add: common_prefix_def)

text \<open>The lines marked as removed and as added are what the two texts have between a common beginning
  and a common end.\<close>

lemma diff_lines:
  fixes old_lines new_lines :: "string list"
  defines "prefix \<equiv> common_prefix old_lines new_lines"
  defines "suffix \<equiv> common_prefix (rev (drop prefix old_lines)) (rev (drop prefix new_lines))"
  obtains common_start common_end where
    "old_lines = common_start @ take (length old_lines - suffix - prefix) (drop prefix old_lines) @ common_end"
    "new_lines = common_start @ take (length new_lines - suffix - prefix) (drop prefix new_lines) @ common_end"
proof
  let ?o = "drop prefix old_lines" and ?n = "drop prefix new_lines"
  have p: "take prefix old_lines = take prefix new_lines" unfolding prefix_def using common_prefix_take by blast
  have "take suffix (rev ?o) = take suffix (rev ?n)" "suffix \<le> length ?o" "suffix \<le> length ?n"
    unfolding suffix_def using common_prefix_take [of "rev ?o" "rev ?n"] by simp_all
  then have s: "drop (length ?o - suffix) ?o = drop (length ?n - suffix) ?n" by (simp add: take_rev)
  show "old_lines = take prefix old_lines @ take (length old_lines - suffix - prefix) ?o @ drop (length ?o - suffix) ?o"
    by (simp only: length_drop diff_commute append_take_drop_id)
  show "new_lines = take prefix old_lines @ take (length new_lines - suffix - prefix) ?n @ drop (length ?o - suffix) ?o"
    unfolding s p by (simp only: length_drop diff_commute append_take_drop_id)
qed

end
