(* ===== verification/Spec2Isabelle.thy ===== *)
theory Spec2Isabelle
  imports Registry_Props Actor_Ids Orchestrate_Props Egress_Http Egress_Admin Line_Patch
begin

text \<open>
  A verification of the parts of TempestMiku, an agent server written in Rust, that decide what a
  model-written program may do: the host boundary, the actors it may start, what may leave the machine
  over HTTP, the redaction of secrets, and the patching of text files. The paths below are relative to
  \<open>src/crates\<close>.

  \<^bold>\<open>The program.\<close> A model writes code for a sandbox; the code reaches the outside only through
  host functions. Every call carries an invocation context with the session, the acting actor, the
  capability grants, an approval policy and an event sink (\<open>tm-host/src/foundation\<close>). The functions
  \<open>agents.*\<close> (\<open>tm-agents\<close>) start child actors with delegated grants, exchange messages, wait and
  cancel; they share one registry of all sessions. \<open>http.request\<close> and \<open>secrets.use\<close> (\<open>tm-egress\<close>) send
  HTTP requests under a declarative policy (\<open>tm-host/src/egress.rs\<close>), with budgets, opaque secret
  handles, approvals and durable records of mutations. \<open>fs.patch\<close> rewrites text files line by line.

  \<^bold>\<open>Modelling.\<close> Strings are lists of UTF-8 bytes, fixed-width integers are words or naturals with
  saturation and overflow checks written out, results are sums with errors on the left, and state is
  passed explicitly. Code outside the repository's sources (regular expressions, URL parsing, DNS, the
  HTTP client, digests, JSON printing, channels, clocks, the actor executor, Unicode tables) is a
  parameter, and what is relied upon of it is a named hypothesis (\<open>fifo_channel\<close>, \<open>regex_laws\<close>,
  \<open>session_env\<close>, \<open>upper_casing_ok\<close>, \<open>hosts_ignore_case\<close>, \<open>absolute_paths\<close>, \<open>ambient\<close>).

  \<^bold>\<open>Theories and what they show.\<close>
  \<^item> \<open>Prelude\<close>: the language and its standard library; the collections of rules; the interface
    \<open>dictionary\<close> for maps.
  \<^item> \<open>Capability\<close> (\<open>foundation/capability.rs\<close>, \<open>registry.rs\<close>, \<open>resource.rs\<close>, \<open>error.rs\<close>): a host call or
    a resource access happens only with a covering grant, and a refusal changes nothing.
  \<^item> \<open>Actor\<close>, \<open>Supervise\<close>, \<open>Mailbox\<close>, \<open>Registry\<close> (\<open>tm-agents/src/actor.rs\<close>, \<open>executor.rs\<close>,
    \<open>supervise.rs\<close>, \<open>mailbox.rs\<close> and \<open>mailbox/\<close>): bounded text, restart decisions, inboxes that lose and
    reorder nothing, a bounded log. A supervisor's attempt counts stay within the maximum as long as
    its policy is not replaced.
  \<^item> \<open>Registry_Inv\<close>, \<open>Session_Isolation\<close>, \<open>Actor_Tree\<close>, \<open>Registry_Props\<close>, \<open>Actor_Ids\<close>: the registry's
    invariant, isolation of sessions, cancellation of subtrees, admission, restarts and ids.
  \<^item> \<open>Orchestrate\<close>, \<open>Orchestrate_Steps\<close>, \<open>Delegation\<close>, \<open>Orchestrate_Props\<close> (\<open>tm-agents/src/orchestrate\<close>):
    every call is a sequence of registry operations of its session; a child's authority is bounded by
    its parent's; only a direct parent cancels; waits end at their deadline.
  \<^item> \<open>Redaction\<close> (\<open>tm-memory/src/redaction.rs\<close>): text and structured values.
  \<^item> \<open>Egress_Config\<close>, \<open>Egress_Policy\<close>, \<open>Egress_Resolver\<close> (\<open>tm-host/src/egress.rs\<close>,
    \<open>tm-egress/src/policy.rs\<close>, \<open>resolver.rs\<close>): the policy checks agree, an authorized URL is allowlisted,
    and an address is accepted exactly outside the refused ranges.
  \<^item> \<open>Egress_State\<close> (\<open>budget.rs\<close>, \<open>state.rs\<close>, \<open>error.rs\<close>): exact budgets within their limits; an
    effect is claimed once and its outcome is final.
  \<^item> \<open>Egress_Runtime\<close>, \<open>Egress_Exchange\<close>, \<open>Egress_Trace\<close>, \<open>Egress_Admin\<close> (\<open>runtime.rs\<close>): what leaves in an
    exchange, that each reservation is settled, which redirects are followed, which revocations survive
    a change of policy, and whom a secret handle serves.
  \<^item> \<open>Egress_Mutation\<close>, \<open>Egress_Preview\<close>, \<open>Egress_Http\<close> (\<open>runtime.rs\<close>, \<open>host.rs\<close>): a mutation is approved
    before it is sent, claimed once, and its outcome recorded; previews hide secrets.
  \<^item> \<open>Line_Patch\<close> (\<open>tm-host/src/linked/util/patch.rs\<close>): a patch does what its hunks ask or is refused.

  \<^bold>\<open>Interfaces.\<close> \<open>dictionary\<close> is interpreted by the sorted and by the plain association lists of the
  model, \<open>invariant_system\<close> by the supervisor, the registry and the budget book; the client lemmas are
  proved once inside them.

  \<^bold>\<open>Bounds and termination.\<close> There is no fuel. Loops that end are total functions: the redirect
  loop by the distance of its counter to the cap (an 8-bit word), the walks of the actor tree by the
  actors not yet visited, the rewriting pass by the ranges and lines left. A call of \<open>agents.*\<close> that
  may not return has an optional result, with \<open>None\<close> for not returning; where a call does return,
  that is a theorem.

  \<^bold>\<open>Not modelled.\<close>
  \<^item> The other tools of \<open>tm-host/src/linked\<close> and the store of \<open>tm-artifacts\<close>: they act through the file
    system, child processes, kernel isolation and git.
  \<^item> Crates with pure parts that are left out of this development and not for a reason of principle:
    the sandbox language \<open>tm-lang\<close>, the drive \<open>tm-drive\<close>, the agent loop \<open>tm-core\<close>, the model client
    \<open>tm-llm\<close>, the tool servers \<open>tm-mcp\<close>, the modes \<open>tm-modes\<close>, the worker protocol and the evolution
    policy of \<open>tm-host/src/evolution.rs\<close>.
  \<^item> The rest of \<open>tm-memory\<close>: record contracts, embeddings, ranking with floating-point scores and
    evaluations.
  \<^item> \<open>tm-server\<close>, the applications and the clients: HTTP handlers, storage and user interfaces.
  \<^item> \<open>EgressAdmin::install_state_store\<close>: the egress state store is the in-memory one throughout.
  \<^item> Within \<open>tm-agents\<close>: the resource views of \<open>resources.rs\<close>, the installation of callbacks and the
    documentation records of the \<open>agents.*\<close> functions.
\<close>

end
